(* ===== verification/Prelude.thy ===== *)
theory Prelude
  imports Complex_Main "HOL-Library.Char_ord" "HOL-Library.List_Lexorder"
    "HOL-Library.Signed_Division" "HOL-Library.Multiset" "HOL-Library.Code_Target_Nat"
begin

text \<open>
  What every component of the model shares: Go's 64-bit integers, float64 rounding,
  byte strings and the operations of package \<open>strings\<close>, \<open>strconv\<close> and \<open>fmt\<close> the
  driver calls, maps with a default, and the generic facts about folds that the loops of
  the driver are reasoned about with.

  Conventions.  A Go string is its byte sequence, so \<open>string\<close> (a list of 8-bit \<open>char\<close>)
  is its exact model and \<open>length\<close> is Go's \<open>len\<close>.  An int64 is an \<open>int\<close> whose every
  arithmetic result passes through \<open>wrap64\<close>; a uint64 is a \<open>nat\<close> reduced modulo \<open>2 ^ 64\<close>.
\<close>

named_theorems scan_simps \<open>rewriting the loops of the satisfiability scans\<close>
named_theorems cel_simps \<open>meaning of the generated selector expressions\<close>
named_theorems build_simps \<open>the attributes the publisher writes\<close>

section \<open>Machine integers\<close>

definition wrap64 :: "int \<Rightarrow> int" where
  "wrap64 x = (x + 2 ^ 63) mod 2 ^ 64 - 2 ^ 63"

definition in_i64 :: "int \<Rightarrow> bool" where
  "in_i64 x \<longleftrightarrow> - (2 ^ 63) \<le> x \<and> x < 2 ^ 63"

definition i64_div :: "int \<Rightarrow> int \<Rightarrow> int" where
  "i64_div a b = wrap64 (a sdiv b)"

definition i64_of_u64 :: "nat \<Rightarrow> int" where
  "i64_of_u64 n = wrap64 (int n)"

lemma wrap64_in_range [simp]: "in_i64 (wrap64 x)"
proof -
  have "0 \<le> (x + 2 ^ 63) mod 2 ^ 64" "(x + 2 ^ 63) mod 2 ^ 64 < 2 ^ 64"
    by simp_all
  then show ?thesis by (simp add: wrap64_def in_i64_def)
qed

lemma wrap64_id: "in_i64 x \<Longrightarrow> wrap64 x = x"
  by (simp add: wrap64_def in_i64_def mod_pos_pos_trivial)

lemma wrap64_small: "0 \<le> x \<Longrightarrow> x < 2 ^ 63 \<Longrightarrow> wrap64 x = x"
  by (rule wrap64_id) (simp add: in_i64_def)

lemma i64_of_u64_small: "n < 2 ^ 63 \<Longrightarrow> i64_of_u64 n = int n"
  by (simp add: i64_of_u64_def wrap64_small)

lemma wrap64_high: "2 ^ 63 \<le> x \<Longrightarrow> x < 2 ^ 64 \<Longrightarrow> wrap64 x = x - 2 ^ 64"
proof -
  assume x: "2 ^ 63 \<le> x" "x < 2 ^ 64"
  have "(x + 2 ^ 63) mod 2 ^ 64 = ((x - 2 ^ 63) + 2 ^ 64) mod 2 ^ 64"
    by (rule arg_cong [where f = "\<lambda>y. y mod 2 ^ 64"]) simp
  also have "\<dots> = (x - 2 ^ 63) mod 2 ^ 64" by (rule mod_add_self2)
  also have "\<dots> = x - 2 ^ 63" using x by (simp add: mod_pos_pos_trivial)
  finally show ?thesis by (simp add: wrap64_def)
qed

lemma i64_of_u64_large:
  "2 ^ 63 \<le> n \<Longrightarrow> n < 2 ^ 64 \<Longrightarrow> i64_of_u64 n = int n - 2 ^ 64"
  unfolding i64_of_u64_def by (rule wrap64_high) simp_all

lemma sdiv_nonneg: "0 \<le> a \<Longrightarrow> 0 < b \<Longrightarrow> a sdiv b = a div (b :: int)"
  by (simp add: signed_divide_int_def sgn_if)

lemma i64_div_nonneg: "0 \<le> a \<Longrightarrow> a < 2 ^ 63 \<Longrightarrow> 0 < b \<Longrightarrow> i64_div a b = a div b"
proof -
  assume a: "0 \<le> a" "a < 2 ^ 63" and b: "0 < b"
  have "a div b \<le> a div 1" using a b by (intro zdiv_mono2) simp_all
  moreover have "0 \<le> a div b" using a b by (simp add: pos_imp_zdiv_nonneg_iff)
  ultimately show ?thesis
    using a b by (simp add: i64_div_def sdiv_nonneg wrap64_small)
qed


section \<open>float64\<close>

text \<open>
  A finite float64 is the rational number it denotes; an operation on two of them is the
  exact rational operation followed by \<open>f64\<close>, IEEE-754 rounding to the nearest value
  with a 53-bit significand, ties to even.  Overflow to infinity and subnormal results are
  not represented: the quotients the driver forms lie between \<open>2 ^ -64\<close> and \<open>2 ^ 64\<close>.
  The helpers take their intermediate results as arguments, so that the kernel evaluates
  each of them once.
\<close>

fun bitlen :: "int \<Rightarrow> int" where
  "bitlen n = (if n \<le> 0 then 0 else 1 + bitlen (n div 2))"

declare bitlen.simps [simp del]

definition pow2 :: "int \<Rightarrow> rat" where
  "pow2 e = (if 0 \<le> e then 2 ^ nat e else 1 / 2 ^ nat (- e))"

definition nearest_even :: "int \<Rightarrow> rat \<Rightarrow> int" where
  "nearest_even f d =
     (if d < 1 / 2 then f else if d > 1 / 2 then f + 1 else if even f then f else f + 1)"

definition round_half_even :: "rat \<Rightarrow> int" where
  "round_half_even y = nearest_even \<lfloor>y\<rfloor> (y - of_int \<lfloor>y\<rfloor>)"

definition exponent_guess :: "int \<times> int \<Rightarrow> int" where
  "exponent_guess pq = bitlen (fst pq) - bitlen (snd pq) - 53"

definition exponent_fix :: "rat \<Rightarrow> int \<Rightarrow> int" where
  "exponent_fix y e = (if pow2 53 \<le> y / pow2 e then e + 1 else e)"

definition f64_at :: "rat \<Rightarrow> int \<Rightarrow> rat" where
  "f64_at y e = of_int (round_half_even (y / pow2 e)) * pow2 e"

definition f64 :: "rat \<Rightarrow> rat" where
  "f64 x = sgn x * f64_at \<bar>x\<bar> (exponent_fix \<bar>x\<bar> (exponent_guess (quotient_of \<bar>x\<bar>)))"

lemma f64_zero [simp]: "f64 0 = 0"
  by (simp add: f64_def)

lemma pow2_pos: "0 < pow2 e"
  by (simp add: pow2_def)

lemma round_half_even_nonneg: "0 \<le> y \<Longrightarrow> 0 \<le> round_half_even y"
  by (simp add: round_half_even_def nearest_even_def)

lemma f64_nonneg: "0 \<le> x \<Longrightarrow> 0 \<le> f64 x"
  unfolding f64_def f64_at_def
  by (intro mult_nonneg_nonneg)
    (simp_all add: round_half_even_nonneg pow2_pos less_imp_le sgn_if)

text \<open>
  Converting a float64 to an integer truncates; out of the target's range the result is
  implementation-dependent, and so a parameter.
\<close>

record platform =
  outU64 :: "rat \<Rightarrow> nat"
  outI64 :: "rat \<Rightarrow> int"

definition truncated :: "rat \<Rightarrow> int" where
  "truncated x = (if x < 0 then - \<lfloor>- x\<rfloor> else \<lfloor>x\<rfloor>)"

definition f64_to_u64 :: "platform \<Rightarrow> rat \<Rightarrow> nat" where
  "f64_to_u64 plat x =
     (if -1 < x \<and> truncated x < 2 ^ 64 then nat (truncated x) else outU64 plat x)"

definition f64_to_i64 :: "platform \<Rightarrow> rat \<Rightarrow> int" where
  "f64_to_i64 plat x = (if in_i64 (truncated x) then truncated x else outI64 plat x)"

section \<open>Loops\<close>

text \<open>
  A loop over a slice that carries a state is \<open>fold\<close>.  A loop nested in another one is a
  single loop over the pairs of an outer and an inner element.
\<close>

definition nested :: "('a \<Rightarrow> 'b list) \<Rightarrow> 'a list \<Rightarrow> ('a \<times> 'b) list" where
  "nested g xs = concat (map (\<lambda>x. map (Pair x) (g x)) xs)"

lemma nested_simps [simp]:
  "nested g [] = []"
  "nested g (x # xs) = map (Pair x) (g x) @ nested g xs"
  "nested g (xs @ ys) = nested g xs @ nested g ys"
  by (simp_all add: nested_def)

lemma set_nested: "set (nested g xs) = (\<Union>x \<in> set xs. Pair x ` set (g x))"
  by (induction xs) auto

lemma fold_map_pair: "fold (\<lambda>(x, y). f x y) (map (Pair x) ys) st = fold (f x) ys st"
  by (induction ys arbitrary: st) auto

lemma fold_nested:
  "fold (\<lambda>x. fold (f x) (g x)) xs st = fold (\<lambda>(x, y). f x y) (nested g xs) st"
  by (induction xs arbitrary: st) (auto simp: fold_map_pair)

lemma fold_skip:
  "fold (\<lambda>x st. if P x then f x st else st) xs st = fold f (filter P xs) st"
  by (induction xs arbitrary: st) auto

lemma fold_invariant_gen:
  "I st \<Longrightarrow> (\<And>x st. x \<in> set xs \<Longrightarrow> I st \<Longrightarrow> I (f x st)) \<Longrightarrow> I (fold f xs st)"
  by (induction xs arbitrary: st) auto

lemma fold_cong_set:
  "(\<And>x st. x \<in> set xs \<Longrightarrow> f x st = g x st) \<Longrightarrow> fold f xs st = fold g xs st"
  by (induction xs arbitrary: st) auto

lemma find_in: "find P xs = Some x \<Longrightarrow> x \<in> set xs \<and> P x"
  by (induction xs) (auto split: if_splits)

section \<open>Results that may fail\<close>

text \<open>A Go pair \<open>(value, error)\<close> is a value of a sum type, the error on the left.\<close>

type_synonym 'a result = "string + 'a"

definition result_bind :: "'e + 'a \<Rightarrow> ('a \<Rightarrow> 'e + 'b) \<Rightarrow> 'e + 'b" where
  "result_bind r f = (case r of Inl e \<Rightarrow> Inl e | Inr x \<Rightarrow> f x)"

lemma result_bind_simps [simp]:
  "result_bind (Inl e) f = Inl e"
  "result_bind (Inr x) f = f x"
  by (simp_all add: result_bind_def)

end
