(* ===== verification/GoStrings.thy ===== *)
theory GoStrings
  imports Prelude
begin

text \<open>
  The operations of Go's \<open>strings\<close>, \<open>strconv\<close>, \<open>sort\<close> and \<open>fmt\<close> packages that the driver
  uses, on byte strings.  Case mapping is the ASCII one: the strings it is applied to are
  kernel attribute values, vendor names and environment keys.
\<close>

section \<open>Prefixes, infixes, splitting\<close>

definition has_prefix :: "string \<Rightarrow> string \<Rightarrow> bool" where
  "has_prefix s p \<longleftrightarrow> take (length p) s = p"

definition has_suffix :: "string \<Rightarrow> string \<Rightarrow> bool" where
  "has_suffix s p \<longleftrightarrow> has_prefix (rev s) (rev p)"

definition cut_prefix :: "string \<Rightarrow> string \<Rightarrow> string option" where
  "cut_prefix s p = (if has_prefix s p then Some (drop (length p) s) else None)"

definition trim_prefix :: "string \<Rightarrow> string \<Rightarrow> string" where
  "trim_prefix s p = (if has_prefix s p then drop (length p) s else s)"

definition trim_suffix :: "string \<Rightarrow> string \<Rightarrow> string" where
  "trim_suffix s p = (if has_suffix s p then take (length s - length p) s else s)"

fun contains :: "string \<Rightarrow> string \<Rightarrow> bool" where
  "contains [] sub = (sub = [])"
| "contains (c # s) sub = (has_prefix (c # s) sub \<or> contains s sub)"

fun split_on :: "char \<Rightarrow> string \<Rightarrow> string list" where
  "split_on sep [] = [[]]"
| "split_on sep (c # s) =
     (if c = sep then [] # split_on sep s
      else (case split_on sep s of [] \<Rightarrow> [[c]] | w # ws \<Rightarrow> (c # w) # ws))"

fun join_with :: "string \<Rightarrow> string list \<Rightarrow> string" where
  "join_with sep [] = []"
| "join_with sep [x] = x"
| "join_with sep (x # y # ys) = x @ sep @ join_with sep (y # ys)"

definition replace_char :: "char \<Rightarrow> char \<Rightarrow> string \<Rightarrow> string" where
  "replace_char a b s = map (\<lambda>c. if c = a then b else c) s"

definition sort_strings :: "string list \<Rightarrow> string list" where
  "sort_strings xs = sort xs"

definition lower_char :: "char \<Rightarrow> char" where
  "lower_char c =
     (let n = of_char c :: nat in if 65 \<le> n \<and> n \<le> 90 then char_of (n + 32) else c)"

definition upper_char :: "char \<Rightarrow> char" where
  "upper_char c =
     (let n = of_char c :: nat in if 97 \<le> n \<and> n \<le> 122 then char_of (n - 32) else c)"

definition to_lower :: "string \<Rightarrow> string" where
  "to_lower s = map lower_char s"

definition to_upper :: "string \<Rightarrow> string" where
  "to_upper s = map upper_char s"

section \<open>White space\<close>

text \<open>
  The UTF-8 encodings of the runes \<open>unicode.IsSpace\<close> accepts.  No encoding starts with a
  continuation byte, so a match at any byte position is a match at a rune boundary.
\<close>

definition space_runes :: "string list" where
  "space_runes =
     [[CHR 0x09], [CHR 0x0A], [CHR 0x0B], [CHR 0x0C], [CHR 0x0D], [CHR 0x20],
      [CHR 0xC2, CHR 0x85], [CHR 0xC2, CHR 0xA0],
      [CHR 0xE1, CHR 0x9A, CHR 0x80],
      [CHR 0xE2, CHR 0x80, CHR 0x80], [CHR 0xE2, CHR 0x80, CHR 0x81],
      [CHR 0xE2, CHR 0x80, CHR 0x82], [CHR 0xE2, CHR 0x80, CHR 0x83],
      [CHR 0xE2, CHR 0x80, CHR 0x84], [CHR 0xE2, CHR 0x80, CHR 0x85],
      [CHR 0xE2, CHR 0x80, CHR 0x86], [CHR 0xE2, CHR 0x80, CHR 0x87],
      [CHR 0xE2, CHR 0x80, CHR 0x88], [CHR 0xE2, CHR 0x80, CHR 0x89],
      [CHR 0xE2, CHR 0x80, CHR 0x8A], [CHR 0xE2, CHR 0x80, CHR 0xA8],
      [CHR 0xE2, CHR 0x80, CHR 0xA9], [CHR 0xE2, CHR 0x80, CHR 0xAF],
      [CHR 0xE2, CHR 0x81, CHR 0x9F], [CHR 0xE3, CHR 0x80, CHR 0x80]]"

definition leading_rune :: "string list \<Rightarrow> string \<Rightarrow> nat" where
  "leading_rune rs s = (case find (has_prefix s) rs of None \<Rightarrow> 0 | Some r \<Rightarrow> length r)"

lemma has_prefix_length: "has_prefix s p \<Longrightarrow> length p \<le> length s"
  by (metis has_prefix_def length_take min.absorb_iff2 nat_le_linear)

lemma leading_rune_le: "leading_rune rs s \<le> length s"
  by (auto simp: leading_rune_def has_prefix_length find_Some_iff split: option.splits)

function trim_left_runes :: "string list \<Rightarrow> string \<Rightarrow> string" where
  "trim_left_runes rs s =
     (if leading_rune rs s = 0 then s else trim_left_runes rs (drop (leading_rune rs s) s))"
  by pat_completeness auto
termination
proof (relation "measure (\<lambda>(rs, s). length s)", goal_cases)
  case (2 rs s)
  with leading_rune_le [of rs s] show ?case by auto
qed simp

declare trim_left_runes.simps [simp del]

definition trim_space :: "string \<Rightarrow> string" where
  "trim_space s =
     rev (trim_left_runes (map rev space_runes) (rev (trim_left_runes space_runes s)))"

section \<open>Decimal numbers\<close>

definition digit_char :: "nat \<Rightarrow> char" where
  "digit_char d = char_of (48 + d)"

definition is_digit :: "char \<Rightarrow> bool" where
  "is_digit c \<longleftrightarrow> 48 \<le> (of_char c :: nat) \<and> (of_char c :: nat) \<le> 57"

definition digit_value :: "char \<Rightarrow> nat" where
  "digit_value c = of_char c - 48"

fun show_nat :: "nat \<Rightarrow> string" where
  "show_nat n =
     (if n < 10 then [digit_char n] else show_nat (n div 10) @ [digit_char (n mod 10)])"

declare show_nat.simps [simp del]

definition show_int :: "int \<Rightarrow> string" where
  "show_int i = (if i < 0 then CHR ''-'' # show_nat (nat (- i)) else show_nat (nat i))"

definition digits_value :: "string \<Rightarrow> nat" where
  "digits_value s = foldl (\<lambda>a c. 10 * a + digit_value c) 0 s"

definition parse_uint :: "string \<Rightarrow> nat option" where
  \<comment> \<open>\<open>strconv.ParseUint(s, 10, 64)\<close>\<close>
  "parse_uint s =
     (if s \<noteq> [] \<and> list_all is_digit s \<and> digits_value s < 2 ^ 64
      then Some (digits_value s) else None)"

definition atoi :: "string \<Rightarrow> int option" where
  \<comment> \<open>\<open>strconv.Atoi\<close> on a 64-bit platform\<close>
  "atoi s =
     (let neg = has_prefix s ''-'';
          ds = (if has_prefix s ''-'' \<or> has_prefix s ''+'' then tl s else s);
          v = (if neg then - int (digits_value ds) else int (digits_value ds))
      in if ds \<noteq> [] \<and> list_all is_digit ds \<and> in_i64 v then Some v else None)"

lemma digit_chars [simp]:
  "digit_char 0 = CHR ''0''" "digit_char (Suc 0) = CHR ''1''" "digit_char 1 = CHR ''1''"
  "digit_char 2 = CHR ''2''" "digit_char 3 = CHR ''3''" "digit_char 4 = CHR ''4''"
  "digit_char 5 = CHR ''5''" "digit_char 6 = CHR ''6''" "digit_char 7 = CHR ''7''"
  "digit_char 8 = CHR ''8''" "digit_char 9 = CHR ''9''"
  by code_simp+

lemma digit_char_value: "d < 10 \<Longrightarrow> digit_value (digit_char d) = d"
  by (simp add: digit_value_def digit_char_def)

lemma digit_char_is_digit: "d < 10 \<Longrightarrow> is_digit (digit_char d)"
  by (simp add: is_digit_def digit_char_def)

lemma digits_value_snoc: "digits_value (s @ [c]) = 10 * digits_value s + digit_value c"
  by (simp add: digits_value_def)

lemma digits_value_show_nat [simp]: "digits_value (show_nat n) = n"
proof (induction n rule: show_nat.induct)
  case (1 n)
  show ?case
  proof (cases "n < 10")
    case True
    then show ?thesis
      by (simp add: show_nat.simps [of n] digits_value_def digit_char_value)
  next
    case False
    with 1 show ?thesis
      by (simp add: show_nat.simps [of n] digits_value_snoc digit_char_value)
  qed
qed

lemma show_nat_digits: "list_all is_digit (show_nat n)"
proof (induction n rule: show_nat.induct)
  case (1 n)
  then show ?case
    by (cases "n < 10") (simp_all add: show_nat.simps [of n] digit_char_is_digit)
qed

lemma show_nat_nonempty [simp]: "show_nat n \<noteq> []"
  by (subst show_nat.simps) simp

lemma show_nat_inject [simp]: "show_nat m = show_nat n \<longleftrightarrow> m = n"
  by (metis digits_value_show_nat)

lemma parse_uint_show_nat: "n < 2 ^ 64 \<Longrightarrow> parse_uint (show_nat n) = Some n"
  by (simp add: parse_uint_def show_nat_digits)

lemma show_nat_no_char: "\<not> is_digit c \<Longrightarrow> c \<notin> set (show_nat n)"
  using show_nat_digits [of n] by (auto simp: list_all_iff)

lemma show_int_inject [simp]: "show_int i = show_int j \<longleftrightarrow> i = j"
proof -
  have minus: "CHR ''-'' # show_nat m \<noteq> show_nat n" for m n
  proof
    assume "CHR ''-'' # show_nat m = show_nat n"
    then have "CHR ''-'' \<in> set (show_nat n)" by (metis list.set_intros(1))
    then show False using show_nat_no_char [of "CHR ''-''" n] by (simp add: is_digit_def)
  qed
  show ?thesis
    using minus minus [symmetric] by (auto simp: show_int_def)
qed

section \<open>Formatting floats\<close>

text \<open>
  \<open>strconv.FormatFloat(x, 'f', -1, 64)\<close> prints the fewest decimal digits that read back as
  \<open>x\<close>: the search below tries the scales \<open>10 ^ p\<close> upwards from one digit more than the
  integer part has, and stops at the first at which the nearest decimal rounds to \<open>x\<close>.  A
  float64 is a multiple of \<open>2 ^ -1074\<close> below \<open>2 ^ 1024\<close>, so 1400 scales always suffice.
  \<open>FormatFloat(x, 'f', 1, 64)\<close> rounds the exact value half to even at one decimal.
\<close>

definition pow10 :: "int \<Rightarrow> rat" where
  "pow10 p = (if 0 \<le> p then 10 ^ nat p else 1 / 10 ^ nat (- p))"

definition scaled :: "rat \<Rightarrow> int \<Rightarrow> int" where
  "scaled x p = round_half_even (x * pow10 p)"

fun find_scale :: "rat \<Rightarrow> int \<Rightarrow> nat \<Rightarrow> int" where
  "find_scale x p 0 = p"
| "find_scale x p (Suc n) =
     (if f64 (of_int (scaled x p) / pow10 p) = x then p else find_scale x (p + 1) n)"

definition pad_left :: "nat \<Rightarrow> string \<Rightarrow> string" where
  "pad_left n s = replicate (n - length s) (CHR ''0'') @ s"

definition print_decimal :: "nat \<Rightarrow> int \<Rightarrow> string" where
  "print_decimal m p =
     (if p \<le> 0 then show_nat m @ replicate (nat (- p)) (CHR ''0'')
      else show_nat (m div 10 ^ nat p) @ ''.'' @ pad_left (nat p) (show_nat (m mod 10 ^ nat p)))"

definition print_scaled :: "rat \<Rightarrow> int \<Rightarrow> string" where
  "print_scaled x p = print_decimal (nat (scaled x p)) p"

definition format_f64 :: "rat \<Rightarrow> string" where
  "format_f64 x =
     (if x = 0 then ''0''
      else (if x < 0 then ''-'' else []) @
        print_scaled \<bar>x\<bar> (find_scale \<bar>x\<bar> (- int (length (show_nat (nat \<lfloor>\<bar>x\<bar>\<rfloor>)))) 1400))"

definition format_fixed1 :: "rat \<Rightarrow> string" where
  "format_fixed1 x = (if x < 0 then ''-'' else []) @ print_scaled \<bar>x\<bar> 1"

section \<open>Quoting\<close>

text \<open>
  The verb \<open>%q\<close>: a double-quoted Go literal.  Bytes outside ASCII are kept as they are,
  which is what Go does for printable runes.
\<close>

definition hex_char :: "nat \<Rightarrow> char" where
  "hex_char d = (if d < 10 then char_of (48 + d) else char_of (87 + d))"

definition quote_byte :: "char \<Rightarrow> string" where
  "quote_byte c =
     (let n = of_char c :: nat; bs = CHR 0x5C in
      if n = 34 \<or> n = 92 then [bs, c]
      else if n = 7 then [bs, CHR ''a''] else if n = 8 then [bs, CHR ''b'']
      else if n = 12 then [bs, CHR ''f''] else if n = 10 then [bs, CHR ''n'']
      else if n = 13 then [bs, CHR ''r''] else if n = 9 then [bs, CHR ''t'']
      else if n = 11 then [bs, CHR ''v'']
      else if n < 32 \<or> n = 127 then [bs, CHR ''x'', hex_char (n div 16), hex_char (n mod 16)]
      else [c])"

definition go_quote :: "string \<Rightarrow> string" where
  "go_quote s = [CHR 0x22] @ concat (map quote_byte s) @ [CHR 0x22]"

section \<open>Facts about the string operations\<close>

lemma has_prefix_append [simp]: "has_prefix (p @ s) p"
  by (simp add: has_prefix_def)

lemma has_prefix_same_append [simp]: "has_prefix (p @ s) (p @ q) = has_prefix s q"
  by (simp add: has_prefix_def)

lemma has_prefix_iff: "has_prefix s p \<longleftrightarrow> (\<exists>t. s = p @ t)"
  by (metis append_eq_conv_conj has_prefix_def)

lemma trim_prefix_append [simp]: "trim_prefix (p @ s) p = s"
  by (simp add: trim_prefix_def)

lemma trim_suffix_append [simp]: "trim_suffix (s @ p) p = s"
  by (simp add: trim_suffix_def has_suffix_def)

lemma split_on_nonempty [simp]: "split_on sep s \<noteq> []"
  by (cases s) (auto split: list.splits)

lemma mset_sort_strings [simp]: "mset (sort_strings xs) = mset xs"
  by (simp add: sort_strings_def)

lemma set_sort_strings [simp]: "set (sort_strings xs) = set xs"
  by (simp add: sort_strings_def)

lemma length_sort_strings [simp]: "length (sort_strings xs) = length xs"
  by (simp add: sort_strings_def)

lemma sorted_sort_strings [simp]: "sorted (sort_strings xs)"
  by (simp add: sort_strings_def)

lemma sort_strings_cong: "mset xs = mset ys \<Longrightarrow> sort_strings xs = sort_strings ys"
  by (simp add: sort_strings_def properties_for_sort)

lemma sort_strings_eq_Nil [simp]: "sort_strings xs = [] \<longleftrightarrow> xs = []"
  by (metis length_0_conv length_sort_strings)

lemma trim_left_runes_suffix: "\<exists>p. s = p @ trim_left_runes rs s"
proof (induction rs s rule: trim_left_runes.induct)
  case (1 rs s)
  show ?case
  proof (cases "leading_rune rs s = 0")
    case True
    then show ?thesis by (simp add: trim_left_runes.simps [of rs s])
  next
    case False
    with 1 obtain p where "drop (leading_rune rs s) s = p @ trim_left_runes rs s"
      by (auto simp: trim_left_runes.simps [of rs s])
    then have "s = (take (leading_rune rs s) s @ p) @ trim_left_runes rs s"
      by (metis append.assoc append_take_drop_id)
    then show ?thesis by blast
  qed
qed

end
