(* ===== verification/Kube.thy ===== *)
theory Kube
  imports GoStrings
begin

text \<open>
  The Kubernetes API objects the driver reads and writes, cut down to the fields its code
  uses: published devices and ResourceSlices, ResourceClaims with their allocation, and
  ResourceClaimTemplates.  These types are the \<open>resource.k8s.io/v1\<close> schema, not code of
  this repository.  A pointer field of Go is an \<open>option\<close>; a map read by key is a partial
  function; a map that is also iterated is an association list.  A quantity is the integer
  it denotes (the driver publishes and compares whole bytes and whole multiprocessors).
\<close>

record attr =
  StringValue :: "string option"
  IntValue :: "int option"
  BoolValue :: "bool option"

definition string_attr :: "string \<Rightarrow> attr" where
  "string_attr s = \<lparr>StringValue = Some s, IntValue = None, BoolValue = None\<rparr>"

definition int_attr :: "int \<Rightarrow> attr" where
  "int_attr i = \<lparr>StringValue = None, IntValue = Some i, BoolValue = None\<rparr>"

definition bool_attr :: "bool \<Rightarrow> attr" where
  "bool_attr b = \<lparr>StringValue = None, IntValue = None, BoolValue = Some b\<rparr>"

lemma attr_values [simp]:
  "StringValue (string_attr s) = Some s" "IntValue (string_attr s) = None"
  "BoolValue (string_attr s) = None" "StringValue (int_attr i) = None"
  "IntValue (int_attr i) = Some i" "BoolValue (int_attr i) = None"
  "StringValue (bool_attr b) = None" "IntValue (bool_attr b) = None"
  "BoolValue (bool_attr b) = Some b"
  by (simp_all add: string_attr_def int_attr_def bool_attr_def)

type_synonym attrs = "string \<Rightarrow> attr option"

record taint =
  taintKey :: string
  taintValue :: string
  taintEffect :: string

record device =
  devName :: string
  Attributes :: attrs
  Capacity :: "string \<Rightarrow> int option"
  Taints :: "taint list"

record resource_slice =
  Driver :: string
  PoolName :: string
  PoolGeneration :: int
  NodeName :: "string option"
  Devices :: "device list"

record alloc_result =
  resRequest :: string
  resDriver :: string
  resPool :: string
  resDevice :: string

record resource_claim =
  claimNamespace :: string
  claimName :: string
  claimUID :: string
  Allocation :: "alloc_result list option"

text \<open>
  Reading a typed attribute: Go's \<open>attrs[k]\<close> of a missing key is the zero value, whose
  pointers are nil, so a missing key and a value of another type read alike.
\<close>

definition str_of :: "attrs \<Rightarrow> string \<Rightarrow> string option" where
  "str_of a k = Option.bind (a k) StringValue"

definition int_of :: "attrs \<Rightarrow> string \<Rightarrow> int option" where
  "int_of a k = Option.bind (a k) IntValue"

definition bool_of :: "attrs \<Rightarrow> string \<Rightarrow> bool option" where
  "bool_of a k = Option.bind (a k) BoolValue"

text \<open>The node of a slice as messages name it: empty when the slice has none.\<close>

definition node_of :: "resource_slice \<Rightarrow> string" where
  "node_of sl = (case NodeName sl of None \<Rightarrow> [] | Some n \<Rightarrow> n)"

text \<open>The \<open>pool/device\<close> key under which allocations are recorded.\<close>

definition alloc_key :: "string \<Rightarrow> string \<Rightarrow> string" where
  "alloc_key pool dev = pool @ ''/'' @ dev"

end
