(* ===== verification/ClaimApi.thy ===== *)
theory ClaimApi
  imports Kube
begin

text \<open>
  The ModelClaim API (\<open>api/v1alpha1/modelclaim_types.go\<close>, \<open>groupversion_info.go\<close>), the
  resolved bounds and the resolver (\<open>internal/modelclaim/resolver.go\<close>), and the choice of
  the selector backend (\<open>internal/modelclaim/backend.go\<close>).
\<close>

section \<open>The custom resource\<close>

definition GroupName :: string where "GroupName = ''llmfit.ai''"
definition APIVersion :: string where "APIVersion = GroupName @ ''/'' @ ''v1alpha1''"
definition ModelClaimKind :: string where "ModelClaimKind = ''ModelClaim''"

definition ConditionResolved :: string where "ConditionResolved = ''Resolved''"
definition ConditionSatisfiable :: string where "ConditionSatisfiable = ''Satisfiable''"

datatype reason =
    Resolved | InvalidModel | ResolveFailed | TemplateConflict
  | DevicesAvailable | AllDevicesHeld | NoCandidates
  | TemplateCreated | TemplateUpdated

fun reason_name :: "reason \<Rightarrow> string" where
  "reason_name Resolved = ''Resolved''"
| "reason_name InvalidModel = ''InvalidModel''"
| "reason_name ResolveFailed = ''ResolveFailed''"
| "reason_name TemplateConflict = ''TemplateConflict''"
| "reason_name DevicesAvailable = ''DevicesAvailable''"
| "reason_name AllDevicesHeld = ''AllDevicesHeld''"
| "reason_name NoCandidates = ''NoCandidates''"
| "reason_name TemplateCreated = ''TemplateCreated''"
| "reason_name TemplateUpdated = ''TemplateUpdated''"

datatype condition_status = ConditionTrue | ConditionFalse | ConditionUnknown

record model_claim_spec =
  Model :: string
  MinTps :: "rat option"
  Quant :: string
  EfficiencyPct :: "int option"
  DeviceClassName :: string
  TargetDriver :: string
  MinComputeTFLOPS :: "int option"
  ExtraSelectors :: "string list"

record resolved_physics =
  rpMemoryGi :: int
  rpMinBandwidthGBs :: int
  rpQuant :: string
  rpWeightsGb :: string
  rpResolverVersion :: string

record candidates_status =
  csDevices :: int
  csNodes :: int
  csAvailable :: int

record condition =
  condType :: string
  condStatus :: condition_status
  condReason :: string
  condMessage :: string
  condGeneration :: int

record model_claim_status =
  ObservedGeneration :: int
  ResolvedField :: "resolved_physics option"
  TemplateRef :: "string option"
  CandidatesField :: "candidates_status option"
  Conditions :: "condition list"

record model_claim =
  mcName :: string
  mcNamespace :: string
  mcUID :: string
  mcGeneration :: int
  Spec :: model_claim_spec
  Status :: model_claim_status

section \<open>Resolved bounds and the resolver\<close>

record bounds =
  bModel :: string
  ClaimName :: string
  bQuant :: string
  WeightsGb :: rat
  MemoryGi :: nat
  MinBandwidthGBs :: nat
  bMinTps :: rat
  bEfficiencyPct :: nat
  ResolverVersion :: string

text \<open>
  The argument vector of the llmfit call, and what the resolver makes of the call's result.
  Running the binary and decoding its JSON are arguments: \<open>run\<close> returns the process' standard
  output or its standard error and the error text, \<open>decode\<close> the decoded bounds; theory Resolver
  has the decoder.
\<close>

definition resolver_args :: "string \<Rightarrow> rat \<Rightarrow> string \<Rightarrow> int \<Rightarrow> string list" where
  "resolver_args model minTps quant efficiencyPct =
     [''--json'', ''claim'', model, ''--min-tps'', format_f64 minTps] @
     (if quant \<noteq> [] then [''--quant'', quant] else []) @
     (if efficiencyPct > 0 then [''--efficiency'', show_int efficiencyPct] else [])"

definition Resolve ::
  "(string list \<Rightarrow> (string \<times> string) + string) \<Rightarrow> (string \<Rightarrow> bounds result) \<Rightarrow>
   string \<Rightarrow> rat \<Rightarrow> string \<Rightarrow> int \<Rightarrow> bounds result" where
  "Resolve run decode model minTps quant efficiencyPct =
     (if model = [] \<or> hd model = CHR ''-''
      then Inl (''invalid model reference '' @ go_quote model)
      else case run (resolver_args model minTps quant efficiencyPct) of
          Inl (stderr, err) \<Rightarrow>
            Inl (''llmfit claim '' @ go_quote model @
                 (if stderr \<noteq> [] then '': '' @ stderr else []) @ '' ('' @ err @ '')'')
        | Inr out \<Rightarrow>
            (case decode out of
               Inl err \<Rightarrow> Inl (''parsing llmfit claim output: '' @ err)
             | Inr b \<Rightarrow>
                 if MemoryGi b = 0 \<and> MinBandwidthGBs b = 0
                 then Inl (''llmfit claim returned empty bounds for '' @ go_quote model)
                 else Inr b))"

section \<open>Drivers, classes and backends\<close>

definition DriverDomain :: string where "DriverDomain = ''llmfit.ai''"
definition ManagedByLabel :: string where "ManagedByLabel = ''llmfit.ai/modelclaim''"
definition NvidiaDriverDomain :: string where "NvidiaDriverDomain = ''gpu.nvidia.com''"
definition nvidiaGPUClass :: string where "nvidiaGPUClass = ''gpu.nvidia.com''"
definition nvidiaMIGClass :: string where "nvidiaMIGClass = ''mig.nvidia.com''"

definition gpuClass :: string where "gpuClass = ''gpu.'' @ DriverDomain"
definition cpuClass :: string where "cpuClass = ''cpu.'' @ DriverDomain"
definition npuClass :: string where "npuClass = ''npu.'' @ DriverDomain"
definition nicClass :: string where "nicClass = ''nic.'' @ DriverDomain"

datatype backend = backendLlmfit | backendNvidia

definition backendFor :: "string \<Rightarrow> string \<Rightarrow> backend" where
  "backendFor deviceClassName targetDriver =
     (if targetDriver = NvidiaDriverDomain then backendNvidia
      else if deviceClassName = nvidiaGPUClass \<or> deviceClassName = nvidiaMIGClass
      then backendNvidia
      else backendLlmfit)"

definition nvidiaBranchesFor :: "string \<Rightarrow> bool \<times> bool" where
  "nvidiaBranchesFor deviceClassName =
     (if deviceClassName = nvidiaMIGClass then (True, False)
      else if deviceClassName = nvidiaGPUClass then (False, True)
      else (True, True))"

definition computeFloor :: "model_claim \<Rightarrow> int" where
  "computeFloor mc = (case MinComputeTFLOPS (Spec mc) of Some n \<Rightarrow> n | None \<Rightarrow> 0)"

lemma class_names_differ [simp]:
  "gpuClass \<noteq> cpuClass" "cpuClass \<noteq> gpuClass" "npuClass \<noteq> cpuClass" "cpuClass \<noteq> npuClass"
  "gpuClass \<noteq> npuClass" "npuClass \<noteq> gpuClass" "DriverDomain \<noteq> gpuClass" "gpuClass \<noteq> DriverDomain"
  "DriverDomain \<noteq> cpuClass" "cpuClass \<noteq> DriverDomain" "DriverDomain \<noteq> npuClass"
  "npuClass \<noteq> DriverDomain" "nicClass \<noteq> gpuClass" "nicClass \<noteq> cpuClass"
  "nicClass \<noteq> npuClass" "nicClass \<noteq> DriverDomain" "gpuClass \<noteq> nicClass"
  "cpuClass \<noteq> nicClass" "npuClass \<noteq> nicClass" "DriverDomain \<noteq> nicClass"
  by (simp_all add: gpuClass_def cpuClass_def npuClass_def nicClass_def DriverDomain_def)

lemma domains_differ [simp]: "DriverDomain \<noteq> NvidiaDriverDomain" "NvidiaDriverDomain \<noteq> DriverDomain"
  by (simp_all add: DriverDomain_def NvidiaDriverDomain_def)

lemma nvidia_classes_differ [simp]:
  "nvidiaGPUClass \<noteq> nvidiaMIGClass" "nvidiaMIGClass \<noteq> nvidiaGPUClass"
  by (simp_all add: nvidiaGPUClass_def nvidiaMIGClass_def)

end
