(* ===== verification/Scan.thy ===== *)
theory Scan
  imports ClaimApi
begin

text \<open>
  What the two satisfiability evaluations share: the snapshot they return, the pool
  generations that make a slice current, the devices held by allocated claims, and the
  loop that counts admitted devices and keeps the nearest miss.  The locale
  \<open>candidate_scan\<close> is the contract between an evaluation's per-device step and the facts
  about its result; each evaluation interprets it.
\<close>

section \<open>Joining reasons\<close>

definition join :: "string list \<Rightarrow> string" where
  "join parts = fold (\<lambda>(i, p) out. (if i > 0 then out @ '', '' else out) @ p) (enumerate 0 parts) []"

lemma join_join_with: "join parts = join_with '', '' parts"
proof -
  have later: "fold (\<lambda>(i, p) out. (if i > 0 then out @ '', '' else out) @ p) (enumerate (Suc n) ps) out =
      out @ concat (map (\<lambda>p. '', '' @ p) ps)" for n ps and out :: string
    by (induction ps arbitrary: n out) simp_all
  have rest: "join_with '', '' (p # ps) = p @ concat (map (\<lambda>p. '', '' @ p) ps)" for p and ps :: "string list"
    by (induction ps arbitrary: p) simp_all
  show ?thesis by (cases parts) (simp_all add: join_def later rest)
qed

section \<open>The snapshot and the allocations\<close>

record candidates =
  cDevices :: nat
  cNodes :: nat
  cAvailable :: nat
  cHeldBy :: string
  cShortfall :: string

definition claim_holder :: "resource_claim \<Rightarrow> string" where
  "claim_holder rc = claimNamespace rc @ ''/'' @ claimName rc"

definition hold_result ::
  "string \<Rightarrow> resource_claim \<Rightarrow> alloc_result \<Rightarrow> (string \<Rightarrow> string option) \<Rightarrow> (string \<Rightarrow> string option)" where
  "hold_result driver rc r held =
     (if resDriver r \<noteq> driver then held
      else held(alloc_key (resPool r) (resDevice r) \<mapsto> claim_holder rc))"

definition AllocatedDevices :: "resource_claim list \<Rightarrow> string \<Rightarrow> (string \<Rightarrow> string option)" where
  "AllocatedDevices claims driver =
     fold (\<lambda>rc held. case Allocation rc of
               None \<Rightarrow> held
             | Some results \<Rightarrow> fold (hold_result driver rc) results held)
       claims (\<lambda>_. None)"

text \<open>The map from pool names to generations reads 0 for a pool it does not hold.\<close>

definition currentPoolGens :: "resource_slice list \<Rightarrow> string \<Rightarrow> (string \<Rightarrow> int)" where
  "currentPoolGens slices driver =
     fold (\<lambda>sl maxGen.
             if Driver sl \<noteq> driver then maxGen
             else if PoolGeneration sl > maxGen (PoolName sl)
             then maxGen(PoolName sl := PoolGeneration sl) else maxGen)
       slices (\<lambda>_. 0)"

definition current_slice :: "resource_slice list \<Rightarrow> string \<Rightarrow> resource_slice \<Rightarrow> bool" where
  "current_slice slices driver sl \<longleftrightarrow>
     Driver sl = driver \<and> \<not> PoolGeneration sl < currentPoolGens slices driver (PoolName sl)"

definition current_devices :: "resource_slice list \<Rightarrow> string \<Rightarrow> (resource_slice \<times> device) list" where
  "current_devices slices driver = nested Devices (filter (current_slice slices driver) slices)"

section \<open>The loop state\<close>

record tally =
  tNodes :: "string set"
  tDevices :: nat
  tAvailable :: nat
  tHeldBy :: string
  tBestMsg :: string
  tBestScore :: rat

definition count_device ::
  "(string \<Rightarrow> string option) \<Rightarrow> resource_slice \<times> device \<Rightarrow> 'x tally_scheme \<Rightarrow> 'x tally_scheme" where
  "count_device allocated p t =
     (let sl = fst p; dev = snd p;
          t1 = t\<lparr>tDevices := tDevices t + 1,
                 tNodes := (if node_of sl \<noteq> [] then insert (node_of sl) (tNodes t) else tNodes t)\<rparr>
      in case allocated (alloc_key (PoolName sl) (devName dev)) of
           Some holder \<Rightarrow> t1\<lparr>tHeldBy := (if tHeldBy t = [] then holder else tHeldBy t)\<rparr>
         | None \<Rightarrow> t1\<lparr>tAvailable := tAvailable t + 1\<rparr>)"

definition note_miss :: "rat \<Rightarrow> string \<Rightarrow> 'x tally_scheme \<Rightarrow> 'x tally_scheme" where
  "note_miss score msg t =
     (if score > tBestScore t then t\<lparr>tBestScore := score, tBestMsg := msg\<rparr> else t)"

definition is_held :: "(string \<Rightarrow> string option) \<Rightarrow> resource_slice \<times> device \<Rightarrow> bool" where
  "is_held allocated p \<longleftrightarrow> allocated (alloc_key (PoolName (fst p)) (devName (snd p))) \<noteq> None"

section \<open>The contract of a scan\<close>

text \<open>
  A step either counts the device, or leaves the counts alone and considers it as the
  nearest miss with a score and a message, or passes over it.
\<close>

locale candidate_scan =
  fixes step :: "resource_slice \<times> device \<Rightarrow> 'x tally_scheme \<Rightarrow> 'x tally_scheme"
    and admits :: "resource_slice \<times> device \<Rightarrow> bool"
    and miss :: "resource_slice \<times> device \<Rightarrow> (rat \<times> string) option"
    and allocated :: "string \<Rightarrow> string option"
  assumes step_admits: "admits p \<Longrightarrow> step p t = count_device allocated p t"
    and step_keeps_counts: "\<not> admits p \<Longrightarrow>
          tDevices (step p t) = tDevices t \<and> tAvailable (step p t) = tAvailable t \<and>
          tNodes (step p t) = tNodes t \<and> tHeldBy (step p t) = tHeldBy t"
    and step_miss: "\<not> admits p \<Longrightarrow> miss p = Some (sc, msg) \<Longrightarrow>
          tBestScore (step p t) = (if sc > tBestScore t then sc else tBestScore t) \<and>
          tBestMsg (step p t) = (if sc > tBestScore t then msg else tBestMsg t)"
    and step_pass: "\<not> admits p \<Longrightarrow> miss p = None \<Longrightarrow>
          tBestScore (step p t) = tBestScore t \<and> tBestMsg (step p t) = tBestMsg t"
    and miss_score_nonneg: "miss p = Some (sc, msg) \<Longrightarrow> 0 \<le> sc"
begin

lemma step_devices: "tDevices (step p t) = tDevices t + (if admits p then 1 else 0)"
  by (cases "admits p")
    (auto simp: step_admits step_keeps_counts count_device_def Let_def split: option.splits)

lemma step_available:
  "tAvailable (step p t) = tAvailable t + (if admits p \<and> \<not> is_held allocated p then 1 else 0)"
  by (cases "admits p")
    (auto simp: step_admits step_keeps_counts count_device_def is_held_def Let_def
      split: option.splits)

lemma fold_devices: "tDevices (fold step ps t) = tDevices t + length (filter admits ps)"
  by (induction ps arbitrary: t) (simp_all add: step_devices)

lemma fold_available:
  "tAvailable (fold step ps t) =
     tAvailable t + length (filter (\<lambda>p. admits p \<and> \<not> is_held allocated p) ps)"
  by (induction ps arbitrary: t) (simp_all add: step_available)

lemma fold_nodes:
  "tNodes (fold step ps t) =
     tNodes t \<union> {n. n \<noteq> [] \<and> (\<exists>p \<in> set ps. admits p \<and> node_of (fst p) = n)}"
proof (induction ps arbitrary: t)
  case (Cons p ps)
  have "tNodes (step p t) =
      tNodes t \<union> {n. n \<noteq> [] \<and> admits p \<and> node_of (fst p) = n}"
    by (cases "admits p")
      (auto simp: step_admits step_keeps_counts count_device_def Let_def split: option.splits)
  then show ?case by (auto simp: Cons.IH)
qed simp

text \<open>The nearest miss: the first device of the highest score among those that fell short.\<close>

lemma fold_miss:
  "tBestScore t \<le> tBestScore (fold step ps t) \<and>
   (\<forall>p \<in> set ps. \<forall>sc msg. \<not> admits p \<and> miss p = Some (sc, msg) \<longrightarrow>
       sc \<le> tBestScore (fold step ps t)) \<and>
   (tBestScore (fold step ps t) = tBestScore t \<and> tBestMsg (fold step ps t) = tBestMsg t \<or>
    (\<exists>p \<in> set ps. \<not> admits p \<and>
        miss p = Some (tBestScore (fold step ps t), tBestMsg (fold step ps t))))"
proof (induction ps arbitrary: t)
  case (Cons p ps)
  consider (adm) "admits p" | (pass) "\<not> admits p" "miss p = None"
    | (miss) sc msg where "\<not> admits p" "miss p = Some (sc, msg)"
    by fastforce
  then show ?case
  proof cases
    case adm
    then have "tBestScore (step p t) = tBestScore t" "tBestMsg (step p t) = tBestMsg t"
      by (auto simp: step_admits count_device_def Let_def split: option.splits)
    with Cons.IH [of "step p t"] adm show ?thesis by auto
  next
    case pass
    with Cons.IH [of "step p t"] show ?thesis by (auto simp: step_pass)
  next
    case miss
    note st = step_miss [OF miss, of t]
    show ?thesis
    proof (cases "sc > tBestScore t")
      case True
      with st Cons.IH [of "step p t"] miss show ?thesis by (auto 4 3)
    next
      case False
      with st Cons.IH [of "step p t"] miss show ?thesis by (auto 4 3)
    qed
  qed
qed simp

lemma message_origin:
  "tBestMsg (fold step ps t) = tBestMsg t \<or>
   (\<exists>p sc. \<not> admits p \<and> miss p = Some (sc, tBestMsg (fold step ps t)))"
  using fold_miss [of t ps] by blast

lemma nearest_miss_from_start:
  assumes start: "tBestScore t = -1"
    and some: "\<exists>p \<in> set ps. \<not> admits p \<and> miss p \<noteq> None"
  shows "\<exists>p \<in> set ps. \<exists>sc. \<not> admits p \<and> miss p = Some (sc, tBestMsg (fold step ps t)) \<and>
           (\<forall>q \<in> set ps. \<forall>sc' msg. \<not> admits q \<and> miss q = Some (sc', msg) \<longrightarrow> sc' \<le> sc)"
proof -
  from some obtain p sc msg where p: "p \<in> set ps" "\<not> admits p" "miss p = Some (sc, msg)"
    by fastforce
  note all = fold_miss [of t ps]
  from all p have "sc \<le> tBestScore (fold step ps t)" by blast
  with miss_score_nonneg [OF p(3)] have "tBestScore (fold step ps t) \<noteq> tBestScore t"
    using start by auto
  with all show ?thesis by blast
qed

lemma no_miss_keeps_start:
  "\<forall>p \<in> set ps. admits p \<or> miss p = None \<Longrightarrow> tBestMsg (fold step ps t) = tBestMsg t"
proof (induction ps arbitrary: t)
  case (Cons p ps)
  have "tBestMsg (step p t) = tBestMsg t"
  proof (cases "admits p")
    case True
    then show ?thesis
      by (auto simp: step_admits count_device_def Let_def split: option.splits)
  next
    case False
    with Cons.prems step_pass [of p t] show ?thesis by auto
  qed
  with Cons show ?case by simp
qed simp

end

section \<open>Facts about pool generations\<close>

text \<open>The generation of a pool is the largest of its slices' generations, and at least 0.\<close>

lemma currentPoolGens_eq:
  "currentPoolGens slices driver p =
     Max (insert 0 {PoolGeneration sl | sl. sl \<in> set slices \<and> Driver sl = driver \<and> PoolName sl = p})"
proof -
  let ?f = "\<lambda>sl maxGen. if Driver sl \<noteq> driver then maxGen
      else if PoolGeneration sl > maxGen (PoolName sl)
      then maxGen(PoolName sl := PoolGeneration sl) else (maxGen :: string \<Rightarrow> int)"
  let ?S = "\<lambda>xs. {PoolGeneration sl | sl. sl \<in> set xs \<and> Driver sl = driver \<and> PoolName sl = p}"
  have fin: "finite (?S xs)" for xs by simp
  have "fold ?f xs mg p = Max (insert (mg p) (?S xs))" for xs mg
  proof (induction xs arbitrary: mg)
    case (Cons x xs)
    have "Max (insert (mg p) (?S (x # xs))) = Max (insert (?f x mg p) (?S xs))"
    proof (cases "Driver x = driver \<and> PoolName x = p")
      case True
      then have "?S (x # xs) = insert (PoolGeneration x) (?S xs)" by auto
      moreover have "?f x mg p = max (mg p) (PoolGeneration x)" using True by (auto simp: max_def)
      moreover have "Max (insert (mg p) (insert (PoolGeneration x) (?S xs))) =
          Max (insert (max (mg p) (PoolGeneration x)) (?S xs))"
      proof (cases "?S xs = {}")
        case False
        then show ?thesis using fin [of xs] by (simp add: max.assoc)
      next
        case True
        show ?thesis unfolding True by simp
      qed
      ultimately show ?thesis by simp
    next
      case False
      then have "?S (x # xs) = ?S xs" "?f x mg p = mg p" by auto
      then show ?thesis by simp
    qed
    then show ?case using Cons.IH [of "?f x mg"] by simp
  qed simp
  then show ?thesis by (simp add: currentPoolGens_def)
qed

lemma currentPoolGens_cong:
  "set slices = set slices' \<Longrightarrow> currentPoolGens slices driver = currentPoolGens slices' driver"
  by (rule ext) (simp add: currentPoolGens_eq)

text \<open>A slice that is itself superseded, or of another driver, moves no generation.\<close>

lemma currentPoolGens_insert:
  assumes "Driver s \<noteq> driver \<or> PoolGeneration s < currentPoolGens (xs @ ys) driver (PoolName s)"
  shows "currentPoolGens (xs @ s # ys) driver = currentPoolGens (xs @ ys) driver"
proof
  fix p
  let ?S = "\<lambda>zs. {PoolGeneration sl | sl. sl \<in> set zs \<and> Driver sl = driver \<and> PoolName sl = p}"
  show "currentPoolGens (xs @ s # ys) driver p = currentPoolGens (xs @ ys) driver p"
  proof (cases "Driver s = driver \<and> PoolName s = p")
    case True
    then have "?S (xs @ s # ys) = insert (PoolGeneration s) (?S (xs @ ys))" by auto
    moreover have "PoolGeneration s < Max (insert 0 (?S (xs @ ys)))"
      using assms True by (simp add: currentPoolGens_eq)
    moreover have "finite (insert 0 (?S (xs @ ys)))" by simp
    ultimately show ?thesis
      by (simp add: currentPoolGens_eq insert_commute [of 0] max.absorb2 del: set_append)
  next
    case False
    then have "?S (xs @ s # ys) = ?S (xs @ ys)" by auto
    then show ?thesis by (simp add: currentPoolGens_eq del: set_append)
  qed
qed

lemma current_devices_insert:
  assumes "Driver s \<noteq> driver \<or> PoolGeneration s < currentPoolGens (xs @ ys) driver (PoolName s)"
  shows "current_devices (xs @ s # ys) driver = current_devices (xs @ ys) driver"
proof -
  have "current_slice (xs @ s # ys) driver = current_slice (xs @ ys) driver"
    by (simp add: fun_eq_iff current_slice_def currentPoolGens_insert [OF assms])
  moreover have "\<not> current_slice (xs @ ys) driver s"
    using assms by (auto simp: current_slice_def)
  ultimately show ?thesis by (simp add: current_devices_def)
qed

lemma mset_nested: "mset (nested g xs) = (\<Sum>x \<in># mset xs. image_mset (Pair x) (mset (g x)))"
  by (induction xs) auto

lemma current_devices_mset:
  assumes "mset slices = mset slices'"
  shows "mset (current_devices slices driver) = mset (current_devices slices' driver)"
proof -
  have "currentPoolGens slices driver = currentPoolGens slices' driver"
    by (rule currentPoolGens_cong) (rule mset_eq_setD [OF assms])
  then have "current_slice slices driver = current_slice slices' driver"
    by (simp add: fun_eq_iff current_slice_def)
  then have "mset (filter (current_slice slices driver) slices) =
      mset (filter (current_slice slices' driver) slices')"
    using assms by (metis mset_filter)
  then show ?thesis by (simp only: current_devices_def mset_nested)
qed

lemma current_devices_set: "p \<in> set (current_devices slices driver) \<Longrightarrow>
    fst p \<in> set slices \<and> Driver (fst p) = driver \<and> snd p \<in> set (Devices (fst p))"
  by (auto simp: current_devices_def set_nested current_slice_def)

end
