(* ===== verification/Cel.thy ===== *)
theory Cel
  imports Kube
begin

text \<open>
  The contract language: the fragment of CEL in which device selectors are written.
  \<open>render\<close> is its concrete syntax, \<open>cel_eval\<close> the meaning the DRA documentation gives it.
  The driver only ever produces text (its generators are modelled where they are defined,
  character for character); the abstract syntax here is the specification those texts are
  compared with, and its meaning is what the driver's own static evaluation of the bounds
  has to agree with.

  Evaluation is three-valued.  \<open>None\<close> is a CEL runtime error, which selecting a missing
  key of a map raises; \<open>&&\<close> and \<open>||\<close> absorb an error on either side when the other side
  decides the result, as the CEL specification prescribes.  Attributes published without a
  domain belong to the domain of the publishing driver; the map of a domain nothing is
  published under is empty.
\<close>

datatype quantity_unit = Gi | Mi | One

datatype cel =
    HasAttr string string
  | HasCapacity string string
  | CapacityGe string string int quantity_unit
  | AttrGe string string int
  | AttrTrue string string
  | AttrEq string string string
  | AttrIn string string "string list"
  | DriverIs string
  | Neg cel
  | Conj cel cel
  | Disj "cel list"
  | Group cel
  | Fail

definition quoted :: "string \<Rightarrow> string" where
  "quoted s = [CHR 0x27] @ s @ [CHR 0x27]"

definition device_map :: "string \<Rightarrow> string \<Rightarrow> string" where
  "device_map what dm = ''device.'' @ what @ ''['' @ quoted dm @ '']''"

definition quoted_list :: "string list \<Rightarrow> string" where
  "quoted_list ps = ''['' @ join_with '', '' (map quoted ps) @ '']''"

fun unit_suffix :: "quantity_unit \<Rightarrow> string" where
  "unit_suffix Gi = ''Gi''"
| "unit_suffix Mi = ''Mi''"
| "unit_suffix One = []"

fun unit_size :: "quantity_unit \<Rightarrow> int" where
  "unit_size Gi = 2 ^ 30"
| "unit_size Mi = 2 ^ 20"
| "unit_size One = 1"

fun render :: "cel \<Rightarrow> string" where
  "render (HasAttr dm k) = quoted k @ '' in '' @ device_map ''attributes'' dm"
| "render (HasCapacity dm k) = quoted k @ '' in '' @ device_map ''capacity'' dm"
| "render (CapacityGe dm k n u) =
     device_map ''capacity'' dm @ ''.'' @ k @ ''.compareTo(quantity('' @
     quoted (show_int n @ unit_suffix u) @ '')) >= 0''"
| "render (AttrGe dm k i) = device_map ''attributes'' dm @ ''.'' @ k @ '' >= '' @ show_int i"
| "render (AttrTrue dm k) = device_map ''attributes'' dm @ ''.'' @ k"
| "render (AttrEq dm k v) = device_map ''attributes'' dm @ ''.'' @ k @ '' == '' @ quoted v"
| "render (AttrIn dm k vs) = device_map ''attributes'' dm @ ''.'' @ k @ '' in '' @ quoted_list vs"
| "render (DriverIs dm) = ''device.driver == '' @ quoted dm"
| "render (Neg e) = ''!('' @ render e @ '')''"
| "render (Conj a b) = render a @ '' && '' @ render b"
| "render (Disj es) = join_with '' || '' (map render es)"
| "render (Group e) = ''('' @ render e @ '')''"
| "render Fail = ''false''"

text \<open>A device as a selector sees it: the driver that publishes it and its entry.\<close>

definition cel_attr :: "string \<Rightarrow> device \<Rightarrow> string \<Rightarrow> string \<Rightarrow> attr option" where
  "cel_attr drv d dm k =
     (if dm = drv then Attributes d k else Attributes d (dm @ ''/'' @ k))"

definition cel_cap :: "string \<Rightarrow> device \<Rightarrow> string \<Rightarrow> string \<Rightarrow> int option" where
  "cel_cap drv d dm k =
     (if dm = drv then Capacity d k else Capacity d (dm @ ''/'' @ k))"

fun and3 :: "bool option \<Rightarrow> bool option \<Rightarrow> bool option" where
  "and3 (Some False) _ = Some False"
| "and3 _ (Some False) = Some False"
| "and3 (Some True) (Some True) = Some True"
| "and3 _ _ = None"

fun or3 :: "bool option \<Rightarrow> bool option \<Rightarrow> bool option" where
  "or3 (Some True) _ = Some True"
| "or3 _ (Some True) = Some True"
| "or3 (Some False) (Some False) = Some False"
| "or3 _ _ = None"

fun cel_eval :: "string \<Rightarrow> device \<Rightarrow> cel \<Rightarrow> bool option" where
  "cel_eval drv d (HasAttr dm k) = Some (cel_attr drv d dm k \<noteq> None)"
| "cel_eval drv d (HasCapacity dm k) = Some (cel_cap drv d dm k \<noteq> None)"
| "cel_eval drv d (CapacityGe dm k n u) =
     map_option (\<lambda>v. n * unit_size u \<le> v) (cel_cap drv d dm k)"
| "cel_eval drv d (AttrGe dm k i) =
     map_option (\<lambda>v. i \<le> v) (Option.bind (cel_attr drv d dm k) IntValue)"
| "cel_eval drv d (AttrTrue dm k) = Option.bind (cel_attr drv d dm k) BoolValue"
| "cel_eval drv d (AttrEq dm k v) =
     map_option (\<lambda>w. w = v) (Option.bind (cel_attr drv d dm k) StringValue)"
| "cel_eval drv d (AttrIn dm k vs) =
     map_option (\<lambda>w. w \<in> set vs) (Option.bind (cel_attr drv d dm k) StringValue)"
| "cel_eval drv d (DriverIs dm) = Some (drv = dm)"
| "cel_eval drv d (Neg e) = map_option Not (cel_eval drv d e)"
| "cel_eval drv d (Conj a b) = and3 (cel_eval drv d a) (cel_eval drv d b)"
| "cel_eval drv d (Disj es) = fold (\<lambda>e r. or3 r (cel_eval drv d e)) es (Some False)"
| "cel_eval drv d (Group e) = cel_eval drv d e"
| "cel_eval drv d Fail = Some False"

text \<open>A device is selected by an expression that evaluates, without an error, to true.\<close>

definition selects :: "string \<Rightarrow> cel \<Rightarrow> device \<Rightarrow> bool" where
  "selects drv e d \<longleftrightarrow> cel_eval drv d e = Some True"

section \<open>Facts about the three-valued connectives\<close>

lemma and3_True_iff [simp]: "and3 a b = Some True \<longleftrightarrow> a = Some True \<and> b = Some True"
  by (induction a b rule: and3.induct) auto

lemma and3_Some [simp]: "and3 (Some a) (Some b) = Some (a \<and> b)"
  by (cases a; cases b) auto

lemma and3_defined: "a \<noteq> None \<Longrightarrow> (a = Some True \<Longrightarrow> b \<noteq> None) \<Longrightarrow> and3 a b \<noteq> None"
  by (induction a b rule: and3.induct) auto

lemma or3_Some [simp]: "or3 (Some a) (Some b) = Some (a \<or> b)"
  by (cases a; cases b) auto

lemma or3_True_iff [simp]: "or3 a b = Some True \<longleftrightarrow> a = Some True \<or> b = Some True"
  by (induction a b rule: or3.induct) auto

lemma or3_defined: "a \<noteq> None \<Longrightarrow> b \<noteq> None \<Longrightarrow> or3 a b \<noteq> None"
  by (induction a b rule: or3.induct) auto

lemma disj_True_gen:
  "fold (\<lambda>e r. or3 r (cel_eval drv d e)) es r0 = Some True \<longleftrightarrow>
     r0 = Some True \<or> (\<exists>e \<in> set es. cel_eval drv d e = Some True)"
  by (induction es arbitrary: r0) auto

lemma disj_defined_gen:
  "r0 \<noteq> None \<Longrightarrow> \<forall>e \<in> set es. cel_eval drv d e \<noteq> None \<Longrightarrow>
     fold (\<lambda>e r. or3 r (cel_eval drv d e)) es r0 \<noteq> None"
  by (induction es arbitrary: r0) (auto intro: or3_defined)

lemma selects_Conj [cel_simps]: "selects drv (Conj a b) d \<longleftrightarrow> selects drv a d \<and> selects drv b d"
  by (simp add: selects_def)

lemma selects_Disj [cel_simps]: "selects drv (Disj es) d \<longleftrightarrow> (\<exists>e \<in> set es. selects drv e d)"
  by (simp add: selects_def disj_True_gen)

lemma selects_Group [cel_simps]: "selects drv (Group e) d \<longleftrightarrow> selects drv e d"
  by (simp add: selects_def)

lemma selects_Fail [cel_simps]: "selects drv Fail d \<longleftrightarrow> False"
  by (simp add: selects_def)

lemma Disj_defined:
  "\<forall>e \<in> set es. cel_eval drv d e \<noteq> None \<Longrightarrow> cel_eval drv d (Disj es) \<noteq> None"
  using disj_defined_gen [of "Some False"] by simp

lemma selects_atoms [cel_simps]:
  "selects drv (HasAttr drv k) d \<longleftrightarrow> Attributes d k \<noteq> None"
  "selects drv (HasCapacity drv k) d \<longleftrightarrow> Capacity d k \<noteq> None"
  "selects drv (CapacityGe drv k n u) d \<longleftrightarrow>
     (\<exists>v. Capacity d k = Some v \<and> n * unit_size u \<le> v)"
  "selects drv (AttrGe drv k i) d \<longleftrightarrow> (\<exists>v. int_of (Attributes d) k = Some v \<and> i \<le> v)"
  "selects drv (AttrTrue drv k) d \<longleftrightarrow> bool_of (Attributes d) k = Some True"
  "selects drv (AttrEq drv k v) d \<longleftrightarrow> str_of (Attributes d) k = Some v"
  "selects drv (AttrIn drv k vs) d \<longleftrightarrow>
     (\<exists>w. str_of (Attributes d) k = Some w \<and> w \<in> set vs)"
  "selects drv (DriverIs drv) d"
  "selects drv (Neg (HasAttr drv k)) d \<longleftrightarrow> Attributes d k = None"
  by (auto simp: selects_def cel_attr_def cel_cap_def int_of_def bool_of_def str_of_def)

end
