(* ===== verification/FitCel.thy ===== *)
theory FitCel
  imports ClaimApi Cel
begin

text \<open>
  The selector of the driver's own classes (\<open>FitCEL\<close> in \<open>internal/modelclaim/template.go\<close>),
  the shipped DeviceClass selectors (\<open>deploy/deviceclass.yaml\<close>), and what both mean: the
  text \<open>FitCEL\<close> writes is the rendering of \<open>fit_expr\<close>, whose meaning is an inequality
  over the published attributes and which never raises a CEL error on a published device.
\<close>

section \<open>The generated text\<close>

definition FitCEL :: "bounds \<Rightarrow> string \<Rightarrow> int \<Rightarrow> string" where
  "FitCEL b deviceClassName minComputeTFLOPS =
     (if deviceClassName = cpuClass then
        '''memory' in device.capacity['' @ quoted DriverDomain @ ''] && '' @
        ''device.capacity['' @ quoted DriverDomain @ ''].memory.compareTo(quantity('' @
          quoted (show_nat (MemoryGi b) @ ''Gi'') @ '')) >= 0 && '' @
        '''healthy' in device.attributes['' @ quoted DriverDomain @ ''] && '' @
        ''device.attributes['' @ quoted DriverDomain @ ''].healthy''
      else
        '''memory' in device.capacity['' @ quoted DriverDomain @ ''] && '' @
        ''device.capacity['' @ quoted DriverDomain @ ''].memory.compareTo(quantity('' @
          quoted (show_nat (MemoryGi b) @ ''Gi'') @ '')) >= 0 && '' @
        '''memoryBandwidthGBs' in device.attributes['' @ quoted DriverDomain @ ''] && '' @
        ''device.attributes['' @ quoted DriverDomain @ ''].memoryBandwidthGBs >= '' @
          show_nat (MinBandwidthGBs b) @ '' && '' @
        '''healthy' in device.attributes['' @ quoted DriverDomain @ ''] && '' @
        ''device.attributes['' @ quoted DriverDomain @ ''].healthy'') @
     (if minComputeTFLOPS > 0 then
        '' && '' @
        '''computeTFLOPS' in device.attributes['' @ quoted DriverDomain @ ''] && '' @
        ''device.attributes['' @ quoted DriverDomain @ ''].computeTFLOPS >= '' @
          show_int minComputeTFLOPS
      else [])"

section \<open>The specification of the selector\<close>

definition memory_guard :: "nat \<Rightarrow> cel" where
  "memory_guard gi =
     Conj (HasCapacity DriverDomain ''memory'') (CapacityGe DriverDomain ''memory'' (int gi) Gi)"

definition bandwidth_guard :: "nat \<Rightarrow> cel" where
  "bandwidth_guard bw =
     Conj (HasAttr DriverDomain ''memoryBandwidthGBs'')
       (AttrGe DriverDomain ''memoryBandwidthGBs'' (int bw))"

definition healthy_guard :: cel where
  "healthy_guard = Conj (HasAttr DriverDomain ''healthy'') (AttrTrue DriverDomain ''healthy'')"

definition compute_guard :: "int \<Rightarrow> cel" where
  "compute_guard m =
     Conj (HasAttr DriverDomain ''computeTFLOPS'') (AttrGe DriverDomain ''computeTFLOPS'' m)"

definition fit_expr :: "bounds \<Rightarrow> string \<Rightarrow> int \<Rightarrow> cel" where
  "fit_expr b cls m =
     (let base = (if cls = cpuClass then Conj (memory_guard (MemoryGi b)) healthy_guard
                  else Conj (memory_guard (MemoryGi b))
                         (Conj (bandwidth_guard (MinBandwidthGBs b)) healthy_guard))
      in if 0 < m then Conj base (compute_guard m) else base)"

text \<open>The selectors of the shipped classes; a class of another name selects by no rule here.\<close>

definition class_expr :: "string \<Rightarrow> cel" where
  "class_expr cls =
     (if cls = DriverDomain then
        Conj (DriverIs DriverDomain)
          (Conj (Neg (HasAttr DriverDomain ''vendorManaged'')) (AttrTrue DriverDomain ''healthy''))
      else if cls = gpuClass then
        Conj (DriverIs DriverDomain)
          (Conj (AttrEq DriverDomain ''kind'' ''gpu'')
            (Conj (Neg (HasAttr DriverDomain ''vendorManaged''))
              (AttrTrue DriverDomain ''healthy'')))
      else if cls = npuClass then
        Conj (DriverIs DriverDomain)
          (Conj (AttrEq DriverDomain ''kind'' ''npu'') (AttrTrue DriverDomain ''healthy''))
      else if cls = nicClass then
        Conj (DriverIs DriverDomain)
          (Conj (AttrEq DriverDomain ''kind'' ''nic'') (AttrTrue DriverDomain ''healthy''))
      else if cls = cpuClass then
        Conj (DriverIs DriverDomain) (AttrEq DriverDomain ''kind'' ''cpu'')
      else DriverIs DriverDomain)"

text \<open>
  The shape the publisher gives every entry: the kind is a string and the health a boolean
  that is always there, and the optional numbers and the demotion mark have their types.
\<close>

definition well_typed :: "device \<Rightarrow> bool" where
  "well_typed d \<longleftrightarrow>
     str_of (Attributes d) ''kind'' \<noteq> None \<and> bool_of (Attributes d) ''healthy'' \<noteq> None \<and>
     (Attributes d ''memoryBandwidthGBs'' \<noteq> None \<longrightarrow>
        int_of (Attributes d) ''memoryBandwidthGBs'' \<noteq> None) \<and>
     (Attributes d ''computeTFLOPS'' \<noteq> None \<longrightarrow>
        int_of (Attributes d) ''computeTFLOPS'' \<noteq> None) \<and>
     (Attributes d ''vendorManaged'' \<noteq> None \<longrightarrow>
        bool_of (Attributes d) ''vendorManaged'' = Some True)"

section \<open>What the selector means\<close>

lemma FitCEL_is_render: "FitCEL b cls m = render (fit_expr b cls m)"
  by (simp add: FitCEL_def fit_expr_def memory_guard_def bandwidth_guard_def healthy_guard_def
      compute_guard_def device_map_def quoted_def show_int_def)

text \<open>A membership-guarded test: false, not an error, where the key is missing.\<close>

lemma guarded_tests [cel_simps]:
  "selects drv (Conj (HasAttr drv k) (AttrGe drv k i)) d \<longleftrightarrow>
     (\<exists>v. int_of (Attributes d) k = Some v \<and> i \<le> v)"
  "selects drv (Conj (HasAttr drv k) (AttrTrue drv k)) d \<longleftrightarrow>
     bool_of (Attributes d) k = Some True"
  "selects drv (Conj (HasCapacity drv k) (CapacityGe drv k n u)) d \<longleftrightarrow>
     (\<exists>v. Capacity d k = Some v \<and> n * unit_size u \<le> v)"
  by (cases "Attributes d k"; force simp: cel_simps int_of_def bool_of_def)+

lemma selects_guards [cel_simps]:
  "selects DriverDomain (memory_guard gi) d \<longleftrightarrow>
     (\<exists>v. Capacity d ''memory'' = Some v \<and> int gi * 2 ^ 30 \<le> v)"
  "selects DriverDomain (bandwidth_guard bw) d \<longleftrightarrow>
     (\<exists>v. int_of (Attributes d) ''memoryBandwidthGBs'' = Some v \<and> int bw \<le> v)"
  "selects DriverDomain healthy_guard d \<longleftrightarrow> bool_of (Attributes d) ''healthy'' = Some True"
  "selects DriverDomain (compute_guard m) d \<longleftrightarrow>
     (\<exists>v. int_of (Attributes d) ''computeTFLOPS'' = Some v \<and> m \<le> v)"
  unfolding memory_guard_def bandwidth_guard_def healthy_guard_def compute_guard_def
  by (simp_all only: guarded_tests unit_size.simps)

lemma selects_fit_expr:
  "selects DriverDomain (fit_expr b cls m) d \<longleftrightarrow>
     (\<exists>v. Capacity d ''memory'' = Some v \<and> int (MemoryGi b) * 2 ^ 30 \<le> v) \<and>
     (cls \<noteq> cpuClass \<longrightarrow>
        (\<exists>v. int_of (Attributes d) ''memoryBandwidthGBs'' = Some v \<and>
             int (MinBandwidthGBs b) \<le> v)) \<and>
     (0 < m \<longrightarrow> (\<exists>v. int_of (Attributes d) ''computeTFLOPS'' = Some v \<and> m \<le> v)) \<and>
     bool_of (Attributes d) ''healthy'' = Some True"
  unfolding fit_expr_def Let_def
  by (simp only: selects_Conj selects_guards split: if_split) blast

lemma guard_defined:
  "(Attributes d k \<noteq> None \<Longrightarrow> int_of (Attributes d) k \<noteq> None) \<Longrightarrow>
     cel_eval drv d (Conj (HasAttr drv k) (AttrGe drv k i)) \<noteq> None"
  "(Attributes d k \<noteq> None \<Longrightarrow> bool_of (Attributes d) k \<noteq> None) \<Longrightarrow>
     cel_eval drv d (Conj (HasAttr drv k) (AttrTrue drv k)) \<noteq> None"
  "cel_eval drv d (Conj (HasCapacity drv k) (CapacityGe drv k n u)) \<noteq> None"
  by (cases "Attributes d k"; cases "Capacity d k";
      auto simp: cel_attr_def cel_cap_def int_of_def bool_of_def)+

lemma fit_expr_defined:
  assumes "well_typed d"
  shows "cel_eval DriverDomain d (fit_expr b cls m) \<noteq> None"
proof -
  have "cel_eval DriverDomain d (memory_guard gi) \<noteq> None" for gi
    unfolding memory_guard_def by (rule guard_defined)
  moreover have "cel_eval DriverDomain d (bandwidth_guard bw) \<noteq> None" for bw
    unfolding bandwidth_guard_def using assms by (intro guard_defined) (simp add: well_typed_def)
  moreover have "cel_eval DriverDomain d healthy_guard \<noteq> None"
    unfolding healthy_guard_def using assms by (intro guard_defined) (simp add: well_typed_def)
  moreover have "cel_eval DriverDomain d (compute_guard c) \<noteq> None" for c
    unfolding compute_guard_def using assms by (intro guard_defined) (simp add: well_typed_def)
  ultimately show ?thesis
    by (simp add: fit_expr_def Let_def and3_defined del: not_None_eq)
qed

end
