(* ===== verification/Satisfiable.thy ===== *)
theory Satisfiable
  imports Scan FitCel
begin

text \<open>
  The static evaluation of the resolved bounds against the driver's own ResourceSlices
  (\<open>internal/modelclaim/satisfiable.go\<close>), and its agreement with the selectors the
  scheduler evaluates.
\<close>

section \<open>The evaluation\<close>

definition kindForClass :: "string \<Rightarrow> string" where
  "kindForClass deviceClassName =
     (if deviceClassName = gpuClass then ''gpu''
      else if deviceClassName = cpuClass then ''cpu''
      else if deviceClassName = npuClass then ''npu''
      else [])"

definition mem_floor :: "bounds \<Rightarrow> int" where
  "mem_floor b = wrap64 (wrap64 (wrap64 (i64_of_u64 (MemoryGi b) * 1024) * 1024) * 1024)"

definition dev_mem :: "device \<Rightarrow> int" where
  "dev_mem d = (case Capacity d ''memory'' of Some v \<Rightarrow> v | None \<Rightarrow> 0)"

definition dev_bw :: "device \<Rightarrow> int" where
  "dev_bw d = (case int_of (Attributes d) ''memoryBandwidthGBs'' of Some v \<Rightarrow> v | None \<Rightarrow> 0)"

definition dev_compute :: "device \<Rightarrow> int" where
  "dev_compute d = (case int_of (Attributes d) ''computeTFLOPS'' of Some v \<Rightarrow> v | None \<Rightarrow> 0)"

definition memOK :: "bounds \<Rightarrow> device \<Rightarrow> bool" where
  "memOK b d = (case Capacity d ''memory'' of Some v \<Rightarrow> mem_floor b \<le> v | None \<Rightarrow> False)"

definition bwOK :: "bounds \<Rightarrow> string \<Rightarrow> device \<Rightarrow> bool" where
  "bwOK b cls d =
     (if cls = cpuClass then True
      else case int_of (Attributes d) ''memoryBandwidthGBs'' of
             Some bw \<Rightarrow> i64_of_u64 (MinBandwidthGBs b) \<le> bw | None \<Rightarrow> False)"

definition computeOK :: "int \<Rightarrow> device \<Rightarrow> bool" where
  "computeOK minComputeTFLOPS d \<longleftrightarrow>
     minComputeTFLOPS = 0 \<or> dev_compute d \<ge> minComputeTFLOPS"

definition healthyOK :: "device \<Rightarrow> bool" where
  "healthyOK d =
     (case bool_of (Attributes d) ''healthy'' of Some h \<Rightarrow> h | None \<Rightarrow> False)"

definition meets_bounds :: "bounds \<Rightarrow> string \<Rightarrow> int \<Rightarrow> device \<Rightarrow> bool" where
  "meets_bounds b cls m d \<longleftrightarrow> memOK b d \<and> bwOK b cls d \<and> computeOK m d \<and> healthyOK d"

definition wrong_kind :: "string \<Rightarrow> device \<Rightarrow> bool" where
  "wrong_kind cls d \<longleftrightarrow>
     kindForClass cls \<noteq> [] \<and> str_of (Attributes d) ''kind'' \<noteq> Some (kindForClass cls)"

definition vendor_excluded :: "string \<Rightarrow> device \<Rightarrow> bool" where
  "vendor_excluded cls d \<longleftrightarrow>
     (cls = DriverDomain \<or> cls = gpuClass) \<and> bool_of (Attributes d) ''vendorManaged'' = Some True"

text \<open>The score of a device that falls short, in float64, and what is said of it.\<close>

definition checks_met :: "bounds \<Rightarrow> string \<Rightarrow> int \<Rightarrow> device \<Rightarrow> nat" where
  "checks_met b cls m d =
     length (filter id [memOK b d, bwOK b cls d, computeOK m d, healthyOK d])"

definition ratio_term :: "int \<Rightarrow> nat \<Rightarrow> rat" where
  "ratio_term bw minBW =
     f64 (f64 (f64 (of_int bw) / f64 (of_nat minBW)) * f64 (1 / 10))"

definition miss_score :: "bounds \<Rightarrow> string \<Rightarrow> int \<Rightarrow> device \<Rightarrow> rat" where
  "miss_score b cls m d =
     (if MinBandwidthGBs b > 0 \<and> dev_bw d > 0
      then f64 (of_nat (checks_met b cls m d) + ratio_term (dev_bw d) (MinBandwidthGBs b))
      else of_nat (checks_met b cls m d))"

definition miss_reasons :: "bounds \<Rightarrow> string \<Rightarrow> int \<Rightarrow> device \<Rightarrow> string list" where
  "miss_reasons b cls m d =
     (if \<not> memOK b d
      then [''memory '' @ show_int (dev_mem d sdiv 2 ^ 30) @ ''Gi < '' @ show_nat (MemoryGi b) @ ''Gi'']
      else []) @
     (if \<not> bwOK b cls d
      then [if dev_bw d = 0 then ''no memoryBandwidthGBs published''
            else ''bandwidth '' @ show_int (dev_bw d) @ '' < '' @ show_nat (MinBandwidthGBs b) @ '' GB/s'']
      else []) @
     (if \<not> computeOK m d
      then [if dev_compute d = 0 then ''no computeTFLOPS published''
            else ''compute '' @ show_int (dev_compute d) @ '' < '' @ show_int m @ '' TFLOPS'']
      else []) @
     (if \<not> healthyOK d then [''unhealthy''] else [])"

definition miss_message :: "bounds \<Rightarrow> string \<Rightarrow> int \<Rightarrow> resource_slice \<times> device \<Rightarrow> string" where
  "miss_message b cls m p =
     ''closest device '' @ devName (snd p) @ '' (node '' @ node_of (fst p) @ ''): '' @
     join (sort_strings (miss_reasons b cls m (snd p)))"

record scan = tally +
  sExcluded :: nat
  sExclName :: string
  sExclNode :: string
  sExclModel :: string
  sExclMem :: int

definition note_excluded :: "resource_slice \<times> device \<Rightarrow> scan \<Rightarrow> scan" where
  "note_excluded p st =
     (let d = snd p; st1 = st\<lparr>sExcluded := sExcluded st + 1\<rparr>
      in if dev_mem d > sExclMem st
         then st1\<lparr>sExclName := devName d, sExclNode := node_of (fst p), sExclMem := dev_mem d,
                  sExclModel := (case str_of (Attributes d) ''model'' of Some s \<Rightarrow> s | None \<Rightarrow> [])\<rparr>
         else st1)"

definition eval_device ::
  "(string \<Rightarrow> string option) \<Rightarrow> bounds \<Rightarrow> string \<Rightarrow> int \<Rightarrow> resource_slice \<times> device \<Rightarrow> scan \<Rightarrow> scan" where
  "eval_device allocated b cls m p st =
     (if wrong_kind cls (snd p) then st
      else if vendor_excluded cls (snd p) then note_excluded p st
      else if memOK b (snd p) \<and> bwOK b cls (snd p) \<and> computeOK m (snd p) \<and> healthyOK (snd p)
      then count_device allocated p st
      else note_miss (miss_score b cls m (snd p)) (miss_message b cls m p) st)"

definition eval_slice ::
  "(string \<Rightarrow> int) \<Rightarrow> (string \<Rightarrow> string option) \<Rightarrow> bounds \<Rightarrow> string \<Rightarrow> int \<Rightarrow>
   resource_slice \<Rightarrow> scan \<Rightarrow> scan" where
  "eval_slice maxGen allocated b cls m sl st =
     (if Driver sl \<noteq> DriverDomain then st
      else if PoolGeneration sl < maxGen (PoolName sl) then st
      else fold (\<lambda>d. eval_device allocated b cls m (sl, d)) (Devices sl) st)"

definition scan_start :: scan where
  "scan_start =
     \<lparr>tNodes = {}, tDevices = 0, tAvailable = 0, tHeldBy = [], tBestMsg = [], tBestScore = -1,
      sExcluded = 0, sExclName = [], sExclNode = [], sExclModel = [], sExclMem = -1\<rparr>"

definition em_dash :: string where
  "em_dash = [CHR 0xE2, CHR 0x80, CHR 0x94]"

definition excluded_facts :: "scan \<Rightarrow> string list" where
  "excluded_facts st =
     (if sExclModel st \<noteq> [] then [sExclModel st] else []) @
     (if sExclMem st > 0 then [show_int (sExclMem st sdiv 2 ^ 30) @ ''Gi''] else [])"

definition excluded_desc :: "scan \<Rightarrow> string" where
  "excluded_desc st =
     sExclName st @
     (if excluded_facts st \<noteq> [] then '' ('' @ join (excluded_facts st) @ '')'' else []) @
     (if sExclNode st \<noteq> [] then '' on node '' @ sExclNode st else [])"

definition shortfall :: "scan \<Rightarrow> string" where
  "shortfall st =
     (let msg = (if tBestMsg st = [] then ''no llmfit.ai devices published'' else tBestMsg st)
      in if sExcluded st > 0
         then excluded_desc st @
              (if sExcluded st > 1 then '' and '' @ show_nat (sExcluded st - 1) @ '' more'' else []) @
              '' excluded: vendorManaged '' @ em_dash @
              '' this class only allocates devices llmfit-dra can prepare; install the vendor's DRA driver or opt in via a custom DeviceClass; '' @
              (if msg = ''no llmfit.ai devices published''
               then ''no other eligible devices published'' else msg)
         else msg)"

definition scan_result :: "scan \<Rightarrow> candidates" where
  "scan_result st =
     \<lparr>cDevices = tDevices st, cNodes = card (tNodes st), cAvailable = tAvailable st,
      cHeldBy = tHeldBy st, cShortfall = (if tDevices st = 0 then shortfall st else [])\<rparr>"

definition EvaluateSlices ::
  "resource_slice list \<Rightarrow> (string \<Rightarrow> string option) \<Rightarrow> bounds \<Rightarrow> string \<Rightarrow> int \<Rightarrow> candidates" where
  "EvaluateSlices slices allocated b deviceClassName minComputeTFLOPS =
     scan_result
       (fold (eval_slice (currentPoolGens slices DriverDomain) allocated b deviceClassName
                minComputeTFLOPS) slices scan_start)"

section \<open>The scan as a candidate scan\<close>

definition fits :: "bounds \<Rightarrow> string \<Rightarrow> int \<Rightarrow> resource_slice \<times> device \<Rightarrow> bool" where
  "fits b cls m p \<longleftrightarrow>
     \<not> wrong_kind cls (snd p) \<and> \<not> vendor_excluded cls (snd p) \<and> meets_bounds b cls m (snd p)"

definition miss_of :: "bounds \<Rightarrow> string \<Rightarrow> int \<Rightarrow> resource_slice \<times> device \<Rightarrow> (rat \<times> string) option" where
  "miss_of b cls m p =
     (if wrong_kind cls (snd p) \<or> vendor_excluded cls (snd p) then None
      else Some (miss_score b cls m (snd p), miss_message b cls m p))"

lemma miss_score_nonneg: "0 \<le> miss_score b cls m d"
  by (simp add: miss_score_def ratio_term_def f64_nonneg)

interpretation own: candidate_scan "eval_device allocated b cls m" "fits b cls m"
  "miss_of b cls m" allocated for allocated b cls m
  by unfold_locales
    (auto simp: fits_def meets_bounds_def eval_device_def miss_of_def note_excluded_def
      note_miss_def miss_score_nonneg Let_def split: if_splits)

lemma EvaluateSlices_scan [scan_simps]:
  "EvaluateSlices slices allocated b cls m =
     scan_result (fold (eval_device allocated b cls m) (current_devices slices DriverDomain)
       scan_start)"
proof -
  let ?g = "currentPoolGens slices DriverDomain"
  have "eval_slice ?g allocated b cls m = (\<lambda>sl st.
      if current_slice slices DriverDomain sl
      then fold (\<lambda>d. eval_device allocated b cls m (sl, d)) (Devices sl) st else st)"
    by (auto simp: eval_slice_def current_slice_def fun_eq_iff)
  then show ?thesis
    by (simp add: EvaluateSlices_def fold_skip fold_nested current_devices_def)
qed

section \<open>What the evaluation returns\<close>

lemma EvaluateSlices_counts [scan_simps]:
  fixes slices
  defines "ps \<equiv> current_devices slices DriverDomain"
  shows "cDevices (EvaluateSlices slices allocated b cls m) = length (filter (fits b cls m) ps)"
    and "cAvailable (EvaluateSlices slices allocated b cls m) =
           length (filter (\<lambda>p. fits b cls m p \<and> \<not> is_held allocated p) ps)"
    and "cNodes (EvaluateSlices slices allocated b cls m) =
           card {n. n \<noteq> [] \<and> (\<exists>p \<in> set ps. fits b cls m p \<and> node_of (fst p) = n)}"
  by (simp_all add: ps_def EvaluateSlices_scan scan_result_def own.fold_devices
      own.fold_available own.fold_nodes scan_start_def)

lemma mem_floor_exact: "MemoryGi b < 2 ^ 33 \<Longrightarrow> mem_floor b = int (MemoryGi b) * 2 ^ 30"
  by (simp add: mem_floor_def i64_of_u64_small wrap64_small)

definition scheduler_admits :: "bounds \<Rightarrow> string \<Rightarrow> int \<Rightarrow> resource_slice \<times> device \<Rightarrow> bool" where
  "scheduler_admits b cls m p \<longleftrightarrow>
     selects DriverDomain (class_expr cls) (snd p) \<and> selects DriverDomain (fit_expr b cls m) (snd p)"

definition shipped_compute_classes :: "string list" where
  "shipped_compute_classes = [DriverDomain, gpuClass, npuClass, cpuClass]"

lemma meets_bounds_iff_fit:
  assumes "MemoryGi b < 2 ^ 33" and "MinBandwidthGBs b < 2 ^ 63" and "0 \<le> m"
  shows "meets_bounds b cls m d \<longleftrightarrow> selects DriverDomain (fit_expr b cls m) d"
proof -
  have "computeOK m d \<longleftrightarrow>
      (0 < m \<longrightarrow> (\<exists>v. int_of (Attributes d) ''computeTFLOPS'' = Some v \<and> m \<le> v))"
    using assms(3) by (auto simp: computeOK_def dev_compute_def split: option.splits)
  moreover have "memOK b d \<longleftrightarrow>
      (\<exists>v. Capacity d ''memory'' = Some v \<and> int (MemoryGi b) * 2 ^ 30 \<le> v)"
    by (auto simp: memOK_def mem_floor_exact [OF assms(1)] split: option.splits)
  moreover have "bwOK b cls d \<longleftrightarrow> (cls \<noteq> cpuClass \<longrightarrow>
      (\<exists>v. int_of (Attributes d) ''memoryBandwidthGBs'' = Some v \<and> int (MinBandwidthGBs b) \<le> v))"
    by (auto simp: bwOK_def i64_of_u64_small [OF assms(2)] split: option.splits)
  moreover have "healthyOK d \<longleftrightarrow> bool_of (Attributes d) ''healthy'' = Some True"
    by (auto simp: healthyOK_def split: option.splits)
  ultimately show ?thesis unfolding meets_bounds_def selects_fit_expr by blast
qed

lemma class_admits:
  assumes "well_typed d" and "cls \<in> set shipped_compute_classes"
  shows "selects DriverDomain (class_expr cls) d \<and> healthyOK d \<longleftrightarrow>
     \<not> wrong_kind cls d \<and> \<not> vendor_excluded cls d \<and> healthyOK d"
proof -
  have vm: "Attributes d ''vendorManaged'' = None \<longleftrightarrow>
      bool_of (Attributes d) ''vendorManaged'' \<noteq> Some True"
    using assms(1) by (auto simp: well_typed_def bool_of_def)
  have h: "healthyOK d \<longleftrightarrow> bool_of (Attributes d) ''healthy'' = Some True"
    by (auto simp: healthyOK_def split: option.splits)
  show ?thesis
    using assms(2) vm h
    by (auto simp: shipped_compute_classes_def class_expr_def cel_simps wrong_kind_def
        kindForClass_def vendor_excluded_def)
qed

lemma fits_iff_scheduler_admits:
  assumes "well_typed (snd p)" and "cls \<in> set shipped_compute_classes"
    and "MemoryGi b < 2 ^ 33" and "MinBandwidthGBs b < 2 ^ 63" and "0 \<le> m"
  shows "fits b cls m p \<longleftrightarrow> scheduler_admits b cls m p"
  using class_admits [OF assms(1,2)] meets_bounds_iff_fit [OF assms(3-5), of cls "snd p"]
  by (auto simp: fits_def scheduler_admits_def meets_bounds_def)

section \<open>Sample inventory\<close>

text \<open>A node with one 96 GiB GPU, its CPU, and a demoted NVIDIA card, for the witnesses.\<close>

definition sample_gpu :: device where
  "sample_gpu =
     \<lparr>devName = ''gpu-0000-c3-00-0'',
      Attributes = map_of [(''kind'', string_attr ''gpu''), (''healthy'', bool_attr True),
        (''memoryBandwidthGBs'', int_attr 256), (''computeTFLOPS'', int_attr 59)],
      Capacity = [''memory'' \<mapsto> 103079215104], Taints = []\<rparr>"

definition sample_cpu :: device where
  "sample_cpu =
     \<lparr>devName = ''cpu0'',
      Attributes = map_of [(''kind'', string_attr ''cpu''), (''healthy'', bool_attr True)],
      Capacity = [''memory'' \<mapsto> 68719476736], Taints = []\<rparr>"

definition sample_demoted :: device where
  "sample_demoted =
     \<lparr>devName = ''gpu-0000-01-00-0'',
      Attributes = map_of [(''kind'', string_attr ''gpu''), (''healthy'', bool_attr True),
        (''memoryBandwidthGBs'', int_attr 1008), (''vendorManaged'', bool_attr True)],
      Capacity = [''memory'' \<mapsto> 25769803776], Taints = []\<rparr>"

definition sample_slice :: resource_slice where
  "sample_slice =
     \<lparr>Driver = DriverDomain, PoolName = ''strix'', PoolGeneration = 3, NodeName = Some ''strix'',
      Devices = [sample_gpu, sample_cpu, sample_demoted]\<rparr>"

definition sample_stale :: resource_slice where
  "sample_stale = sample_slice\<lparr>PoolGeneration := 2\<rparr>"

definition sample_bounds :: bounds where
  "sample_bounds =
     \<lparr>bModel = ''Qwen/Qwen3-30B-A3B'', ClaimName = ''qwen3'', bQuant = ''Q4_K_M'',
      WeightsGb = 88 / 5, MemoryGi = 18, MinBandwidthGBs = 160, bMinTps = 20,
      bEfficiencyPct = 55, ResolverVersion = ''1.1.3''\<rparr>"

lemma sample_current:
  "current_devices [sample_slice] DriverDomain =
     [(sample_slice, sample_gpu), (sample_slice, sample_cpu), (sample_slice, sample_demoted)]"
  by (simp add: current_devices_def current_slice_def currentPoolGens_def sample_slice_def)

lemma sample_typed: "well_typed sample_gpu" "well_typed sample_cpu" "well_typed sample_demoted"
  by (simp_all add: well_typed_def sample_gpu_def sample_cpu_def sample_demoted_def
      str_of_def bool_of_def int_of_def)

lemma sample_fits:
  "fits sample_bounds gpuClass 0 (sl, sample_gpu)"
  "\<not> fits sample_bounds gpuClass 0 (sl, sample_cpu)"
  "\<not> fits sample_bounds gpuClass 0 (sl, sample_demoted)"
  by (simp_all add: fits_def meets_bounds_def wrong_kind_def kindForClass_def vendor_excluded_def
      memOK_def bwOK_def computeOK_def healthyOK_def mem_floor_exact i64_of_u64_small
      sample_bounds_def sample_gpu_def sample_cpu_def sample_demoted_def
      str_of_def bool_of_def int_of_def)

section \<open>Properties\<close>

text \<open>
  C2: the static evaluation agrees with the scheduler.  For the shipped compute classes
  and bounds whose byte and bandwidth floors are representable, the reported number of
  devices is the number of entries of current slices that the class's selector and the
  generated fit selector both select, and the reported numbers of available devices and of
  nodes are those of the selected entries.
\<close>

theorem evaluation_matches_selectors:
  assumes typed: "\<forall>p \<in> set (current_devices slices DriverDomain). well_typed (snd p)"
    and cls: "cls \<in> set shipped_compute_classes"
    and small: "MemoryGi b < 2 ^ 33" "MinBandwidthGBs b < 2 ^ 63" and m: "0 \<le> m"
  shows "cDevices (EvaluateSlices slices allocated b cls m) =
           length (filter (scheduler_admits b cls m) (current_devices slices DriverDomain)) \<and>
         cAvailable (EvaluateSlices slices allocated b cls m) =
           length (filter (\<lambda>p. scheduler_admits b cls m p \<and> \<not> is_held allocated p)
             (current_devices slices DriverDomain)) \<and>
         cNodes (EvaluateSlices slices allocated b cls m) =
           card {n. n \<noteq> [] \<and> (\<exists>p \<in> set (current_devices slices DriverDomain).
                    scheduler_admits b cls m p \<and> node_of (fst p) = n)}"
proof -
  have eq: "fits b cls m p \<longleftrightarrow> scheduler_admits b cls m p"
    if "p \<in> set (current_devices slices DriverDomain)" for p
    using that typed by (intro fits_iff_scheduler_admits cls small m) blast
  then show ?thesis
    unfolding EvaluateSlices_counts
    by (intro conjI arg_cong [where f = length] arg_cong [where f = card] filter_cong) auto
qed

theorem evaluation_matches_selectors_witness:
  "cDevices (EvaluateSlices [sample_slice] (\<lambda>_. None) sample_bounds gpuClass 0) =
     length (filter (scheduler_admits sample_bounds gpuClass 0)
       (current_devices [sample_slice] DriverDomain)) \<and>
   cDevices (EvaluateSlices [sample_slice] (\<lambda>_. None) sample_bounds gpuClass 0) = 1"
proof -
  have "cDevices (EvaluateSlices [sample_slice] (\<lambda>_. None) sample_bounds gpuClass 0) =
     length (filter (scheduler_admits sample_bounds gpuClass 0)
       (current_devices [sample_slice] DriverDomain))"
    by (rule evaluation_matches_selectors [THEN conjunct1])
      (simp_all add: sample_current sample_typed shipped_compute_classes_def sample_bounds_def)
  moreover have "cDevices (EvaluateSlices [sample_slice] (\<lambda>_. None) sample_bounds gpuClass 0) = 1"
    by (simp add: EvaluateSlices_counts sample_current sample_fits)
  ultimately show ?thesis by blast
qed

text \<open>
  A slice of another driver, or of a pool generation that a newer slice has superseded,
  changes nothing in the evaluation, whatever the order in which the informer lists them.
\<close>

theorem superseded_slice_ignored:
  assumes "Driver s \<noteq> DriverDomain \<or>
           PoolGeneration s < currentPoolGens (xs @ ys) DriverDomain (PoolName s)"
  shows "EvaluateSlices (xs @ s # ys) allocated b cls m = EvaluateSlices (xs @ ys) allocated b cls m"
  using assms by (simp only: EvaluateSlices_scan current_devices_insert)

theorem superseded_slice_ignored_witness:
  "PoolGeneration sample_stale < currentPoolGens ([sample_slice] @ []) DriverDomain (PoolName sample_stale) \<and>
   EvaluateSlices ([sample_slice] @ sample_stale # []) (\<lambda>_. None) sample_bounds gpuClass 0 =
   EvaluateSlices ([sample_slice] @ []) (\<lambda>_. None) sample_bounds gpuClass 0"
proof -
  have stale: "PoolGeneration sample_stale <
      currentPoolGens ([sample_slice] @ []) DriverDomain (PoolName sample_stale)"
    by (simp add: currentPoolGens_def sample_stale_def sample_slice_def)
  then show ?thesis using superseded_slice_ignored by blast
qed

text \<open>
  The counts do not depend on the order in which the informer lists the slices.
\<close>

theorem counts_order_independent:
  assumes "mset slices = mset slices'"
  shows "cDevices (EvaluateSlices slices allocated b cls m) =
           cDevices (EvaluateSlices slices' allocated b cls m) \<and>
         cAvailable (EvaluateSlices slices allocated b cls m) =
           cAvailable (EvaluateSlices slices' allocated b cls m) \<and>
         cNodes (EvaluateSlices slices allocated b cls m) =
           cNodes (EvaluateSlices slices' allocated b cls m)"
proof -
  note same = current_devices_mset [OF assms, of DriverDomain]
  have "length (filter P (current_devices slices DriverDomain)) =
      length (filter P (current_devices slices' DriverDomain))" for P
    using same by (metis mset_filter size_mset)
  with mset_eq_setD [OF same] show ?thesis unfolding EvaluateSlices_counts by simp
qed

theorem counts_order_independent_witness:
  "cDevices (EvaluateSlices [sample_slice, sample_stale] (\<lambda>_. None) sample_bounds gpuClass 0) =
   cDevices (EvaluateSlices [sample_stale, sample_slice] (\<lambda>_. None) sample_bounds gpuClass 0)"
  by (rule counts_order_independent [THEN conjunct1]) simp

text \<open>
  A verdict always comes with its explanation.  The number of available devices never
  exceeds the number of matching ones, and the shortfall message is empty exactly when some
  device matches.
\<close>

theorem shortfall_explains_verdict:
  "cAvailable (EvaluateSlices slices allocated b cls m) \<le>
     cDevices (EvaluateSlices slices allocated b cls m) \<and>
   (cShortfall (EvaluateSlices slices allocated b cls m) = [] \<longleftrightarrow>
     cDevices (EvaluateSlices slices allocated b cls m) \<noteq> 0)"
proof
  let ?ps = "current_devices slices DriverDomain"
  have "length (filter (\<lambda>p. fits b cls m p \<and> \<not> is_held allocated p) ?ps) \<le>
      length (filter (fits b cls m) ?ps)"
    using length_filter_le [of "\<lambda>p. \<not> is_held allocated p" "filter (fits b cls m) ?ps"]
    by simp
  then show "cAvailable (EvaluateSlices slices allocated b cls m) \<le>
      cDevices (EvaluateSlices slices allocated b cls m)"
    by (simp add: EvaluateSlices_counts)
  show "cShortfall (EvaluateSlices slices allocated b cls m) = [] \<longleftrightarrow>
      cDevices (EvaluateSlices slices allocated b cls m) \<noteq> 0"
    by (simp add: EvaluateSlices_scan scan_result_def shortfall_def Let_def)
qed

text \<open>
  When nothing matches but some device of the class's kind was considered, the
  shortfall ends with the message of a considered device that no other considered device
  beats in score.
\<close>

theorem nearest_miss_reported:
  assumes none: "cDevices (EvaluateSlices slices allocated b cls m) = 0"
    and considered: "\<exists>p \<in> set (current_devices slices DriverDomain).
          \<not> wrong_kind cls (snd p) \<and> \<not> vendor_excluded cls (snd p)"
  shows "\<exists>p \<in> set (current_devices slices DriverDomain).
          \<not> wrong_kind cls (snd p) \<and> \<not> vendor_excluded cls (snd p) \<and>
          (\<exists>pre. cShortfall (EvaluateSlices slices allocated b cls m) =
                 pre @ miss_message b cls m p) \<and>
          (\<forall>q \<in> set (current_devices slices DriverDomain).
             \<not> wrong_kind cls (snd q) \<and> \<not> vendor_excluded cls (snd q) \<longrightarrow>
             miss_score b cls m (snd q) \<le> miss_score b cls m (snd p))"
proof -
  let ?ps = "current_devices slices DriverDomain"
  let ?st = "fold (eval_device allocated b cls m) ?ps scan_start"
  have nofit: "\<forall>p \<in> set ?ps. \<not> fits b cls m p"
    using none by (simp add: EvaluateSlices_counts filter_empty_conv)
  have start: "tBestScore scan_start = -1" by (simp add: scan_start_def)
  have "\<exists>p \<in> set ?ps. \<not> fits b cls m p \<and> miss_of b cls m p \<noteq> None"
    using considered nofit by (auto simp: miss_of_def)
  from own.nearest_miss_from_start [OF start this, where allocated = allocated]
  obtain p sc where p: "p \<in> set ?ps" "miss_of b cls m p = Some (sc, tBestMsg ?st)"
    and best: "\<forall>q \<in> set ?ps. \<forall>sc' msg. \<not> fits b cls m q \<and> miss_of b cls m q = Some (sc', msg) \<longrightarrow> sc' \<le> sc"
    by blast
  have msg: "tBestMsg ?st = miss_message b cls m p" and sc: "sc = miss_score b cls m (snd p)"
    and ok: "\<not> wrong_kind cls (snd p)" "\<not> vendor_excluded cls (snd p)"
    using p(2) by (auto simp: miss_of_def split: if_splits)
  have "\<exists>pre. shortfall ?st = pre @ miss_message b cls m p"
    by (auto simp: shortfall_def Let_def msg miss_message_def)
  moreover have "cShortfall (EvaluateSlices slices allocated b cls m) = shortfall ?st"
    using none by (simp add: EvaluateSlices_scan scan_result_def)
  moreover have "miss_score b cls m (snd q) \<le> miss_score b cls m (snd p)"
    if "q \<in> set ?ps" "\<not> wrong_kind cls (snd q)" "\<not> vendor_excluded cls (snd q)" for q
    using best that nofit sc by (auto simp: miss_of_def)
  ultimately show ?thesis using p(1) ok by auto
qed

definition big_bounds :: bounds where
  "big_bounds = sample_bounds\<lparr>MinBandwidthGBs := 644\<rparr>"

lemma big_misses: "\<not> fits big_bounds gpuClass 0 (sl, sample_gpu)"
  by (simp add: fits_def meets_bounds_def bwOK_def i64_of_u64_small big_bounds_def
      sample_bounds_def sample_gpu_def int_of_def)

theorem nearest_miss_reported_witness:
  "\<exists>pre. cShortfall (EvaluateSlices [sample_slice] (\<lambda>_. None) big_bounds gpuClass 0) =
     pre @ ''closest device gpu-0000-c3-00-0 (node strix): bandwidth 256 < 644 GB/s''"
proof -
  let ?E = "EvaluateSlices [sample_slice] (\<lambda>_. None) big_bounds gpuClass 0"
  have others: "wrong_kind gpuClass sample_cpu" "vendor_excluded gpuClass sample_demoted"
      "\<not> wrong_kind gpuClass sample_gpu" "\<not> vendor_excluded gpuClass sample_gpu"
    by (simp_all add: wrong_kind_def vendor_excluded_def kindForClass_def sample_cpu_def
        sample_demoted_def sample_gpu_def str_of_def bool_of_def)
  then have none: "cDevices ?E = 0"
    by (simp add: EvaluateSlices_counts sample_current big_misses fits_def [of _ _ _ "(sample_slice, sample_cpu)"]
        fits_def [of _ _ _ "(sample_slice, sample_demoted)"])
  have msg: "miss_message big_bounds gpuClass 0 (sample_slice, sample_gpu) =
      ''closest device gpu-0000-c3-00-0 (node strix): bandwidth 256 < 644 GB/s''"
    by (simp add: miss_message_def miss_reasons_def memOK_def bwOK_def computeOK_def healthyOK_def
        mem_floor_exact i64_of_u64_small big_bounds_def sample_bounds_def sample_gpu_def
        sample_slice_def node_of_def int_of_def bool_of_def dev_bw_def sort_strings_def
        show_int_def show_nat.simps join_def)
  from nearest_miss_reported [OF none] others msg show ?thesis
    by (auto simp: sample_current)
qed

text \<open>
  A class of the driver that the evaluation does not know.  For \<open>nic.llmfit.ai\<close> the
  evaluation pins no kind, so it counts any device that meets the bounds, while the class's
  selector takes network devices only: the verdict is then wrong for every such device.
\<close>

theorem nic_class_counts_other_kinds:
  assumes kind: "str_of (Attributes d) ''kind'' \<noteq> Some ''nic''"
    and meets: "meets_bounds b nicClass m d"
    and only: "current_devices slices DriverDomain = [(sl, d)]"
  shows "cDevices (EvaluateSlices slices allocated b nicClass m) = 1 \<and>
         \<not> selects DriverDomain (class_expr nicClass) d"
  using assms
  by (simp add: EvaluateSlices_counts fits_def wrong_kind_def kindForClass_def vendor_excluded_def
      class_expr_def cel_simps)

theorem nic_class_counts_other_kinds_witness:
  "cDevices (EvaluateSlices [sample_slice\<lparr>Devices := [sample_gpu]\<rparr>] (\<lambda>_. None) sample_bounds nicClass 0) = 1 \<and>
   \<not> selects DriverDomain (class_expr nicClass) sample_gpu"
proof (rule nic_class_counts_other_kinds)
  show "str_of (Attributes sample_gpu) ''kind'' \<noteq> Some ''nic''"
    by (simp add: sample_gpu_def str_of_def)
  show "meets_bounds sample_bounds nicClass 0 sample_gpu"
    by (simp add: meets_bounds_def memOK_def bwOK_def computeOK_def healthyOK_def mem_floor_exact
        i64_of_u64_small sample_bounds_def sample_gpu_def int_of_def bool_of_def)
  show "current_devices [sample_slice\<lparr>Devices := [sample_gpu]\<rparr>] DriverDomain =
      [(sample_slice\<lparr>Devices := [sample_gpu]\<rparr>, sample_gpu)]"
    by (simp add: current_devices_def current_slice_def currentPoolGens_def sample_slice_def)
qed

text \<open>
  A bandwidth floor above the int64 range (which a large enough throughput target
  resolves to) turns negative in the evaluation: every device that publishes a bandwidth
  passes the test, although no publishable bandwidth meets the floor of the selector.
\<close>

theorem huge_bandwidth_floor_wraps:
  assumes huge: "2 ^ 63 \<le> MinBandwidthGBs b" "MinBandwidthGBs b < 2 ^ 64"
    and bw: "int_of (Attributes d) ''memoryBandwidthGBs'' = Some v" "0 \<le> v" "in_i64 v"
  shows "bwOK b cls d \<and> \<not> selects DriverDomain (bandwidth_guard (MinBandwidthGBs b)) d"
proof -
  have "i64_of_u64 (MinBandwidthGBs b) = int (MinBandwidthGBs b) - 2 ^ 64"
    using huge by (rule i64_of_u64_large)
  moreover have "int (MinBandwidthGBs b) < 2 ^ 64" using huge(2) by simp
  ultimately have "i64_of_u64 (MinBandwidthGBs b) < 0" by simp
  with bw have "bwOK b cls d" by (simp add: bwOK_def)
  moreover have "v < int (MinBandwidthGBs b)" using bw(3) huge(1) by (simp add: in_i64_def)
  ultimately show ?thesis using bw by (simp add: cel_simps)
qed

theorem huge_bandwidth_floor_wraps_witness:
  "bwOK (sample_bounds\<lparr>MinBandwidthGBs := 2 ^ 64 - 1\<rparr>) gpuClass sample_gpu \<and>
   \<not> selects DriverDomain (bandwidth_guard (2 ^ 64 - 1)) sample_gpu"
  using huge_bandwidth_floor_wraps [of "sample_bounds\<lparr>MinBandwidthGBs := 2 ^ 64 - 1\<rparr>" sample_gpu 256 gpuClass]
  by (simp add: sample_bounds_def sample_gpu_def int_of_def in_i64_def)

end
