(* ===== verification/Boards.thy ===== *)
theory Boards
  imports Kube
begin

text \<open>
  The embedded capability data: the PCI-ID index (\<open>internal/index/index.go\<close>) and the NVIDIA
  board table (\<open>internal/index/nvidia.go\<close>).  A Go map decoded from JSON is an association
  list with distinct keys; decoding the JSON (theory Tables) and hashing its bytes are
  arguments.
\<close>

section \<open>The PCI-ID index\<close>

record entry =
  eModel :: string
  eMemoryBandwidthGBs :: int
  eComputeTFLOPS :: int
  eUnifiedMemory :: bool

type_synonym index = "(string \<times> entry) list"

definition Load :: "(string \<Rightarrow> index result) \<Rightarrow> string \<Rightarrow> index result" where
  "Load decode raw =
     (case decode raw of Inl err \<Rightarrow> Inl (''parsing embedded index: '' @ err) | Inr es \<Rightarrow> Inr es)"

definition Lookup :: "index \<Rightarrow> string \<Rightarrow> string \<Rightarrow> entry option" where
  "Lookup idx pciVendor pciDevice = map_of idx (pciVendor @ '':'' @ pciDevice)"

definition Len :: "index \<Rightarrow> nat" where
  "Len idx = length idx"

section \<open>The NVIDIA board table\<close>

record nvidia_board =
  ProductName :: string
  MemoryMiB :: int
  MemoryBandwidthGBs :: int
  ComputeTFLOPS :: int
  SMCount :: int
  MemorySlices :: int

record nvidia_boards =
  boards :: "(string \<times> nvidia_board) list"
  version :: string

definition LoadNvidiaBoards ::
  "(string \<Rightarrow> (string \<times> nvidia_board) list result) \<Rightarrow> (string \<Rightarrow> string) \<Rightarrow> string \<Rightarrow> nvidia_boards result" where
  "LoadNvidiaBoards decode hash raw =
     (case decode raw of
        Inl err \<Rightarrow> Inl (''parsing embedded nvidia board table: '' @ err)
      | Inr bs \<Rightarrow> Inr \<lparr>boards = map (\<lambda>(name, b). (name, b\<lparr>ProductName := name\<rparr>)) bs,
                       version = hash raw\<rparr>)"

definition ByProductName :: "nvidia_boards \<Rightarrow> string \<Rightarrow> nvidia_board option" where
  "ByProductName n name = map_of (boards n) name"

definition All_boards :: "nvidia_boards \<Rightarrow> nvidia_board list" where
  "All_boards n = sort_key ProductName (map snd (boards n))"

definition Len_boards :: "nvidia_boards \<Rightarrow> nat" where
  "Len_boards n = length (boards n)"

text \<open>The table's invariant: distinct keys, and each board carries its key as its name.\<close>

definition boards_ok :: "nvidia_boards \<Rightarrow> bool" where
  "boards_ok n \<longleftrightarrow> distinct (map fst (boards n)) \<and> (\<forall>(k, b) \<in> set (boards n). ProductName b = k)"

lemma LoadNvidiaBoards_ok:
  assumes "LoadNvidiaBoards decode hash raw = Inr n" "decode raw = Inr bs" "distinct (map fst bs)"
  shows "boards_ok n"
proof -
  have n: "boards n = map (\<lambda>(name, b). (name, b\<lparr>ProductName := name\<rparr>)) bs"
    using assms(1, 2) by (auto simp: LoadNvidiaBoards_def)
  have "map fst (boards n) = map fst bs" by (simp add: n case_prod_unfold comp_def)
  moreover have "\<forall>(k, b) \<in> set (boards n). ProductName b = k" by (auto simp: n)
  ultimately show ?thesis using assms(3) by (simp add: boards_ok_def)
qed

lemma set_All_boards: "set (All_boards n) = snd ` set (boards n)"
  by (simp add: All_boards_def)

lemma ByProductName_iff:
  assumes "boards_ok n"
  shows "ByProductName n p = Some b \<longleftrightarrow> b \<in> set (All_boards n) \<and> ProductName b = p"
  using assms
  by (force simp: boards_ok_def ByProductName_def set_All_boards map_of_eq_Some_iff)

lemma All_boards_names:
  assumes "boards_ok n"
  shows "map ProductName (map snd (boards n)) = map fst (boards n)"
  using assms by (auto simp: boards_ok_def)

lemma All_boards_cong:
  assumes ok: "boards_ok n" and perm: "mset (boards n) = mset (boards n')"
  shows "All_boards n = All_boards n'"
proof -
  have "mset (map snd (boards n)) = mset (map snd (boards n'))" using perm by (metis mset_map)
  moreover have "inj_on ProductName (set (map snd (boards n)))"
  proof (rule inj_onI)
    fix x y assume xy: "x \<in> set (map snd (boards n))" "y \<in> set (map snd (boards n))"
      "ProductName x = ProductName y"
    then obtain kx ky where k: "(kx, x) \<in> set (boards n)" "(ky, y) \<in> set (boards n)" by auto
    have "ProductName x = kx" "ProductName y = ky" using ok k by (auto simp: boards_ok_def)
    with xy(3) have "kx = ky" by simp
    with k ok show "x = y" by (metis boards_ok_def eq_key_imp_eq_value)
  qed
  ultimately show ?thesis
    unfolding All_boards_def by (metis properties_for_sort_key sort_key_inj_key_eq mset_sort sorted_sort_key)
qed

section \<open>The shipped table\<close>

definition board_entry :: "string \<Rightarrow> int \<Rightarrow> int \<Rightarrow> int \<Rightarrow> int \<Rightarrow> int \<Rightarrow> string \<times> nvidia_board" where
  "board_entry name mem bw tflops sms slices =
     (name, \<lparr>ProductName = name, MemoryMiB = mem, MemoryBandwidthGBs = bw,
             ComputeTFLOPS = tflops, SMCount = sms, MemorySlices = slices\<rparr>)"

definition shipped_boards :: nvidia_boards where
  "shipped_boards =
     \<lparr>boards =
        [board_entry ''NVIDIA A100-SXM4-40GB'' 40960 1555 312 108 8,
         board_entry ''NVIDIA A100-SXM4-80GB'' 81920 2039 312 108 8,
         board_entry ''NVIDIA A100-PCIE-40GB'' 40960 1555 312 108 8,
         board_entry ''NVIDIA A100 80GB PCIe'' 81920 1935 312 108 8,
         board_entry ''NVIDIA A100-PCIE-80GB'' 81920 1935 312 108 8,
         board_entry ''NVIDIA A30'' 24576 933 165 56 4,
         board_entry ''NVIDIA H100 80GB HBM3'' 81920 3350 989 132 8,
         board_entry ''NVIDIA H100 PCIe'' 81920 2000 756 114 8,
         board_entry ''NVIDIA H100 NVL'' 96256 3900 835 132 8,
         board_entry ''NVIDIA H200'' 144384 4800 989 132 8,
         board_entry ''NVIDIA A10'' 24576 600 125 72 0,
         board_entry ''NVIDIA L4'' 24576 300 121 58 0,
         board_entry ''NVIDIA L40S'' 49152 864 366 142 0,
         board_entry ''Tesla T4'' 16384 320 65 40 0],
      version = ''shipped''\<rparr>"

end
