(* ===== verification/Nvidia.thy ===== *)
theory Nvidia
  imports FitCel Boards "HOL-Library.Product_Lexorder"
begin

text \<open>
  The NVIDIA backend (\<open>internal/modelclaim/nvidia.go\<close>): per-board capacity thresholds, the
  grouping of boards into selector clauses, the generated selector, and the parser of MIG
  profile names.  \<open>nvidia_expr\<close> is the abstract syntax of the generated text;
  \<open>board_admits\<close> states per board what the grouped clauses mean together.
\<close>

section \<open>Thresholds\<close>

definition nvidiaMemFloorMiB :: "bounds \<Rightarrow> int" where
  "nvidiaMemFloorMiB b = wrap64 (i64_of_u64 (MemoryGi b) * 1024)"

definition mig_slices :: "nvidia_board \<Rightarrow> int \<Rightarrow> int" where
  "mig_slices board bw =
     i64_div (wrap64 (wrap64 (wrap64 (bw * MemorySlices board) + MemoryBandwidthGBs board) - 1))
       (MemoryBandwidthGBs board)"

definition mig_midpoint :: "nvidia_board \<Rightarrow> int \<Rightarrow> int" where
  "mig_midpoint board k =
     i64_div (wrap64 (wrap64 (wrap64 (2 * k) - 1) * MemoryMiB board))
       (wrap64 (2 * MemorySlices board))"

definition migThresholdMiB :: "nvidia_board \<Rightarrow> bounds \<Rightarrow> int option" where
  "migThresholdMiB board b =
     (if MemorySlices board \<le> 0 \<or> MemoryBandwidthGBs board \<le> 0 then None
      else
        let thr = nvidiaMemFloorMiB b; bw = i64_of_u64 (MinBandwidthGBs b) in
        if bw > 0 then
          let k = mig_slices board bw in
          if k > MemorySlices board then None
          else
            let thr' = (if k \<ge> 1 \<and> mig_midpoint board k > thr then mig_midpoint board k else thr)
            in if thr' > MemoryMiB board then None else Some thr'
        else if thr > MemoryMiB board then None else Some thr)"

definition migMinSMs :: "nvidia_board \<Rightarrow> int \<Rightarrow> int option" where
  "migMinSMs board minComputeTFLOPS =
     (if minComputeTFLOPS \<le> 0 then Some 0
      else if ComputeTFLOPS board \<le> 0 \<or> SMCount board \<le> 0 then None
      else
        let minSMs = i64_div (wrap64 (wrap64 (wrap64 (minComputeTFLOPS * SMCount board) +
                       ComputeTFLOPS board) - 1)) (ComputeTFLOPS board)
        in if minSMs > SMCount board then None else Some minSMs)"

definition gpuAdmits :: "nvidia_board \<Rightarrow> bounds \<Rightarrow> int \<Rightarrow> bool" where
  "gpuAdmits board b minComputeTFLOPS =
     (if MemoryBandwidthGBs board < i64_of_u64 (MinBandwidthGBs b) then False
      else if MemoryMiB board < nvidiaMemFloorMiB b then False
      else if minComputeTFLOPS > 0 \<and> ComputeTFLOPS board < minComputeTFLOPS then False
      else True)"

section \<open>Grouping\<close>

record migGroup =
  thresholdMiB :: int
  minSMs :: int
  products :: "string list"

definition group_key :: "int \<Rightarrow> int \<Rightarrow> string" where
  "group_key thr sms = show_int thr @ ''/'' @ show_int sms"

definition mig_terms :: "bounds \<Rightarrow> int \<Rightarrow> nvidia_board \<Rightarrow> (int \<times> int) option" where
  "mig_terms b m board =
     (case migThresholdMiB board b of
        None \<Rightarrow> None
      | Some thr \<Rightarrow> (case migMinSMs board m of None \<Rightarrow> None | Some sms \<Rightarrow> Some (thr, sms)))"

definition append_product ::
  "string \<Rightarrow> string \<Rightarrow> (string \<times> migGroup) list \<Rightarrow> (string \<times> migGroup) list" where
  "append_product key name gs =
     map (\<lambda>(k, g). (k, if k = key then g\<lparr>products := products g @ [name]\<rparr> else g)) gs"

definition group_board ::
  "bounds \<Rightarrow> int \<Rightarrow> nvidia_board \<Rightarrow> (string \<times> migGroup) list \<Rightarrow> (string \<times> migGroup) list" where
  "group_board b m board byKey =
     (case mig_terms b m board of
        None \<Rightarrow> byKey
      | Some (thr, sms) \<Rightarrow>
          append_product (group_key thr sms) (ProductName board)
            (if map_of byKey (group_key thr sms) = None
             then byKey @ [(group_key thr sms, \<lparr>thresholdMiB = thr, minSMs = sms, products = []\<rparr>)]
             else byKey))"

definition group_order :: "migGroup \<Rightarrow> int \<times> int" where
  "group_order g = (thresholdMiB g, minSMs g)"

text \<open>
  Go iterates the map of groups in an unspecified order and then sorts with an unstable
  sort; the model lists the groups in order of insertion and sorts stably.  Distinct groups
  have distinct sort keys, so every order ends in the same list.
\<close>

definition migGroups :: "nvidia_boards \<Rightarrow> bounds \<Rightarrow> int \<Rightarrow> migGroup list" where
  "migGroups bs b m =
     sort_key group_order
       (map (\<lambda>(k, g). g\<lparr>products := sort_strings (products g)\<rparr>)
         (fold (group_board b m) (All_boards bs) []))"

section \<open>The generated text\<close>

definition celProductList :: "string list \<Rightarrow> string" where
  "celProductList ps =
     ''['' @ join_with '', '' (map (\<lambda>p. [CHR 0x27] @ p @ [CHR 0x27]) ps) @ '']''"

definition mig_clause :: "migGroup \<Rightarrow> string" where
  "mig_clause g =
     ''(device.attributes['' @ quoted NvidiaDriverDomain @ ''].productName in '' @
     celProductList (products g) @ '' && '' @
     ''device.capacity['' @ quoted NvidiaDriverDomain @ ''].memory.compareTo(quantity('' @
     quoted (show_int (thresholdMiB g) @ ''Mi'') @ '')) >= 0'' @
     (if minSMs g > 0
      then '' && '' @ '''multiprocessors' in device.capacity['' @ quoted NvidiaDriverDomain @ ''] && '' @
           ''device.capacity['' @ quoted NvidiaDriverDomain @
           ''].multiprocessors.compareTo(quantity('' @ quoted (show_int (minSMs g)) @ '')) >= 0''
      else []) @ '')''"

definition mig_branch :: "migGroup list \<Rightarrow> string" where
  "mig_branch gs =
     ''(device.attributes['' @ quoted NvidiaDriverDomain @ ''].type == 'mig' && ('' @
     join_with '' || '' (map mig_clause gs) @ ''))''"

definition admitted_products :: "bounds \<Rightarrow> nvidia_boards \<Rightarrow> int \<Rightarrow> string list" where
  "admitted_products b bs m =
     sort_strings (map ProductName (filter (\<lambda>board. gpuAdmits board b m) (All_boards bs)))"

definition gpu_branch :: "bounds \<Rightarrow> string list \<Rightarrow> string" where
  "gpu_branch b admitted =
     ''(device.attributes['' @ quoted NvidiaDriverDomain @ ''].type == 'gpu' && '' @
     ''device.attributes['' @ quoted NvidiaDriverDomain @ ''].productName in '' @
     celProductList admitted @ '' && '' @
     ''device.capacity['' @ quoted NvidiaDriverDomain @ ''].memory.compareTo(quantity('' @
     quoted (show_int (nvidiaMemFloorMiB b) @ ''Mi'') @ '')) >= 0)''"

definition nvidia_branches :: "bounds \<Rightarrow> nvidia_boards \<Rightarrow> string \<Rightarrow> int \<Rightarrow> string list" where
  "nvidia_branches b bs cls m =
     (if fst (nvidiaBranchesFor cls) \<and> migGroups bs b m \<noteq> [] then [mig_branch (migGroups bs b m)] else []) @
     (if snd (nvidiaBranchesFor cls) \<and> admitted_products b bs m \<noteq> []
      then [gpu_branch b (admitted_products b bs m)] else [])"

definition NvidiaFitCEL :: "bounds \<Rightarrow> nvidia_boards \<Rightarrow> string \<Rightarrow> int \<Rightarrow> string" where
  "NvidiaFitCEL b bs cls m =
     (if nvidia_branches b bs cls m = [] then ''false''
      else '''type' in device.attributes['' @ quoted NvidiaDriverDomain @ ''] && '' @
           '''productName' in device.attributes['' @ quoted NvidiaDriverDomain @ ''] && '' @
           '''memory' in device.capacity['' @ quoted NvidiaDriverDomain @ ''] && '' @
           ''('' @ join_with '' || '' (nvidia_branches b bs cls m) @ '')'')"

section \<open>Profile names\<close>

definition parse_i64_sat :: "string \<Rightarrow> int" where
  \<comment> \<open>\<open>strconv.ParseInt\<close> of a digit string, its range error ignored\<close>
  "parse_i64_sat s = min (int (digits_value s)) (2 ^ 63 - 1)"

definition parseMIGProfile :: "string \<Rightarrow> (int \<times> int \<times> bool) option" where
  "parseMIGProfile s =
     (let d1 = takeWhile is_digit s in
      if d1 = [] then None
      else case cut_prefix (dropWhile is_digit s) ''g.'' of
             None \<Rightarrow> None
           | Some r \<Rightarrow>
               (let d2 = takeWhile is_digit r in
                if d2 = [] then None
                else case cut_prefix (dropWhile is_digit r) ''gb'' of
                       None \<Rightarrow> None
                     | Some t \<Rightarrow>
                         if t = [] then Some (parse_i64_sat d1, parse_i64_sat d2, False)
                         else if t = ''+me'' then Some (parse_i64_sat d1, parse_i64_sat d2, True)
                         else None))"

section \<open>The specification of the selector\<close>

definition mig_clause_expr :: "migGroup \<Rightarrow> cel" where
  "mig_clause_expr g =
     Group (Conj (AttrIn NvidiaDriverDomain ''productName'' (products g))
       (if minSMs g > 0
        then Conj (CapacityGe NvidiaDriverDomain ''memory'' (thresholdMiB g) Mi)
               (Conj (HasCapacity NvidiaDriverDomain ''multiprocessors'')
                 (CapacityGe NvidiaDriverDomain ''multiprocessors'' (minSMs g) One))
        else CapacityGe NvidiaDriverDomain ''memory'' (thresholdMiB g) Mi))"

definition mig_branch_expr :: "migGroup list \<Rightarrow> cel" where
  "mig_branch_expr gs =
     Group (Conj (AttrEq NvidiaDriverDomain ''type'' ''mig'') (Group (Disj (map mig_clause_expr gs))))"

definition gpu_branch_expr :: "bounds \<Rightarrow> string list \<Rightarrow> cel" where
  "gpu_branch_expr b admitted =
     Group (Conj (AttrEq NvidiaDriverDomain ''type'' ''gpu'')
       (Conj (AttrIn NvidiaDriverDomain ''productName'' admitted)
         (CapacityGe NvidiaDriverDomain ''memory'' (nvidiaMemFloorMiB b) Mi)))"

definition nvidia_branch_exprs :: "bounds \<Rightarrow> nvidia_boards \<Rightarrow> string \<Rightarrow> int \<Rightarrow> cel list" where
  "nvidia_branch_exprs b bs cls m =
     (if fst (nvidiaBranchesFor cls) \<and> migGroups bs b m \<noteq> [] then [mig_branch_expr (migGroups bs b m)] else []) @
     (if snd (nvidiaBranchesFor cls) \<and> admitted_products b bs m \<noteq> []
      then [gpu_branch_expr b (admitted_products b bs m)] else [])"

definition nvidia_expr :: "bounds \<Rightarrow> nvidia_boards \<Rightarrow> string \<Rightarrow> int \<Rightarrow> cel" where
  "nvidia_expr b bs cls m =
     (if nvidia_branch_exprs b bs cls m = [] then Fail
      else Conj (HasAttr NvidiaDriverDomain ''type'')
             (Conj (HasAttr NvidiaDriverDomain ''productName'')
               (Conj (HasCapacity NvidiaDriverDomain ''memory'')
                 (Group (Disj (nvidia_branch_exprs b bs cls m))))))"

lemma NvidiaFitCEL_is_render: "NvidiaFitCEL b bs cls m = render (nvidia_expr b bs cls m)"
proof -
  have list: "celProductList ps = quoted_list ps" for ps
    by (simp add: celProductList_def quoted_list_def quoted_def [abs_def])
  have clause: "mig_clause = (\<lambda>g. render (mig_clause_expr g))"
    by (simp add: fun_eq_iff mig_clause_def mig_clause_expr_def list device_map_def quoted_def)
  have branches: "nvidia_branches b bs cls m = map render (nvidia_branch_exprs b bs cls m)"
    by (simp add: nvidia_branches_def nvidia_branch_exprs_def mig_branch_def mig_branch_expr_def
        gpu_branch_def gpu_branch_expr_def list clause device_map_def quoted_def comp_def)
  show ?thesis
    by (simp add: NvidiaFitCEL_def nvidia_expr_def branches device_map_def quoted_def)
qed

section \<open>What the groups hold\<close>

text \<open>
  The state of the grouping loop after the boards \<open>done\<close>: one group for each admissible
  pair of terms, holding exactly the boards with those terms, in order.
\<close>

definition groups_of :: "bounds \<Rightarrow> int \<Rightarrow> nvidia_board list \<Rightarrow> (string \<times> migGroup) list \<Rightarrow> bool" where
  "groups_of b m bds gs \<longleftrightarrow>
     distinct (map fst gs) \<and>
     (\<forall>(k, g) \<in> set gs. k = group_key (thresholdMiB g) (minSMs g) \<and>
        products g = map ProductName
          (filter (\<lambda>bd. mig_terms b m bd = Some (thresholdMiB g, minSMs g)) bds)) \<and>
     (\<forall>bd \<in> set bds. \<forall>t s. mig_terms b m bd = Some (t, s) \<longrightarrow> group_key t s \<in> fst ` set gs)"

lemma group_key_inject [simp]: "group_key t s = group_key t' s' \<longleftrightarrow> t = t' \<and> s = s'"
proof
  have no_slash: "CHR ''/'' \<notin> set (show_int i)" for i
    using show_nat_no_char [of "CHR ''/''"] by (auto simp: show_int_def is_digit_def)
  have split: "takeWhile (\<lambda>c. c \<noteq> CHR ''/'') (group_key t s) = show_int t" for t s
    unfolding group_key_def using no_slash [of t] by (subst takeWhile_append2) auto
  assume eq: "group_key t s = group_key t' s'"
  then have "t = t'" by (metis split show_int_inject)
  with eq show "t = t' \<and> s = s'" by (simp add: group_key_def)
qed simp

lemma append_product_keys [simp]: "map fst (append_product key name gs) = map fst gs"
  by (auto simp: append_product_def)

lemma groups_of_step:
  assumes inv: "groups_of b m bds gs"
  shows "groups_of b m (bds @ [bd]) (group_board b m bd gs)"
proof (cases "mig_terms b m bd")
  case None
  with inv show ?thesis by (auto simp: groups_of_def group_board_def)
next
  case (Some ts)
  obtain t s where ts: "ts = (t, s)" by fastforce
  let ?key = "group_key t s"
  let ?gs = "if map_of gs ?key = None
             then gs @ [(?key, \<lparr>thresholdMiB = t, minSMs = s, products = []\<rparr>)] else gs"
  have none: "filter (\<lambda>bd. mig_terms b m bd = Some (t, s)) bds = []" if "?key \<notin> fst ` set gs"
    using inv that by (auto simp: groups_of_def filter_empty_conv)
  have key: "k = ?key \<longleftrightarrow> thresholdMiB g = t \<and> minSMs g = s" if "(k, g) \<in> set ?gs" for k g
    using inv that by (auto simp: groups_of_def split: if_splits)
  have dist: "distinct (map fst ?gs)"
    using inv by (auto simp: groups_of_def map_of_eq_None_iff)
  have prods: "products g = map ProductName
      (filter (\<lambda>bd. mig_terms b m bd = Some (thresholdMiB g, minSMs g)) bds)"
    if "(k, g) \<in> set ?gs" for k g
    using inv that none by (auto simp: groups_of_def map_of_eq_None_iff split: if_splits)
  have "group_board b m bd gs = append_product ?key (ProductName bd) ?gs"
    by (simp add: group_board_def Some ts)
  moreover have "groups_of b m (bds @ [bd]) (append_product ?key (ProductName bd) ?gs)"
    unfolding groups_of_def
  proof (intro conjI)
    show "distinct (map fst (append_product ?key (ProductName bd) ?gs))"
      using dist by (simp only: append_product_keys)
    show "\<forall>(k, g) \<in> set (append_product ?key (ProductName bd) ?gs).
        k = group_key (thresholdMiB g) (minSMs g) \<and>
        products g = map ProductName
          (filter (\<lambda>bd. mig_terms b m bd = Some (thresholdMiB g, minSMs g)) (bds @ [bd]))"
    proof clarify
      fix k g assume "(k, g) \<in> set (append_product ?key (ProductName bd) ?gs)"
      then obtain g0 where g0: "(k, g0) \<in> set ?gs"
        and g: "g = (if k = ?key then g0\<lparr>products := products g0 @ [ProductName bd]\<rparr> else g0)"
        by (auto simp: append_product_def simp del: if_split_asm)
      have "k = group_key (thresholdMiB g0) (minSMs g0)"
        using inv g0 by (auto simp: groups_of_def split: if_splits)
      with g0 g key [OF g0] prods [OF g0] Some ts
      show "k = group_key (thresholdMiB g) (minSMs g) \<and>
        products g = map ProductName
          (filter (\<lambda>bd. mig_terms b m bd = Some (thresholdMiB g, minSMs g)) (bds @ [bd]))"
        by auto
    qed
    have keys: "fst ` set (append_product ?key (ProductName bd) ?gs) = insert ?key (fst ` set gs)"
      by (auto simp flip: set_map simp: map_of_eq_None_iff)
    show "\<forall>bd' \<in> set (bds @ [bd]). \<forall>t' s'. mig_terms b m bd' = Some (t', s') \<longrightarrow>
        group_key t' s' \<in> fst ` set (append_product ?key (ProductName bd) ?gs)"
      using inv Some ts unfolding keys by (auto simp: groups_of_def)
  qed
  ultimately show ?thesis by simp
qed

lemma groups_of_fold: "groups_of b m bds (fold (group_board b m) bds [])"
proof (induction bds rule: rev_induct)
  case (snoc bd bds)
  then show ?case using groups_of_step by simp
qed (simp add: groups_of_def)

text \<open>
  The emitted groups: strictly increasing in their sort keys, so that no board-table order
  and no order of map iteration is visible in them, and each admissible board is listed in
  the one group that carries its own terms.
\<close>

lemma migGroups_set:
  "(\<exists>g \<in> set (migGroups bs b m). thresholdMiB g = t \<and> minSMs g = s \<and> p \<in> set (products g)) \<longleftrightarrow>
     (\<exists>bd \<in> set (All_boards bs). ProductName bd = p \<and> mig_terms b m bd = Some (t, s))"
  (is "?L \<longleftrightarrow> ?R")
proof -
  let ?gs = "fold (group_board b m) (All_boards bs) []"
  note inv = groups_of_fold [of b m "All_boards bs"]
  have "?L \<longleftrightarrow> (\<exists>(k, g) \<in> set ?gs. thresholdMiB g = t \<and> minSMs g = s \<and> p \<in> set (products g))"
    by (force simp: migGroups_def)
  also have "\<dots> \<longleftrightarrow> ?R"
  proof
    assume "\<exists>(k, g) \<in> set ?gs. thresholdMiB g = t \<and> minSMs g = s \<and> p \<in> set (products g)"
    then show ?R using inv by (fastforce simp: groups_of_def)
  next
    assume ?R
    then obtain bd where bd: "bd \<in> set (All_boards bs)" "ProductName bd = p"
      "mig_terms b m bd = Some (t, s)" by blast
    with inv obtain k g where g: "(k, g) \<in> set ?gs" "k = group_key t s"
      by (force simp: groups_of_def)
    with inv have "thresholdMiB g = t" "minSMs g = s" "products g = map ProductName
        (filter (\<lambda>bd. mig_terms b m bd = Some (t, s)) (All_boards bs))"
      by (fastforce simp: groups_of_def)+
    with g bd show "\<exists>(k, g) \<in> set ?gs. thresholdMiB g = t \<and> minSMs g = s \<and> p \<in> set (products g)"
      by force
  qed
  finally show ?thesis .
qed

lemma migGroups_strict: "sorted_wrt (\<lambda>g h. group_order g < group_order h) (migGroups bs b m)"
proof -
  let ?gs = "fold (group_board b m) (All_boards bs) []"
  let ?ms = "map (\<lambda>(k, g). g\<lparr>products := sort_strings (products g)\<rparr>) ?gs"
  note inv = groups_of_fold [of b m "All_boards bs"]
  have "map (\<lambda>q. group_key (fst q) (snd q)) (map group_order ?ms) = map fst ?gs"
    using inv by (auto simp: groups_of_def group_order_def)
  moreover have "distinct (map fst ?gs)" using inv by (simp add: groups_of_def)
  ultimately have "distinct (map (\<lambda>q. group_key (fst q) (snd q)) (map group_order ?ms))" by argo
  then have "distinct (map group_order ?ms)" by (simp only: distinct_map)
  moreover have "mset (map group_order (migGroups bs b m)) = mset (map group_order ?ms)"
    by (simp only: migGroups_def mset_map mset_sort)
  ultimately have "distinct (map group_order (migGroups bs b m))"
    using mset_eq_imp_distinct_iff by blast
  moreover have "sorted (map group_order (migGroups bs b m))"
    by (simp add: migGroups_def)
  ultimately have "sorted_wrt (<) (map group_order (migGroups bs b m))"
    by (simp add: strict_sorted_iff)
  then show ?thesis by (simp add: sorted_wrt_map)
qed

section \<open>What the selector means\<close>

definition mig_admits :: "nvidia_board \<Rightarrow> bounds \<Rightarrow> int \<Rightarrow> device \<Rightarrow> bool" where
  "mig_admits board b m d \<longleftrightarrow>
     (case mig_terms b m board of
        None \<Rightarrow> False
      | Some (thr, sms) \<Rightarrow>
          (\<exists>v. Capacity d ''memory'' = Some v \<and> thr * 2 ^ 20 \<le> v) \<and>
          (0 < sms \<longrightarrow> (\<exists>v. Capacity d ''multiprocessors'' = Some v \<and> sms \<le> v)))"

definition full_admits :: "nvidia_board \<Rightarrow> bounds \<Rightarrow> int \<Rightarrow> device \<Rightarrow> bool" where
  "full_admits board b m d \<longleftrightarrow>
     gpuAdmits board b m \<and>
     (\<exists>v. Capacity d ''memory'' = Some v \<and> nvidiaMemFloorMiB b * 2 ^ 20 \<le> v)"

definition board_admits :: "string \<Rightarrow> nvidia_board \<Rightarrow> bounds \<Rightarrow> int \<Rightarrow> device \<Rightarrow> bool" where
  "board_admits cls board b m d \<longleftrightarrow>
     (fst (nvidiaBranchesFor cls) \<and> str_of (Attributes d) ''type'' = Some ''mig'' \<and> mig_admits board b m d) \<or>
     (snd (nvidiaBranchesFor cls) \<and> str_of (Attributes d) ''type'' = Some ''gpu'' \<and> full_admits board b m d)"

lemma mig_admits_iff:
  "mig_admits board b m d \<longleftrightarrow>
     (\<exists>thr sms. mig_terms b m board = Some (thr, sms) \<and>
        (\<exists>v. Capacity d ''memory'' = Some v \<and> thr * 2 ^ 20 \<le> v) \<and>
        (0 < sms \<longrightarrow> (\<exists>v. Capacity d ''multiprocessors'' = Some v \<and> sms \<le> v)))"
  unfolding mig_admits_def by (simp split: option.splits)

lemma selects_mig_clause:
  "selects NvidiaDriverDomain (mig_clause_expr g) d \<longleftrightarrow>
     (\<exists>p. str_of (Attributes d) ''productName'' = Some p \<and> p \<in> set (products g)) \<and>
     (\<exists>v. Capacity d ''memory'' = Some v \<and> thresholdMiB g * 2 ^ 20 \<le> v) \<and>
     (0 < minSMs g \<longrightarrow> (\<exists>v. Capacity d ''multiprocessors'' = Some v \<and> minSMs g \<le> v))"
  unfolding mig_clause_expr_def by (cases "0 < minSMs g") (auto simp: cel_simps)

lemma selects_mig_branch:
  "selects NvidiaDriverDomain (mig_branch_expr (migGroups bs b m)) d \<longleftrightarrow>
     str_of (Attributes d) ''type'' = Some ''mig'' \<and>
     (\<exists>bd \<in> set (All_boards bs). str_of (Attributes d) ''productName'' = Some (ProductName bd) \<and>
        mig_admits bd b m d)"
proof -
  define P where "P t s \<longleftrightarrow> (\<exists>v. Capacity d ''memory'' = Some v \<and> t * 2 ^ 20 \<le> v) \<and>
     (0 < s \<longrightarrow> (\<exists>v. Capacity d ''multiprocessors'' = Some v \<and> s \<le> v))" for t s
  have "(\<exists>g \<in> set (migGroups bs b m). selects NvidiaDriverDomain (mig_clause_expr g) d) \<longleftrightarrow>
      (\<exists>t s p. str_of (Attributes d) ''productName'' = Some p \<and> P t s \<and>
        (\<exists>g \<in> set (migGroups bs b m). thresholdMiB g = t \<and> minSMs g = s \<and> p \<in> set (products g)))"
    unfolding selects_mig_clause P_def by blast
  also have "\<dots> \<longleftrightarrow> (\<exists>bd \<in> set (All_boards bs).
      str_of (Attributes d) ''productName'' = Some (ProductName bd) \<and> mig_admits bd b m d)"
    unfolding migGroups_set mig_admits_iff P_def [symmetric] by fast
  finally show ?thesis by (simp add: mig_branch_expr_def cel_simps)
qed

lemma selects_gpu_branch:
  "selects NvidiaDriverDomain (gpu_branch_expr b (admitted_products b bs m)) d \<longleftrightarrow>
     str_of (Attributes d) ''type'' = Some ''gpu'' \<and>
     (\<exists>bd \<in> set (All_boards bs). str_of (Attributes d) ''productName'' = Some (ProductName bd) \<and>
        full_admits bd b m d)"
  by (auto simp: gpu_branch_expr_def cel_simps full_admits_def admitted_products_def)

lemma selects_nvidia_expr:
  "selects NvidiaDriverDomain (nvidia_expr b bs cls m) d \<longleftrightarrow>
     (\<exists>bd \<in> set (All_boards bs). str_of (Attributes d) ''productName'' = Some (ProductName bd) \<and>
        board_admits cls bd b m d)"
proof -
  have mig: "migGroups bs b m = [] \<Longrightarrow> \<not> selects NvidiaDriverDomain (mig_branch_expr (migGroups bs b m)) d"
    by (simp add: mig_branch_expr_def cel_simps)
  have gpu: "admitted_products b bs m = [] \<Longrightarrow>
      \<not> selects NvidiaDriverDomain (gpu_branch_expr b (admitted_products b bs m)) d"
    by (simp add: gpu_branch_expr_def cel_simps)
  have branches: "(\<exists>e \<in> set (nvidia_branch_exprs b bs cls m). selects NvidiaDriverDomain e d) \<longleftrightarrow>
      (\<exists>bd \<in> set (All_boards bs). str_of (Attributes d) ''productName'' = Some (ProductName bd) \<and>
         board_admits cls bd b m d)"
    using mig gpu selects_mig_branch [of bs b m d] selects_gpu_branch [of b bs m d]
    by (auto simp: nvidia_branch_exprs_def board_admits_def)
  have guards: "Attributes d ''type'' \<noteq> None \<and> Attributes d ''productName'' \<noteq> None \<and>
      Capacity d ''memory'' \<noteq> None"
    if "str_of (Attributes d) ''productName'' = Some (ProductName bd)" "board_admits cls bd b m d" for bd
    using that
    by (auto simp: board_admits_def mig_admits_iff full_admits_def str_of_def bind_eq_Some_conv)
  show ?thesis
  proof (cases "nvidia_branch_exprs b bs cls m = []")
    case True
    with branches show ?thesis by (simp add: nvidia_expr_def cel_simps)
  next
    case False
    with branches guards show ?thesis
      by (auto simp: nvidia_expr_def selects_Conj selects_Group selects_Disj selects_atoms
          simp del: not_None_eq)
  qed
qed

section \<open>The thresholds, without overflow\<close>

text \<open>
  The table's boards and the bounds of real models are far below the int64 range; below
  \<open>2 ^ 30\<close> no intermediate value of the threshold arithmetic wraps.
\<close>

definition small_board :: "nvidia_board \<Rightarrow> bool" where
  "small_board board \<longleftrightarrow>
     0 < MemorySlices board \<and> MemorySlices board < 2 ^ 30 \<and> 0 < MemoryBandwidthGBs board \<and>
     MemoryBandwidthGBs board < 2 ^ 30 \<and> 2 * MemorySlices board \<le> MemoryMiB board \<and>
     MemoryMiB board < 2 ^ 30"

lemma div_le_iff_lt: "0 < b \<Longrightarrow> a div b \<le> n \<longleftrightarrow> a < (n + 1) * (b :: int)"
proof
  assume b: "0 < b" and "a div b \<le> n"
  then have "a div b * b \<le> n * b" by (simp add: mult_right_mono)
  moreover have "a mod b < b" using b by simp
  moreover have "(n + 1) * b = n * b + b" by (simp add: distrib_right)
  ultimately show "a < (n + 1) * b"
    using div_mult_mod_eq [of a b] by linarith
next
  assume b: "0 < b" and lt: "a < (n + 1) * b"
  show "a div b \<le> n"
  proof (rule ccontr)
    assume "\<not> a div b \<le> n"
    then have "(n + 1) * b \<le> a div b * b" using b by (intro mult_right_mono) auto
    moreover have "0 \<le> a mod b" using b by simp
    ultimately show False using lt div_mult_mod_eq [of a b] by linarith
  qed
qed

lemma ceil_div_le: "0 < b \<Longrightarrow> (a + b - 1) div b \<le> n \<longleftrightarrow> a \<le> n * (b :: int)"
  by (auto simp: div_le_iff_lt algebra_simps)

lemma nvidiaMemFloorMiB_exact:
  "MemoryGi b < 2 ^ 50 \<Longrightarrow> nvidiaMemFloorMiB b = int (MemoryGi b) * 1024"
  by (simp add: nvidiaMemFloorMiB_def i64_of_u64_small wrap64_small)

lemma mig_slices_exact:
  assumes "small_board board" "0 < bw" "bw < 2 ^ 30"
  shows "mig_slices board bw =
    (bw * MemorySlices board + MemoryBandwidthGBs board - 1) div MemoryBandwidthGBs board"
proof -
  have "bw * MemorySlices board < 2 ^ 30 * 2 ^ 30"
    using assms by (intro mult_strict_mono) (auto simp: small_board_def)
  moreover have "1 \<le> bw * MemorySlices board"
    using assms by (simp add: small_board_def pos_imp_zdiv_nonneg_iff int_one_le_iff_zero_less)
  ultimately show ?thesis
    using assms by (simp add: mig_slices_def wrap64_small i64_div_nonneg small_board_def)
qed

lemma mig_midpoint_exact:
  assumes "small_board board" "1 \<le> k" "k \<le> MemorySlices board"
  shows "mig_midpoint board k = (2 * k - 1) * MemoryMiB board div (2 * MemorySlices board)"
proof -
  have "(2 * k - 1) * MemoryMiB board < 2 ^ 31 * 2 ^ 30"
    using assms by (intro mult_strict_mono) (auto simp: small_board_def)
  moreover have "0 \<le> (2 * k - 1) * MemoryMiB board" using assms by (simp add: small_board_def)
  ultimately show ?thesis
    using assms by (simp add: mig_midpoint_def wrap64_small i64_div_nonneg small_board_def)
qed

text \<open>The midpoint before slice count \<open>k\<close> lies below every partition of \<open>k\<close> or more slices.\<close>

lemma midpoint_separates:
  fixes M S n k c :: int
  assumes "0 < S" "2 * S \<le> M" "(2 * n - 1) * M < 2 * S * c" "S * c \<le> n * M"
  shows "(2 * k - 1) * M div (2 * S) \<le> c \<longleftrightarrow> k \<le> n"
proof -
  have "(2 * k - 1) * M div (2 * S) \<le> c \<longleftrightarrow> (2 * k - 1) * M < (c + 1) * (2 * S)"
    using assms(1) by (simp add: div_le_iff_lt)
  also have "\<dots> \<longleftrightarrow> k \<le> n"
  proof
    assume "k \<le> n"
    then have "(2 * k - 1) * M \<le> (2 * n - 1) * M"
      using assms by (intro mult_right_mono) auto
    moreover have "2 * S * c < (c + 1) * (2 * S)" using assms(1) by (simp add: algebra_simps)
    ultimately show "(2 * k - 1) * M < (c + 1) * (2 * S)" using assms(3) by linarith
  next
    assume lt: "(2 * k - 1) * M < (c + 1) * (2 * S)"
    show "k \<le> n"
    proof (rule ccontr)
      assume "\<not> k \<le> n"
      then have "(2 * n + 1) * M \<le> (2 * k - 1) * M"
        using assms by (intro mult_right_mono) auto
      moreover have "(2 * n + 1) * M = 2 * (n * M) + M" "(c + 1) * (2 * S) = 2 * (S * c) + 2 * S"
        by (simp_all add: algebra_simps)
      ultimately show False using lt assms(2,4) by linarith
    qed
  qed
  finally show ?thesis .
qed

lemma migThresholdMiB_le:
  assumes board: "small_board board" and b: "MemoryGi b < 2 ^ 30" "MinBandwidthGBs b < 2 ^ 30"
    and c: "(2 * n - 1) * MemoryMiB board < 2 * MemorySlices board * c"
      "MemorySlices board * c \<le> n * MemoryMiB board"
    and n: "1 \<le> n" "n \<le> MemorySlices board"
  shows "(\<exists>thr. migThresholdMiB board b = Some thr \<and> thr \<le> c) \<longleftrightarrow>
     nvidiaMemFloorMiB b \<le> c \<and>
     int (MinBandwidthGBs b) * MemorySlices board \<le> n * MemoryBandwidthGBs board"
proof -
  let ?S = "MemorySlices board" and ?BW = "MemoryBandwidthGBs board" and ?bw = "int (MinBandwidthGBs b)"
  have bw: "i64_of_u64 (MinBandwidthGBs b) = ?bw" using b by (simp add: i64_of_u64_small)
  have pos: "0 < ?S" "0 < ?BW" "2 * ?S \<le> MemoryMiB board" using board by (auto simp: small_board_def)
  have "?S * c \<le> ?S * MemoryMiB board"
    using c(2) n pos by (meson mult_right_mono order_trans less_imp_le zero_le_numeral mult_nonneg_nonneg)
  then have cM: "c \<le> MemoryMiB board" using pos by (simp add: mult_le_cancel_left_pos)
  show ?thesis
  proof (cases "MinBandwidthGBs b = 0")
    case True
    have "0 \<le> n * ?BW" using pos n by simp
    moreover have "i64_of_u64 (MinBandwidthGBs b) = 0" using bw True by simp
    ultimately show ?thesis using True pos cM by (auto simp: migThresholdMiB_def Let_def)
  next
    case False
    define k where "k = mig_slices board ?bw"
    have kdef: "k = (?bw * ?S + ?BW - 1) div ?BW"
      unfolding k_def using board False b(2) by (intro mig_slices_exact) simp_all
    have kn: "k \<le> j \<longleftrightarrow> ?bw * ?S \<le> j * ?BW" for j unfolding kdef using pos by (simp add: ceil_div_le)
    have "\<not> k \<le> 0" unfolding kn using False pos by (simp add: mult_le_0_iff)
    then have k1: "1 \<le> k" by simp
    have mid: "mig_midpoint board k \<le> c \<longleftrightarrow> k \<le> n" if "k \<le> ?S"
      unfolding mig_midpoint_exact [OF board k1 that]
      using pos c by (intro midpoint_separates) simp_all
    show ?thesis
      using False k1 mid n cM pos kn [of n] by (auto simp: migThresholdMiB_def bw Let_def k_def [symmetric])
  qed
qed

lemma migMinSMs_le:
  assumes "0 < m" "m < 2 ^ 30" "0 < ComputeTFLOPS board" "ComputeTFLOPS board < 2 ^ 30"
    "0 < SMCount board" "SMCount board < 2 ^ 30" "n \<le> SMCount board"
  shows "(\<exists>sms. migMinSMs board m = Some sms \<and> sms \<le> n) \<longleftrightarrow>
     m * SMCount board \<le> n * ComputeTFLOPS board"
proof -
  have "m * SMCount board < 2 ^ 30 * 2 ^ 30" using assms by (intro mult_strict_mono) auto
  moreover have "1 \<le> m * SMCount board" using assms by (simp add: int_one_le_iff_zero_less)
  ultimately have "i64_div (wrap64 (wrap64 (wrap64 (m * SMCount board) + ComputeTFLOPS board) - 1))
      (ComputeTFLOPS board) = (m * SMCount board + ComputeTFLOPS board - 1) div ComputeTFLOPS board"
    using assms by (simp add: wrap64_small i64_div_nonneg)
  then show ?thesis
    using assms ceil_div_le [of "ComputeTFLOPS board" "m * SMCount board" n]
    by (auto simp: migMinSMs_def Let_def)
qed

section \<open>Properties\<close>

text \<open>
  C10: the generated NVIDIA selector means the per-board inequality.  The text is the
  rendering of an expression that selects exactly the devices of some board of the table
  whose own thresholds the published capacity meets; collecting the boards into groups
  loses and adds nothing.
\<close>

theorem nvidia_selector_meaning:
  "NvidiaFitCEL b bs cls m = render (nvidia_expr b bs cls m) \<and>
   (selects NvidiaDriverDomain (nvidia_expr b bs cls m) d \<longleftrightarrow>
     (\<exists>bd \<in> set (All_boards bs). str_of (Attributes d) ''productName'' = Some (ProductName bd) \<and>
        board_admits cls bd b m d))"
  by (simp only: NvidiaFitCEL_is_render selects_nvidia_expr simp_thms)

text \<open>
  C27: the midpoint threshold separates MIG profiles.  For a board whose numbers do not
  overflow, a partition of \<open>n\<close> of its memory slices whose published capacity \<open>c\<close> is at most
  the nominal one and short of it by less than half a slice passes the capacity threshold
  exactly when the capacity meets the memory floor and the derived bandwidth, the board's
  share of \<open>n\<close> slices, meets the bandwidth floor.
\<close>

theorem mig_threshold_separates:
  assumes "small_board board" "MemoryGi b < 2 ^ 30" "MinBandwidthGBs b < 2 ^ 30"
    and "1 \<le> n" "n \<le> MemorySlices board"
    and "(2 * n - 1) * MemoryMiB board < 2 * MemorySlices board * c"
    and "MemorySlices board * c \<le> n * MemoryMiB board"
  shows "(\<exists>thr. migThresholdMiB board b = Some thr \<and> thr \<le> c) \<longleftrightarrow>
     int (MemoryGi b) * 1024 \<le> c \<and>
     int (MinBandwidthGBs b) * MemorySlices board \<le> n * MemoryBandwidthGBs board"
  using migThresholdMiB_le [OF assms(1-3) assms(6,7,4,5)] nvidiaMemFloorMiB_exact [of b] assms(2)
  by simp

definition sample_a100 :: nvidia_board where
  "sample_a100 =
     \<lparr>ProductName = ''NVIDIA A100-SXM4-80GB'', MemoryMiB = 81920, MemoryBandwidthGBs = 2039,
      ComputeTFLOPS = 312, SMCount = 108, MemorySlices = 8\<rparr>"

definition sample_mig_bounds :: bounds where
  "sample_mig_bounds =
     \<lparr>bModel = ''Qwen/Qwen3-30B-A3B'', ClaimName = ''qwen3'', bQuant = ''Q4_K_M'',
      WeightsGb = 88 / 5, MemoryGi = 30, MinBandwidthGBs = 644, bMinTps = 80,
      bEfficiencyPct = 55, ResolverVersion = ''1.1.3''\<rparr>"

theorem mig_threshold_separates_witness:
  "(\<exists>thr. migThresholdMiB sample_a100 sample_mig_bounds = Some thr \<and> thr \<le> 40192) \<and>
   \<not> (\<exists>thr. migThresholdMiB sample_a100 sample_mig_bounds = Some thr \<and> thr \<le> 19968)"
  using mig_threshold_separates [of sample_a100 sample_mig_bounds 4 40192]
    mig_threshold_separates [of sample_a100 sample_mig_bounds 2 19968]
  by (simp add: small_board_def sample_a100_def sample_mig_bounds_def)

text \<open>
  The multiprocessor threshold is the exact rounding of the compute floor: a partition
  of \<open>n\<close> of the board's multiprocessors passes it exactly when its share of the board's
  compute meets the floor.
\<close>

theorem mig_sm_threshold_exact:
  assumes "0 < m" "m < 2 ^ 30" "0 < ComputeTFLOPS board" "ComputeTFLOPS board < 2 ^ 30"
    and "0 < SMCount board" "SMCount board < 2 ^ 30" "n \<le> SMCount board"
  shows "(\<exists>sms. migMinSMs board m = Some sms \<and> sms \<le> n) \<longleftrightarrow>
     m * SMCount board \<le> n * ComputeTFLOPS board"
  using assms by (rule migMinSMs_le)

theorem mig_sm_threshold_exact_witness:
  "(\<exists>sms. migMinSMs sample_a100 150 = Some sms \<and> sms \<le> 56) \<and>
   \<not> (\<exists>sms. migMinSMs sample_a100 150 = Some sms \<and> sms \<le> 42)"
  using mig_sm_threshold_exact [of 150 sample_a100 56] mig_sm_threshold_exact [of 150 sample_a100 42]
  by (simp add: sample_a100_def)

text \<open>
  The generated text does not depend on the order in which Go iterates the board table,
  and its MIG clauses are listed by strictly increasing threshold pair, so that a resolved
  claim always renders to the same template.
\<close>

theorem nvidia_selector_deterministic:
  assumes "boards_ok bs" "mset (boards bs) = mset (boards bs')"
  shows "NvidiaFitCEL b bs cls m = NvidiaFitCEL b bs' cls m \<and>
     sorted_wrt (\<lambda>g h. group_order g < group_order h) (migGroups bs b m)"
proof -
  have "All_boards bs = All_boards bs'" by (rule All_boards_cong) (fact assms)+
  then have "migGroups bs b m = migGroups bs' b m" "admitted_products b bs m = admitted_products b bs' m"
    by (simp_all add: migGroups_def admitted_products_def)
  then have "nvidia_branches b bs cls m = nvidia_branches b bs' cls m"
    by (simp add: nvidia_branches_def)
  then show ?thesis by (simp add: NvidiaFitCEL_def migGroups_strict)
qed

lemma shipped_boards_ok: "boards_ok shipped_boards"
  by (simp add: boards_ok_def shipped_boards_def board_entry_def)

theorem nvidia_selector_deterministic_witness:
  "NvidiaFitCEL sample_mig_bounds shipped_boards nvidiaMIGClass 0 =
   NvidiaFitCEL sample_mig_bounds (shipped_boards\<lparr>boards := rev (boards shipped_boards)\<rparr>) nvidiaMIGClass 0"
  by (rule nvidia_selector_deterministic [THEN conjunct1]) (simp_all add: shipped_boards_ok)

text \<open>
  The bandwidth floor of the threshold overflows.  A floor of \<open>2 ^ 61\<close> GB/s, far above
  any board, multiplies to 0 on an 8-slice board, so that the threshold degenerates to the
  memory floor and every partition with enough memory is admitted.
\<close>

theorem mig_bandwidth_floor_overflows:
  assumes "MemorySlices board = 8" "0 < MemoryBandwidthGBs board" "MemoryBandwidthGBs board < 2 ^ 30"
    and "MinBandwidthGBs b = 2 ^ 61" "nvidiaMemFloorMiB b \<le> MemoryMiB board"
  shows "migThresholdMiB board b = Some (nvidiaMemFloorMiB b) \<and>
    \<not> int (MinBandwidthGBs b) * MemorySlices board \<le> 8 * MemoryBandwidthGBs board"
proof -
  have bw: "i64_of_u64 (MinBandwidthGBs b) = 2 ^ 61" using assms(4) by (simp add: i64_of_u64_small)
  have "wrap64 (2 ^ 61 * 8) = 0" by (simp add: wrap64_def)
  then have "mig_slices board (2 ^ 61) = 0"
    using assms(1-3) by (simp add: mig_slices_def wrap64_small i64_div_nonneg)
  then have "migThresholdMiB board b = Some (nvidiaMemFloorMiB b)"
    using assms bw by (simp add: migThresholdMiB_def Let_def)
  then show ?thesis using assms(1,3,4) by simp
qed

theorem mig_bandwidth_floor_overflows_witness:
  "migThresholdMiB sample_a100 (sample_mig_bounds\<lparr>MinBandwidthGBs := 2 ^ 61\<rparr>) = Some 30720"
  using mig_bandwidth_floor_overflows [of sample_a100 "sample_mig_bounds\<lparr>MinBandwidthGBs := 2 ^ 61\<rparr>"]
  by (simp add: sample_a100_def sample_mig_bounds_def nvidiaMemFloorMiB_def i64_of_u64_small wrap64_small)

text \<open>
  The profile parser reads back every profile name of the driver's scheme.
\<close>

theorem mig_profile_roundtrip:
  assumes "g < 2 ^ 63" "gb < 2 ^ 63"
  shows "parseMIGProfile (show_nat g @ ''g.'' @ show_nat gb @ ''gb'' @ (if me then ''+me'' else [])) =
    Some (int g, int gb, me)"
proof -
  have split: "takeWhile is_digit (show_nat n @ c # t) = show_nat n"
      "dropWhile is_digit (show_nat n @ c # t) = c # t" if "\<not> is_digit c" for n c t
    using that show_nat_digits [of n]
    by (auto simp: list_all_iff takeWhile_append2 dropWhile_append2)
  have "\<not> is_digit (CHR ''g'')" by (simp add: is_digit_def)
  then show ?thesis
    using assms
    by (simp add: parseMIGProfile_def Let_def split cut_prefix_def has_prefix_def parse_i64_sat_def)
qed

theorem mig_profile_roundtrip_witness: "parseMIGProfile ''3g.40gb+me'' = Some (3, 40, True)"
  using mig_profile_roundtrip [of 3 40 True] by (simp add: show_nat.simps)

end
