(* ===== verification/SatisfiableNvidia.thy ===== *)
theory SatisfiableNvidia
  imports Satisfiable Nvidia
begin

text \<open>
  The static evaluation of the bounds against the slices of \<open>gpu.nvidia.com\<close>
  (\<open>internal/modelclaim/satisfiable_nvidia.go\<close>), an instance of the same scan contract as the
  evaluation of the driver's own slices, and its agreement with the generated selector.
\<close>

section \<open>One device\<close>

definition nv_type :: "device \<Rightarrow> string" where
  "nv_type d = (case str_of (Attributes d) ''type'' of Some s \<Rightarrow> s | None \<Rightarrow> [])"

definition nv_product :: "device \<Rightarrow> string" where
  "nv_product d = (case str_of (Attributes d) ''productName'' of Some s \<Rightarrow> s | None \<Rightarrow> [])"

definition nv_mem :: "device \<Rightarrow> int" where
  "nv_mem d = (case Capacity d ''memory'' of Some v \<Rightarrow> i64_div v (1024 * 1024) | None \<Rightarrow> 0)"

definition nv_skipped :: "string \<Rightarrow> device \<Rightarrow> bool" where
  "nv_skipped cls d \<longleftrightarrow>
     (nv_type d = ''mig'' \<and> \<not> fst (nvidiaBranchesFor cls)) \<or>
     (nv_type d = ''gpu'' \<and> \<not> snd (nvidiaBranchesFor cls)) \<or>
     (nv_type d \<noteq> ''mig'' \<and> nv_type d \<noteq> ''gpu'')"

definition nv_feasible :: "bounds \<Rightarrow> int \<Rightarrow> nvidia_board \<Rightarrow> device \<Rightarrow> bool" where
  "nv_feasible b m board d =
     (if nv_type d = ''mig'' then migThresholdMiB board b \<noteq> None \<and> migMinSMs board m \<noteq> None
      else gpuAdmits board b m)"

definition nv_threshold :: "bounds \<Rightarrow> nvidia_board \<Rightarrow> device \<Rightarrow> int" where
  "nv_threshold b board d =
     (if nv_type d = ''mig'' then (case migThresholdMiB board b of Some t \<Rightarrow> t | None \<Rightarrow> 0)
      else nvidiaMemFloorMiB b)"

definition nv_minSMs :: "int \<Rightarrow> nvidia_board \<Rightarrow> device \<Rightarrow> int" where
  "nv_minSMs m board d =
     (if nv_type d = ''mig'' then (case migMinSMs board m of Some s \<Rightarrow> s | None \<Rightarrow> 0) else 0)"

definition nv_memOK :: "bounds \<Rightarrow> int \<Rightarrow> nvidia_board \<Rightarrow> device \<Rightarrow> bool" where
  "nv_memOK b m board d \<longleftrightarrow> nv_feasible b m board d \<and> nv_mem d \<ge> nv_threshold b board d"

definition nv_smOK :: "int \<Rightarrow> nvidia_board \<Rightarrow> device \<Rightarrow> bool" where
  "nv_smOK m board d \<longleftrightarrow>
     (nv_type d = ''mig'' \<and> nv_minSMs m board d > 0 \<longrightarrow>
        (case Capacity d ''multiprocessors'' of Some v \<Rightarrow> v | None \<Rightarrow> 0) \<ge> nv_minSMs m board d)"

section \<open>The nearest miss\<close>

definition nv_derivedBW :: "nvidia_board \<Rightarrow> device \<Rightarrow> int" where
  "nv_derivedBW board d =
     (if MemoryMiB board > 0
      then i64_div (wrap64 (MemoryBandwidthGBs board * nv_mem d)) (MemoryMiB board) else 0)"

definition nv_score :: "bounds \<Rightarrow> nvidia_board \<Rightarrow> device \<Rightarrow> rat" where
  "nv_score b board d =
     (if MinBandwidthGBs b > 0 \<and> nv_derivedBW board d > 0
      then f64 (f64 (of_int (nv_derivedBW board d)) / f64 (of_nat (MinBandwidthGBs b))) else 0)"

definition nv_label :: "device \<Rightarrow> string" where
  "nv_label d =
     (if nv_type d = ''mig''
      then case str_of (Attributes d) ''profile'' of
             Some pr \<Rightarrow> devName d @ '' profile '' @ pr
           | None \<Rightarrow> devName d
      else devName d)"

definition nv_reasons :: "bounds \<Rightarrow> int \<Rightarrow> nvidia_board \<Rightarrow> device \<Rightarrow> string list" where
  "nv_reasons b m board d =
     (if \<not> nv_feasible b m board d
      then [''no partition of '' @ nv_product d @ '' can meet the bounds (board peak '' @
            show_int (MemoryBandwidthGBs board) @ '' GB/s, '' @ show_int (MemorySlices board) @
            '' slices '' @ em_dash @ '' llmfit derived model)'']
      else
        (if nv_mem d < nv_threshold b board d
         then [if nv_type d = ''mig''
               then ''memory '' @ show_int (nv_mem d) @ ''Mi < '' @ show_int (nv_threshold b board d) @
                    ''Mi threshold (derived bandwidth '' @ show_int (nv_derivedBW board d) @ '' < '' @
                    show_nat (MinBandwidthGBs b) @ '' GB/s at board peak '' @
                    show_int (MemoryBandwidthGBs board) @ '' GB/s)''
               else ''memory '' @ show_int (nv_mem d) @ ''Mi < '' @ show_int (nv_threshold b board d) @ ''Mi'']
         else []) @
        (if \<not> nv_smOK m board d
         then [''multiprocessors below '' @ show_int (nv_minSMs m board d) @ '' (compute floor '' @
               show_int m @ '' TFLOPS)'']
         else []))"

definition nv_message :: "bounds \<Rightarrow> int \<Rightarrow> nvidia_board \<Rightarrow> resource_slice \<times> device \<Rightarrow> string" where
  "nv_message b m board p =
     ''closest NVIDIA device '' @ nv_label (snd p) @ '' ('' @ nv_product (snd p) @ '', node '' @
     node_of (fst p) @ ''): '' @ join (sort_strings (nv_reasons b m board (snd p)))"

section \<open>The evaluation\<close>

text \<open>The set of unknown board names is kept as a list without duplicates.\<close>

record nv_scan = tally +
  nUnknown :: "string list"

definition eval_nvidia_device ::
  "(string \<Rightarrow> string option) \<Rightarrow> bounds \<Rightarrow> string \<Rightarrow> int \<Rightarrow> nvidia_boards \<Rightarrow>
   resource_slice \<times> device \<Rightarrow> nv_scan \<Rightarrow> nv_scan" where
  "eval_nvidia_device allocated b cls m bs p st =
     (if nv_skipped cls (snd p) then st
      else case ByProductName bs (nv_product (snd p)) of
             None \<Rightarrow> st\<lparr>nUnknown := List.insert (nv_product (snd p)) (nUnknown st)\<rparr>
           | Some board \<Rightarrow>
               if nv_memOK b m board (snd p) \<and> nv_smOK m board (snd p)
               then count_device allocated p st
               else note_miss (nv_score b board (snd p)) (nv_message b m board p) st)"

definition eval_nvidia_slice ::
  "(string \<Rightarrow> int) \<Rightarrow> (string \<Rightarrow> string option) \<Rightarrow> bounds \<Rightarrow> string \<Rightarrow> int \<Rightarrow> nvidia_boards \<Rightarrow>
   resource_slice \<Rightarrow> nv_scan \<Rightarrow> nv_scan" where
  "eval_nvidia_slice maxGen allocated b cls m bs sl st =
     (if Driver sl \<noteq> NvidiaDriverDomain then st
      else if PoolGeneration sl < maxGen (PoolName sl) then st
      else fold (\<lambda>d. eval_nvidia_device allocated b cls m bs (sl, d)) (Devices sl) st)"

definition nv_scan_start :: nv_scan where
  "nv_scan_start =
     \<lparr>tNodes = {}, tDevices = 0, tAvailable = 0, tHeldBy = [], tBestMsg = [], tBestScore = -1,
      nUnknown = []\<rparr>"

definition nv_shortfall :: "nvidia_boards \<Rightarrow> nv_scan \<Rightarrow> string" where
  "nv_shortfall bs st =
     (let msg = (if tBestMsg st = []
                 then ''no gpu.nvidia.com devices published '' @ em_dash @
                      '' is the NVIDIA DRA driver installed?''
                 else tBestMsg st)
      in if nUnknown st \<noteq> []
         then ''unknown NVIDIA board(s) '' @ join (sort_strings (map go_quote (nUnknown st))) @
              '' not in llmfit board table '' @ version bs @ '' '' @ em_dash @
              '' devices fail closed; '' @ msg
         else msg)"

definition nv_scan_result :: "nvidia_boards \<Rightarrow> nv_scan \<Rightarrow> candidates" where
  "nv_scan_result bs st =
     \<lparr>cDevices = tDevices st, cNodes = card (tNodes st), cAvailable = tAvailable st,
      cHeldBy = tHeldBy st, cShortfall = (if tDevices st = 0 then nv_shortfall bs st else [])\<rparr>"

definition EvaluateNvidiaSlices ::
  "resource_slice list \<Rightarrow> (string \<Rightarrow> string option) \<Rightarrow> bounds \<Rightarrow> string \<Rightarrow> int \<Rightarrow> nvidia_boards \<Rightarrow> candidates" where
  "EvaluateNvidiaSlices slices allocated b cls m bs =
     nv_scan_result bs
       (fold (eval_nvidia_slice (currentPoolGens slices NvidiaDriverDomain) allocated b cls m bs)
         slices nv_scan_start)"

section \<open>The evaluation as a candidate scan\<close>

definition nv_fits :: "bounds \<Rightarrow> string \<Rightarrow> int \<Rightarrow> nvidia_boards \<Rightarrow> resource_slice \<times> device \<Rightarrow> bool" where
  "nv_fits b cls m bs p \<longleftrightarrow>
     \<not> nv_skipped cls (snd p) \<and>
     (case ByProductName bs (nv_product (snd p)) of
        None \<Rightarrow> False
      | Some board \<Rightarrow> nv_memOK b m board (snd p) \<and> nv_smOK m board (snd p))"

definition nv_miss_of ::
  "bounds \<Rightarrow> string \<Rightarrow> int \<Rightarrow> nvidia_boards \<Rightarrow> resource_slice \<times> device \<Rightarrow> (rat \<times> string) option" where
  "nv_miss_of b cls m bs p =
     (if nv_skipped cls (snd p) then None
      else case ByProductName bs (nv_product (snd p)) of
             None \<Rightarrow> None
           | Some board \<Rightarrow> Some (nv_score b board (snd p), nv_message b m board p))"

definition nv_unknown :: "string \<Rightarrow> nvidia_boards \<Rightarrow> device \<Rightarrow> bool" where
  "nv_unknown cls bs d \<longleftrightarrow> \<not> nv_skipped cls d \<and> ByProductName bs (nv_product d) = None"

lemma nv_score_nonneg: "0 \<le> nv_score b board d"
  by (simp add: nv_score_def f64_nonneg)

interpretation nv: candidate_scan "eval_nvidia_device allocated b cls m bs" "nv_fits b cls m bs"
  "nv_miss_of b cls m bs" allocated for allocated b cls m bs
  by unfold_locales
    (auto simp: nv_fits_def eval_nvidia_device_def nv_miss_of_def note_miss_def nv_score_nonneg
      split: if_splits option.splits)

lemma nv_miss_message:
  "nv_miss_of b cls m bs p = Some (sc, msg) \<Longrightarrow> \<exists>s. msg = ''closest NVIDIA device '' @ s"
  by (auto simp: nv_miss_of_def nv_message_def split: if_splits option.splits)

lemma EvaluateNvidiaSlices_scan [scan_simps]:
  "EvaluateNvidiaSlices slices allocated b cls m bs =
     nv_scan_result bs (fold (eval_nvidia_device allocated b cls m bs)
       (current_devices slices NvidiaDriverDomain) nv_scan_start)"
proof -
  let ?g = "currentPoolGens slices NvidiaDriverDomain"
  have "eval_nvidia_slice ?g allocated b cls m bs = (\<lambda>sl st.
      if current_slice slices NvidiaDriverDomain sl
      then fold (\<lambda>d. eval_nvidia_device allocated b cls m bs (sl, d)) (Devices sl) st else st)"
    by (auto simp: eval_nvidia_slice_def current_slice_def fun_eq_iff)
  then show ?thesis
    by (simp add: EvaluateNvidiaSlices_def fold_skip fold_nested current_devices_def)
qed

lemma EvaluateNvidiaSlices_counts [scan_simps]:
  fixes slices
  defines "ps \<equiv> current_devices slices NvidiaDriverDomain"
  shows "cDevices (EvaluateNvidiaSlices slices allocated b cls m bs) =
           length (filter (nv_fits b cls m bs) ps)"
    and "cAvailable (EvaluateNvidiaSlices slices allocated b cls m bs) =
           length (filter (\<lambda>p. nv_fits b cls m bs p \<and> \<not> is_held allocated p) ps)"
    and "cNodes (EvaluateNvidiaSlices slices allocated b cls m bs) =
           card {n. n \<noteq> [] \<and> (\<exists>p \<in> set ps. nv_fits b cls m bs p \<and> node_of (fst p) = n)}"
  by (simp_all add: ps_def EvaluateNvidiaSlices_scan nv_scan_result_def nv.fold_devices
      nv.fold_available nv.fold_nodes nv_scan_start_def)

lemma nUnknown_fold:
  "set (nUnknown (fold (eval_nvidia_device allocated b cls m bs) ps st)) =
     set (nUnknown st) \<union> nv_product ` {d. d \<in> snd ` set ps \<and> nv_unknown cls bs d}"
proof (induction ps arbitrary: st)
  case (Cons p ps)
  have "set (nUnknown (eval_nvidia_device allocated b cls m bs p st)) =
      set (nUnknown st) \<union> (if nv_unknown cls bs (snd p) then {nv_product (snd p)} else {})"
    by (auto simp: eval_nvidia_device_def nv_unknown_def count_device_def note_miss_def Let_def
        split: option.splits)
  with Cons show ?case by auto
qed simp

section \<open>Agreement with the selector\<close>

lemma sdiv_mib_le:
  assumes t: "0 < t" and v: "in_i64 v"
  shows "t \<le> i64_div v (1024 * 1024) \<longleftrightarrow> t * 2 ^ 20 \<le> v"
proof (cases "0 \<le> v")
  case True
  then have "i64_div v (1024 * 1024) = v div 2 ^ 20" using v by (simp add: i64_div_nonneg in_i64_def)
  then show ?thesis using div_le_iff_lt [of "2 ^ 20" v "t - 1"] by auto
next
  case False
  have q: "v sdiv (1024 * 1024) = - ((- v) div (1024 * 1024))"
    using False by (simp add: signed_divide_int_def sgn_if)
  have "0 \<le> (- v) div (1024 * 1024)" using False by (simp add: pos_imp_zdiv_nonneg_iff)
  moreover have "(- v) div (1024 * 1024) \<le> 2 ^ 63"
    using div_le_iff_lt [of "1024 * 1024" "- v" "2 ^ 63"] v
    by (simp only: in_i64_def) simp
  ultimately have "i64_div v (1024 * 1024) = - ((- v) div (1024 * 1024))"
    unfolding i64_div_def q by (intro wrap64_id) (auto simp: in_i64_def)
  moreover have "0 \<le> (- v) div (1024 * 1024)" using False by (simp add: pos_imp_zdiv_nonneg_iff)
  ultimately have "i64_div v (1024 * 1024) \<le> 0" by linarith
  then show ?thesis using t False by simp
qed

text \<open>A capacity that is missing reads as 0 MiB and so passes no positive threshold.\<close>

definition capacities_ok :: "device \<Rightarrow> bool" where
  "capacities_ok d \<longleftrightarrow> (\<forall>v. Capacity d ''memory'' = Some v \<longrightarrow> in_i64 v)"

lemma nv_mem_ge:
  assumes "capacities_ok d" "0 < t"
  shows "t \<le> nv_mem d \<longleftrightarrow> (\<exists>v. Capacity d ''memory'' = Some v \<and> t * 2 ^ 20 \<le> v)"
  using assms sdiv_mib_le [OF assms(2)]
  by (auto simp: nv_mem_def capacities_ok_def split: option.splits)

lemma threshold_floor: "migThresholdMiB board b = Some t \<Longrightarrow> nvidiaMemFloorMiB b \<le> t"
  by (auto simp: migThresholdMiB_def Let_def split: if_splits)

lemma nv_fits_iff_selects:
  assumes bs: "boards_ok bs" and pos: "0 < MemoryGi b" "MemoryGi b < 2 ^ 50"
    and caps: "capacities_ok (snd p)" and named: "ByProductName bs [] = None"
  shows "nv_fits b cls m bs p \<longleftrightarrow> selects NvidiaDriverDomain (nvidia_expr b bs cls m) (snd p)"
proof -
  let ?d = "snd p"
  have floor: "0 < nvidiaMemFloorMiB b" using pos by (simp add: nvidiaMemFloorMiB_exact)
  have mig: "nv_memOK b m bd ?d \<and> nv_smOK m bd ?d \<longleftrightarrow> mig_admits bd b m ?d" if "nv_type ?d = ''mig''" for bd
  proof -
    have "t \<le> nv_mem ?d \<longleftrightarrow> (\<exists>v. Capacity ?d ''memory'' = Some v \<and> t * 2 ^ 20 \<le> v)"
      if "migThresholdMiB bd b = Some t" for t
      using threshold_floor [OF that] floor by (intro nv_mem_ge caps) simp
    moreover have "0 < s \<Longrightarrow> s \<le> (case Capacity ?d ''multiprocessors'' of Some v \<Rightarrow> v | None \<Rightarrow> 0) \<longleftrightarrow>
        (\<exists>v. Capacity ?d ''multiprocessors'' = Some v \<and> s \<le> v)" for s
      by (auto split: option.splits)
    ultimately show ?thesis
      using that
      by (auto simp: nv_memOK_def nv_feasible_def nv_threshold_def nv_smOK_def nv_minSMs_def
          mig_admits_def mig_terms_def split: option.splits)
  qed
  have gpu: "nv_memOK b m bd ?d \<and> nv_smOK m bd ?d \<longleftrightarrow> full_admits bd b m ?d" if "nv_type ?d = ''gpu''" for bd
    using that nv_mem_ge [OF caps floor]
    by (auto simp: nv_memOK_def nv_feasible_def nv_threshold_def nv_smOK_def full_admits_def)
  have type: "nv_type ?d = s \<longleftrightarrow> str_of (Attributes ?d) ''type'' = Some s" if "s \<noteq> []" for s
    using that by (auto simp: nv_type_def split: option.splits)
  have product: "ByProductName bs (nv_product ?d) = Some bd \<longleftrightarrow>
      bd \<in> set (All_boards bs) \<and> str_of (Attributes ?d) ''productName'' = Some (ProductName bd)" for bd
    using ByProductName_iff [OF bs, of _ bd] ByProductName_iff [OF bs, of "[]" bd] named
    by (auto simp: nv_product_def simp del: not_None_eq split: option.splits)
  have "nv_fits b cls m bs p \<longleftrightarrow>
      (\<exists>bd. ByProductName bs (nv_product ?d) = Some bd \<and> board_admits cls bd b m ?d)"
    using mig gpu type
    by (auto simp: nv_fits_def nv_skipped_def board_admits_def split: option.splits)
  then show ?thesis unfolding selects_nvidia_expr product by blast
qed

definition nvidia_admits :: "bounds \<Rightarrow> nvidia_boards \<Rightarrow> string \<Rightarrow> int \<Rightarrow> resource_slice \<times> device \<Rightarrow> bool" where
  "nvidia_admits b bs cls m p \<longleftrightarrow> selects NvidiaDriverDomain (nvidia_expr b bs cls m) (snd p)"

section \<open>Properties\<close>

text \<open>
  C6: the static evaluation of the NVIDIA slices agrees with the generated selector.  With a
  positive memory floor, the reported devices, available devices and nodes are those of
  the entries of current \<open>gpu.nvidia.com\<close> slices that the selector of the template selects.
\<close>

theorem nvidia_evaluation_matches_selector:
  assumes table: "boards_ok bs" "ByProductName bs [] = None"
    and floor: "0 < MemoryGi b" "MemoryGi b < 2 ^ 50"
    and caps: "\<forall>p \<in> set (current_devices slices NvidiaDriverDomain). capacities_ok (snd p)"
  shows "cDevices (EvaluateNvidiaSlices slices allocated b cls m bs) =
           length (filter (nvidia_admits b bs cls m) (current_devices slices NvidiaDriverDomain)) \<and>
         cAvailable (EvaluateNvidiaSlices slices allocated b cls m bs) =
           length (filter (\<lambda>p. nvidia_admits b bs cls m p \<and> \<not> is_held allocated p) (current_devices slices NvidiaDriverDomain)) \<and>
         cNodes (EvaluateNvidiaSlices slices allocated b cls m bs) =
           card {n. n \<noteq> [] \<and> (\<exists>p \<in> set (current_devices slices NvidiaDriverDomain).
                    nvidia_admits b bs cls m p \<and> node_of (fst p) = n)}"
proof -
  have eq: "nv_fits b cls m bs p \<longleftrightarrow> nvidia_admits b bs cls m p"
    if "p \<in> set (current_devices slices NvidiaDriverDomain)" for p
    unfolding nvidia_admits_def using that caps by (intro nv_fits_iff_selects table floor) blast
  then show ?thesis
    unfolding EvaluateNvidiaSlices_counts
    by (intro conjI arg_cong [where f = length] arg_cong [where f = card] filter_cong) auto
qed

definition sample_mig :: device where
  "sample_mig =
     \<lparr>devName = ''gpu-0-mig-1'',
      Attributes = map_of [(''type'', string_attr ''mig''), (''profile'', string_attr ''4g.40gb''),
        (''productName'', string_attr ''NVIDIA A100-SXM4-80GB'')],
      Capacity = [''memory'' \<mapsto> 42144366592], Taints = []\<rparr>"

definition sample_mig_slice :: resource_slice where
  "sample_mig_slice =
     \<lparr>Driver = NvidiaDriverDomain, PoolName = ''dgx'', PoolGeneration = 1, NodeName = Some ''dgx'',
      Devices = [sample_mig]\<rparr>"

lemma sample_mig_current:
  "current_devices [sample_mig_slice] NvidiaDriverDomain = [(sample_mig_slice, sample_mig)]"
  by (simp add: current_devices_def current_slice_def currentPoolGens_def sample_mig_slice_def)

theorem nvidia_evaluation_matches_selector_witness:
  "cDevices (EvaluateNvidiaSlices [sample_mig_slice] (\<lambda>_. None) sample_mig_bounds nvidiaMIGClass 0 shipped_boards) =
     length (filter (nvidia_admits sample_mig_bounds shipped_boards nvidiaMIGClass 0)
       (current_devices [sample_mig_slice] NvidiaDriverDomain))"
proof (rule nvidia_evaluation_matches_selector [THEN conjunct1])
  show "boards_ok shipped_boards" by (rule shipped_boards_ok)
  show "ByProductName shipped_boards [] = None"
    by (simp add: ByProductName_def shipped_boards_def board_entry_def)
qed (simp_all add: sample_mig_current sample_mig_bounds_def capacities_ok_def sample_mig_def in_i64_def)

text \<open>
  A NVIDIA verdict always comes with its explanation, and boards the table does not
  know are never silent: when nothing matches, the shortfall is not empty, and it starts
  with the list of unknown boards exactly when a considered device is of one.
\<close>

theorem nvidia_shortfall_explains_verdict:
  "cAvailable (EvaluateNvidiaSlices slices allocated b cls m bs) \<le>
     cDevices (EvaluateNvidiaSlices slices allocated b cls m bs) \<and>
   (cShortfall (EvaluateNvidiaSlices slices allocated b cls m bs) = [] \<longleftrightarrow>
     cDevices (EvaluateNvidiaSlices slices allocated b cls m bs) \<noteq> 0) \<and>
   (has_prefix (cShortfall (EvaluateNvidiaSlices slices allocated b cls m bs)) ''unknown NVIDIA board(s) '' \<longleftrightarrow>
     cDevices (EvaluateNvidiaSlices slices allocated b cls m bs) = 0 \<and>
     (\<exists>p \<in> set (current_devices slices NvidiaDriverDomain). nv_unknown cls bs (snd p)))"
proof (intro conjI)
  let ?ps = "current_devices slices NvidiaDriverDomain"
  let ?st = "fold (eval_nvidia_device allocated b cls m bs) ?ps nv_scan_start"
  have "length (filter (\<lambda>p. nv_fits b cls m bs p \<and> \<not> is_held allocated p) ?ps) \<le>
      length (filter (nv_fits b cls m bs) ?ps)"
    using length_filter_le [of "\<lambda>p. \<not> is_held allocated p" "filter (nv_fits b cls m bs) ?ps"] by simp
  then show "cAvailable (EvaluateNvidiaSlices slices allocated b cls m bs) \<le>
      cDevices (EvaluateNvidiaSlices slices allocated b cls m bs)"
    by (simp add: EvaluateNvidiaSlices_counts)
  show "cShortfall (EvaluateNvidiaSlices slices allocated b cls m bs) = [] \<longleftrightarrow>
      cDevices (EvaluateNvidiaSlices slices allocated b cls m bs) \<noteq> 0"
    by (simp add: EvaluateNvidiaSlices_scan nv_scan_result_def nv_shortfall_def Let_def)
  have start: "tBestMsg nv_scan_start = []" by (simp add: nv_scan_start_def)
  have "tBestMsg ?st = [] \<or> (\<exists>s. tBestMsg ?st = ''closest NVIDIA device '' @ s)"
    using nv.message_origin [where t = nv_scan_start and ps = ?ps and allocated = allocated
        and b = b and cls = cls and m = m and bs = bs, unfolded start]
    by (elim disjE exE conjE) (simp, drule nv_miss_message, simp)
  then have "has_prefix (nv_shortfall bs ?st) ''unknown NVIDIA board(s) '' \<longleftrightarrow> nUnknown ?st \<noteq> []"
    by (auto simp: nv_shortfall_def Let_def has_prefix_def)
  moreover have "nUnknown ?st \<noteq> [] \<longleftrightarrow> (\<exists>p \<in> set ?ps. nv_unknown cls bs (snd p))"
    using nUnknown_fold [of allocated b cls m bs ?ps nv_scan_start]
    by (auto simp: nv_scan_start_def simp flip: set_empty)
  ultimately show "has_prefix (cShortfall (EvaluateNvidiaSlices slices allocated b cls m bs))
      ''unknown NVIDIA board(s) '' \<longleftrightarrow>
    cDevices (EvaluateNvidiaSlices slices allocated b cls m bs) = 0 \<and>
    (\<exists>p \<in> set ?ps. nv_unknown cls bs (snd p))"
    by (simp add: EvaluateNvidiaSlices_scan nv_scan_result_def has_prefix_def)
qed

text \<open>
  The memory floor is what hides a missing capacity.  When the resolved memory floor is
  0, a full GPU that publishes no memory capacity is counted by the evaluation, although
  the selector requires the capacity to be there.
\<close>

theorem missing_capacity_counted:
  assumes "MemoryGi b = 0" "nv_type d = ''gpu''" "cls = nvidiaGPUClass"
    and "ByProductName bs (nv_product d) = Some board" "gpuAdmits board b m"
    and "Capacity d ''memory'' = None"
    and "current_devices slices NvidiaDriverDomain = [(sl, d)]"
  shows "cDevices (EvaluateNvidiaSlices slices allocated b cls m bs) = 1 \<and>
    \<not> selects NvidiaDriverDomain (nvidia_expr b bs cls m) d"
proof
  have "nvidiaMemFloorMiB b = 0"
    using assms(1) by (simp add: nvidiaMemFloorMiB_exact)
  with assms show "cDevices (EvaluateNvidiaSlices slices allocated b cls m bs) = 1"
    by (simp add: EvaluateNvidiaSlices_counts nv_fits_def nv_skipped_def nvidiaBranchesFor_def
        nv_memOK_def nv_feasible_def nv_mem_def nv_threshold_def nv_smOK_def)
  show "\<not> selects NvidiaDriverDomain (nvidia_expr b bs cls m) d"
    unfolding selects_nvidia_expr using assms(6) by (simp add: board_admits_def mig_admits_iff full_admits_def)
qed

definition sample_bare_gpu :: device where
  "sample_bare_gpu =
     \<lparr>devName = ''gpu-0'',
      Attributes = map_of [(''type'', string_attr ''gpu''),
        (''productName'', string_attr ''NVIDIA A100-SXM4-80GB'')],
      Capacity = Map.empty, Taints = []\<rparr>"

theorem missing_capacity_counted_witness:
  "cDevices (EvaluateNvidiaSlices [sample_mig_slice\<lparr>Devices := [sample_bare_gpu]\<rparr>] (\<lambda>_. None)
     (sample_mig_bounds\<lparr>MemoryGi := 0\<rparr>) nvidiaGPUClass 0 shipped_boards) = 1"
proof (rule missing_capacity_counted [THEN conjunct1])
  show "ByProductName shipped_boards (nv_product sample_bare_gpu) =
      Some (snd (board_entry ''NVIDIA A100-SXM4-80GB'' 81920 2039 312 108 8))"
    by (simp add: ByProductName_def shipped_boards_def board_entry_def nv_product_def
        sample_bare_gpu_def str_of_def)
  show "current_devices [sample_mig_slice\<lparr>Devices := [sample_bare_gpu]\<rparr>] NvidiaDriverDomain =
      [(sample_mig_slice\<lparr>Devices := [sample_bare_gpu]\<rparr>, sample_bare_gpu)]"
    by (simp add: current_devices_def current_slice_def currentPoolGens_def sample_mig_slice_def)
qed (simp_all add: sample_mig_bounds_def nv_type_def sample_bare_gpu_def str_of_def gpuAdmits_def
    board_entry_def i64_of_u64_small nvidiaMemFloorMiB_exact)

end
