(* ===== verification/Template.thy ===== *)
theory Template
  imports FitCel Nvidia "HOL-Library.AList"
begin

text \<open>
  The rendering of a resolved claim into a ResourceClaimTemplate and the drift test
  (\<open>internal/modelclaim/template.go\<close>).  The template types are the \<open>resource.k8s.io/v1\<close>
  schema cut down to the fields the driver writes or compares.
\<close>

section \<open>The template object\<close>

record device_selector =
  CelExpression :: "string option"

record exact_request =
  reqClassName :: string
  Selectors :: "device_selector list"

record device_request =
  reqName :: string
  Exactly :: "exact_request option"

record owner_reference =
  ownerAPIVersion :: string
  ownerKind :: string
  ownerName :: string
  ownerUID :: string
  ownerController :: "bool option"
  ownerBlockDeletion :: "bool option"

record claim_template =
  tmplName :: string
  tmplNamespace :: string
  tmplLabels :: "(string \<times> string) list"
  Annotations :: "(string \<times> string) list"
  OwnerReferences :: "owner_reference list"
  Requests :: "device_request list"

section \<open>Rendering\<close>

definition trim_right_set :: "string \<Rightarrow> string \<Rightarrow> string" where
  \<comment> \<open>\<open>strings.TrimRight\<close> with an ASCII cut set\<close>
  "trim_right_set s cutset = rev (dropWhile (\<lambda>c. c \<in> set cutset) (rev s))"

definition labelValue :: "string \<Rightarrow> string" where
  "labelValue s = (if length s \<le> 63 then s else trim_right_set (take 63 s) ''-_.'')"

definition templateAnnotations ::
  "bounds \<Rightarrow> string \<Rightarrow> nvidia_boards option \<Rightarrow> (string \<times> string) list" where
  "templateAnnotations b targetDriver bs =
     [(''llmfit.ai/model'', bModel b), (''llmfit.ai/quant'', bQuant b),
      (''llmfit.ai/resolver-version'', ResolverVersion b),
      (''llmfit.ai/target-driver'', targetDriver)] @
     (case bs of
        Some t \<Rightarrow> if targetDriver = NvidiaDriverDomain
                  then [(''llmfit.ai/nvidia-boards-version'', version t)] else []
      | None \<Rightarrow> [])"

definition extra_selectors :: "string list \<Rightarrow> device_selector list" where
  "extra_selectors cels =
     map (\<lambda>s. \<lparr>CelExpression = Some s\<rparr>) (filter (\<lambda>s. s \<noteq> []) (map trim_space cels))"

definition template_target :: "string \<Rightarrow> model_claim \<Rightarrow> string" where
  "template_target cls mc =
     (if backendFor cls (TargetDriver (Spec mc)) = backendNvidia then NvidiaDriverDomain else DriverDomain)"

definition template_fit :: "model_claim \<Rightarrow> bounds \<Rightarrow> string \<Rightarrow> nvidia_boards \<Rightarrow> string" where
  "template_fit mc b cls bs =
     (if backendFor cls (TargetDriver (Spec mc)) = backendNvidia
      then NvidiaFitCEL b bs cls (computeFloor mc) else FitCEL b cls (computeFloor mc))"

definition BuildTemplate ::
  "model_claim \<Rightarrow> bounds \<Rightarrow> string \<Rightarrow> string list \<Rightarrow> nvidia_boards \<Rightarrow> claim_template" where
  "BuildTemplate mc b cls extraSelectors bs =
     \<lparr>tmplName = mcName mc,
      tmplNamespace = mcNamespace mc,
      tmplLabels = [(ManagedByLabel, labelValue (mcName mc))],
      Annotations = templateAnnotations b (template_target cls mc) (Some bs),
      OwnerReferences =
        [\<lparr>ownerAPIVersion = APIVersion, ownerKind = ModelClaimKind, ownerName = mcName mc,
          ownerUID = mcUID mc, ownerController = Some True, ownerBlockDeletion = Some True\<rparr>],
      Requests =
        [\<lparr>reqName = ''model'',
          Exactly = Some \<lparr>reqClassName = cls,
                          Selectors = \<lparr>CelExpression = Some (template_fit mc b cls bs)\<rparr> #
                                      extra_selectors extraSelectors\<rparr>\<rparr>]\<rparr>"

section \<open>Drift\<close>

definition selector_differs :: "device_selector \<Rightarrow> device_selector \<Rightarrow> bool" where
  "selector_differs ls ds \<longleftrightarrow>
     (if (CelExpression ls = None) \<noteq> (CelExpression ds = None) then True
      else CelExpression ls \<noteq> None \<and> CelExpression ls \<noteq> CelExpression ds)"

definition request_differs :: "device_request \<Rightarrow> device_request \<Rightarrow> bool" where
  "request_differs l d \<longleftrightarrow>
     (if reqName l \<noteq> reqName d then True
      else case (Exactly l, Exactly d) of
             (None, None) \<Rightarrow> False
           | (Some le, Some de) \<Rightarrow>
               if reqClassName le \<noteq> reqClassName de then True
               else if length (Selectors le) \<noteq> length (Selectors de) then True
               else list_ex (\<lambda>(ls, ds). selector_differs ls ds) (zip (Selectors le) (Selectors de))
           | _ \<Rightarrow> True)"

text \<open>A missing annotation reads as the empty string.\<close>

definition annotation :: "(string \<times> string) list \<Rightarrow> string \<Rightarrow> string" where
  "annotation as k = (case map_of as k of Some v \<Rightarrow> v | None \<Rightarrow> [])"

definition TemplateNeedsUpdate :: "claim_template \<Rightarrow> claim_template \<Rightarrow> bool" where
  "TemplateNeedsUpdate live desired \<longleftrightarrow>
     (if length (Requests live) \<noteq> length (Requests desired) then True
      else if list_ex (\<lambda>(l, d). request_differs l d) (zip (Requests live) (Requests desired)) then True
      else list_ex (\<lambda>(k, v). annotation (Annotations live) k \<noteq> v) (Annotations desired))"

text \<open>The object the controller writes over a drifted template.\<close>

definition merge_annotations :: "(string \<times> string) list \<Rightarrow> (string \<times> string) list \<Rightarrow> (string \<times> string) list" where
  "merge_annotations live desired = fold (\<lambda>(k, v) as. AList.update k v as) desired live"

definition updated_template :: "claim_template \<Rightarrow> claim_template \<Rightarrow> claim_template" where
  "updated_template live desired =
     live\<lparr>Requests := Requests desired,
          Annotations := merge_annotations (Annotations live) (Annotations desired)\<rparr>"

section \<open>Facts\<close>

lemma map_of_merge:
  "distinct (map fst desired) \<Longrightarrow>
     map_of (merge_annotations live desired) = map_of live ++ map_of desired"
proof (induction desired arbitrary: live)
  case (Cons kv desired)
  obtain k v where kv: "kv = (k, v)" by fastforce
  have "k \<notin> dom (map_of desired)" using Cons.prems by (simp add: kv dom_map_of_conv_image_fst)
  have "merge_annotations live (kv # desired) = merge_annotations (AList.update k v live) desired"
    by (simp add: merge_annotations_def kv)
  then have "map_of (merge_annotations live (kv # desired)) = (map_of live)(k \<mapsto> v) ++ map_of desired"
    using Cons by (simp add: update_conv')
  also have "\<dots> = map_of live ++ map_of (kv # desired)"
    using \<open>k \<notin> dom (map_of desired)\<close> by (simp add: kv map_add_upd_left)
  finally show ?case .
qed (simp add: merge_annotations_def)

lemma selector_differs_neq [simp]: "selector_differs = (\<lambda>ls ds. ls \<noteq> ds)"
proof (intro ext)
  fix ls ds
  show "selector_differs ls ds \<longleftrightarrow> ls \<noteq> ds"
    by (cases ls; cases ds; auto simp: selector_differs_def)
qed

lemma list_ex_zip_neq:
  "length xs = length ys \<Longrightarrow> list_ex (\<lambda>(x, y). x \<noteq> y) (zip xs ys) \<longleftrightarrow> xs \<noteq> ys"
  by (induction xs ys rule: list_induct2) auto

lemma request_differs_neq [simp]: "request_differs = (\<lambda>l d. l \<noteq> d)"
proof (intro ext)
  fix l d
  have exact: "reqClassName x \<noteq> reqClassName y \<or> length (Selectors x) \<noteq> length (Selectors y) \<or>
      list_ex (\<lambda>(ls, ds). ls \<noteq> ds) (zip (Selectors x) (Selectors y)) \<longleftrightarrow> x \<noteq> y" for x y :: exact_request
    using list_ex_zip_neq [of "Selectors x" "Selectors y"] by (cases x; cases y) auto
  have "request_differs l d \<longleftrightarrow> reqName l \<noteq> reqName d \<or> Exactly l \<noteq> Exactly d"
    using exact by (auto simp: request_differs_def split: option.splits)
  then show "request_differs l d \<longleftrightarrow> l \<noteq> d" by (cases l; cases d) simp
qed

lemma TemplateNeedsUpdate_iff:
  "TemplateNeedsUpdate live desired \<longleftrightarrow>
     Requests live \<noteq> Requests desired \<or>
     (\<exists>(k, v) \<in> set (Annotations desired). annotation (Annotations live) k \<noteq> v)"
  using list_ex_zip_neq [of "Requests live" "Requests desired"]
  by (auto simp: TemplateNeedsUpdate_def list_ex_iff)

lemma distinct_template_annotations: "distinct (map fst (templateAnnotations b t bs))"
  by (auto simp: templateAnnotations_def split: option.splits)

lemma annotation_merge:
  assumes "distinct (map fst desired)"
  shows "annotation (merge_annotations live desired) k =
    (case map_of desired k of Some v \<Rightarrow> v | None \<Rightarrow> annotation live k)"
  using assms by (auto simp: annotation_def map_of_merge map_add_def split: option.splits)

lemma distinct_built_annotations: "distinct (map fst (Annotations (BuildTemplate mc b cls extra bs)))"
  by (simp add: BuildTemplate_def distinct_template_annotations)

lemma template_update_settles:
  "\<not> TemplateNeedsUpdate (updated_template live (BuildTemplate mc b cls extra bs)) (BuildTemplate mc b cls extra bs) \<and>
   \<not> TemplateNeedsUpdate (BuildTemplate mc b cls extra bs) (BuildTemplate mc b cls extra bs)"
proof -
  let ?t = "BuildTemplate mc b cls extra bs"
  have own: "map_of (Annotations ?t) k = Some v" if "(k, v) \<in> set (Annotations ?t)" for k v
    using that distinct_built_annotations by simp
  have "\<not> TemplateNeedsUpdate (updated_template live ?t) ?t"
    by (auto simp: TemplateNeedsUpdate_iff updated_template_def
        annotation_merge [OF distinct_built_annotations] dest!: own)
  moreover have "\<not> TemplateNeedsUpdate ?t ?t"
    by (auto simp: TemplateNeedsUpdate_iff annotation_def dest!: own)
  ultimately show ?thesis ..
qed

section \<open>Properties\<close>

text \<open>
  An update converges.  After the controller has written the desired spec and merged the
  desired annotations, or has recreated the template, the drift test finds nothing to do; and
  the merge keeps every annotation it does not manage.
\<close>

theorem template_update_converges:
  "\<not> TemplateNeedsUpdate (updated_template live (BuildTemplate mc b cls extra bs)) (BuildTemplate mc b cls extra bs) \<and>
   \<not> TemplateNeedsUpdate (BuildTemplate mc b cls extra bs) (BuildTemplate mc b cls extra bs) \<and>
   (map_of (Annotations (BuildTemplate mc b cls extra bs)) k = None \<longrightarrow>
      annotation (Annotations (updated_template live (BuildTemplate mc b cls extra bs))) k =
      annotation (Annotations live) k)"
  using template_update_settles [of live mc b cls extra bs] annotation_merge [OF distinct_built_annotations]
  by (simp add: updated_template_def)

definition sample_claim :: model_claim where
  "sample_claim =
     \<lparr>mcName = ''qwen3'', mcNamespace = ''default'', mcUID = ''uid-1'', mcGeneration = 1,
      Spec = \<lparr>Model = ''Qwen/Qwen3-30B-A3B'', MinTps = Some 20, Quant = [], EfficiencyPct = None,
              DeviceClassName = gpuClass, TargetDriver = [], MinComputeTFLOPS = None,
              ExtraSelectors = []\<rparr>,
      Status = \<lparr>ObservedGeneration = 0, ResolvedField = None, TemplateRef = None,
                CandidatesField = None, Conditions = []\<rparr>\<rparr>"

theorem template_update_converges_witness:
  "annotation (Annotations (updated_template
      ((BuildTemplate sample_claim sample_mig_bounds gpuClass [] shipped_boards)
         \<lparr>Annotations := [(''team'', ''ml''), (''llmfit.ai/quant'', ''Q8_0'')]\<rparr>)
      (BuildTemplate sample_claim sample_mig_bounds gpuClass [] shipped_boards))) ''team'' = ''ml''"
proof -
  let ?t = "BuildTemplate sample_claim sample_mig_bounds gpuClass [] shipped_boards"
  have "map_of (Annotations ?t) ''team'' = None"
    by (simp add: BuildTemplate_def templateAnnotations_def template_target_def backendFor_def
        sample_claim_def)
  then have "annotation (Annotations (updated_template
      (?t\<lparr>Annotations := [(''team'', ''ml''), (''llmfit.ai/quant'', ''Q8_0'')]\<rparr>) ?t)) ''team'' =
    annotation (Annotations (?t\<lparr>Annotations := [(''team'', ''ml''), (''llmfit.ai/quant'', ''Q8_0'')]\<rparr>)) ''team''"
    using template_update_converges by blast
  then show ?thesis by (simp add: annotation_def)
qed

text \<open>
  No drift goes unseen.  When the drift test passes, the live template carries exactly the
  rendered request and every managed annotation; in particular on the NVIDIA backend the
  version of the board table it was rendered from.
\<close>

theorem no_drift_unseen:
  assumes "\<not> TemplateNeedsUpdate live (BuildTemplate mc b cls extra bs)"
  shows "Requests live = Requests (BuildTemplate mc b cls extra bs) \<and>
     annotation (Annotations live) ''llmfit.ai/model'' = bModel b \<and>
     annotation (Annotations live) ''llmfit.ai/quant'' = bQuant b \<and>
     annotation (Annotations live) ''llmfit.ai/resolver-version'' = ResolverVersion b \<and>
     annotation (Annotations live) ''llmfit.ai/target-driver'' = template_target cls mc \<and>
     (template_target cls mc = NvidiaDriverDomain \<longrightarrow>
        annotation (Annotations live) ''llmfit.ai/nvidia-boards-version'' = version bs)"
  using assms by (auto simp: TemplateNeedsUpdate_iff BuildTemplate_def templateAnnotations_def)

theorem no_drift_unseen_witness:
  "annotation (Annotations (BuildTemplate sample_claim sample_mig_bounds nvidiaMIGClass [] shipped_boards))
     ''llmfit.ai/nvidia-boards-version'' = ''shipped''"
proof -
  let ?t = "BuildTemplate sample_claim sample_mig_bounds nvidiaMIGClass [] shipped_boards"
  have "\<not> TemplateNeedsUpdate ?t ?t"
    by (auto simp: TemplateNeedsUpdate_iff BuildTemplate_def templateAnnotations_def annotation_def)
  from no_drift_unseen [OF this]
  have "template_target nvidiaMIGClass sample_claim = NvidiaDriverDomain \<longrightarrow>
      annotation (Annotations ?t) ''llmfit.ai/nvidia-boards-version'' = version shipped_boards" by blast
  then show ?thesis
    by (simp add: template_target_def backendFor_def sample_claim_def shipped_boards_def
        nvidiaMIGClass_def nvidiaGPUClass_def NvidiaDriverDomain_def)
qed

text \<open>
  The rendered request.  A template has one request of the claim's class; its first
  selector is the rendering of the backend's fit expression and the others are the
  claim's extra selectors without surrounding space, the blank ones dropped.
\<close>

theorem template_request:
  "Requests (BuildTemplate mc b cls extra bs) =
     [\<lparr>reqName = ''model'',
       Exactly = Some \<lparr>reqClassName = cls,
         Selectors = \<lparr>CelExpression = Some (render
             (if backendFor cls (TargetDriver (Spec mc)) = backendNvidia
              then nvidia_expr b bs cls (computeFloor mc) else fit_expr b cls (computeFloor mc)))\<rparr> #
           [\<lparr>CelExpression = Some (trim_space s)\<rparr>. s \<leftarrow> extra, trim_space s \<noteq> []]\<rparr>\<rparr>]"
proof -
  have "extra_selectors extra = [\<lparr>CelExpression = Some (trim_space s)\<rparr>. s \<leftarrow> extra, trim_space s \<noteq> []]"
    by (induction extra) (auto simp: extra_selectors_def)
  then show ?thesis
    by (simp add: BuildTemplate_def template_fit_def NvidiaFitCEL_is_render FitCEL_is_render)
qed

text \<open>
  The ownership label is always a valid label value: at most 63 bytes, a prefix of the
  claim's name, and for a name that starts with a letter or digit neither empty nor, when cut,
  ending in a separator.
\<close>

theorem label_value_valid:
  assumes "s \<noteq> []" "hd s \<notin> set ''-_.''"
  shows "length (labelValue s) \<le> 63 \<and> (\<exists>t. s = labelValue s @ t) \<and> labelValue s \<noteq> [] \<and>
    (length s \<le> 63 \<or> last (labelValue s) \<notin> set ''-_.'')"
proof (cases "length s \<le> 63")
  case True
  with assms show ?thesis by (simp add: labelValue_def)
next
  case False
  define w where "w = take 63 s"
  have label: "labelValue s = rev (dropWhile (\<lambda>c. c \<in> set ''-_.'') (rev w))"
    using False by (simp add: labelValue_def trim_right_set_def w_def)
  have w: "w \<noteq> []" "hd w = hd s" using assms(1) by (simp_all add: w_def hd_take)
  have "rev w = takeWhile (\<lambda>c. c \<in> set ''-_.'') (rev w) @ dropWhile (\<lambda>c. c \<in> set ''-_.'') (rev w)"
    by (simp only: takeWhile_dropWhile_id)
  then have split: "w = labelValue s @ rev (takeWhile (\<lambda>c. c \<in> set ''-_.'') (rev w))"
    unfolding label by (metis rev_append rev_rev_ident)
  have "hd w \<in> set (rev w)" using hd_in_set [OF w(1)] by simp
  then have "dropWhile (\<lambda>c. c \<in> set ''-_.'') (rev w) \<noteq> []"
    using assms(2) w(2) by (metis dropWhile_eq_Nil_conv)
  then have ne: "labelValue s \<noteq> []" "last (labelValue s) \<notin> set ''-_.''"
    unfolding label using hd_dropWhile [of "\<lambda>c. c \<in> set ''-_.''" "rev w"]
    by (simp_all only: rev_is_Nil_conv last_rev not_False_eq_True simp_thms)
  have "length (labelValue s) \<le> length w" using split by (metis length_append le_add1)
  moreover have "length w \<le> 63" by (simp add: w_def)
  moreover have "s = labelValue s @ (rev (takeWhile (\<lambda>c. c \<in> set ''-_.'') (rev w)) @ drop 63 s)"
    using split by (metis append.assoc append_take_drop_id w_def)
  ultimately show ?thesis using ne by (metis order_trans)
qed

theorem label_value_valid_witness:
  "length (labelValue (replicate 62 (CHR ''a'') @ ''-b'')) \<le> 63 \<and>
   last (labelValue (replicate 62 (CHR ''a'') @ ''-b'')) \<notin> set ''-_.''"
  using label_value_valid [of "replicate 62 (CHR ''a'') @ ''-b''"] by auto

end
