(* ===== verification/Store.thy ===== *)
theory Store
  imports Prelude "HOL-Library.AList"
begin

text \<open>
  The contracts of the driver's keyed stores.  A \<open>keyed_cache\<close> returns what was put last
  under a key and may forget the other keys; a \<open>keyed_store\<close> forgets nothing and can delete.
  The controller's two bounded maps, the prepared-device inventory and the directory of CDI
  specs interpret them.
\<close>

locale keyed_cache =
  fixes get :: "'s \<Rightarrow> 'k \<Rightarrow> 'v option"
    and put :: "'k \<Rightarrow> 'v \<Rightarrow> 's \<Rightarrow> 's"
  assumes get_put_same: "get (put k v s) k = Some v"
    and get_put_other: "k' \<noteq> k \<Longrightarrow> get (put k v s) k' = get s k' \<or> get (put k v s) k' = None"
begin

text \<open>Every entry satisfies a predicate of its key and value.\<close>

definition all_entries :: "('k \<Rightarrow> 'v \<Rightarrow> bool) \<Rightarrow> 's \<Rightarrow> bool" where
  "all_entries P s \<longleftrightarrow> (\<forall>k v. get s k = Some v \<longrightarrow> P k v)"

lemma all_entries_put: "all_entries P s \<Longrightarrow> P k v \<Longrightarrow> all_entries P (put k v s)"
  unfolding all_entries_def by (metis get_put_other get_put_same option.distinct(1) option.inject)

lemma all_entriesD: "all_entries P s \<Longrightarrow> get s k = Some v \<Longrightarrow> P k v"
  by (simp add: all_entries_def)

text \<open>An entry found after a series of puts was there before or is one of those put.\<close>

lemma get_after_puts:
  "get (fold (\<lambda>(k, v). put k v) kvs s) k = Some v \<Longrightarrow> get s k = Some v \<or> (k, v) \<in> set kvs"
proof (induction kvs arbitrary: s)
  case (Cons kv kvs)
  obtain k' v' where kv: "kv = (k', v')" by fastforce
  from Cons have "get (put k' v' s) k = Some v \<or> (k, v) \<in> set kvs" by (simp add: kv)
  then show ?case
    using get_put_same [of k' v' s] get_put_other [of k k' v' s] by (cases "k = k'") (auto simp: kv)
qed simp

end

locale keyed_store = keyed_cache get put
  for get :: "'s \<Rightarrow> 'k \<Rightarrow> 'v option" and put :: "'k \<Rightarrow> 'v \<Rightarrow> 's \<Rightarrow> 's" +
  fixes del :: "'k \<Rightarrow> 's \<Rightarrow> 's"
  assumes put_keeps_other: "k' \<noteq> k \<Longrightarrow> get (put k v s) k' = get s k'"
    and get_del_same: "get (del k s) k = None"
    and del_keeps_other: "k' \<noteq> k \<Longrightarrow> get (del k s) k' = get s k'"
begin

lemma get_put: "get (put k v s) k' = (if k' = k then Some v else get s k')"
  by (simp add: get_put_same put_keeps_other)

lemma get_del: "get (del k s) k' = (if k' = k then None else get s k')"
  by (simp add: get_del_same del_keeps_other)

lemma del_again: "get (del k (del k s)) = get (del k s)"
  by (simp add: fun_eq_iff get_del)

lemma put_then_del: "get (del k (put k v s)) = get (del k s)"
  by (simp add: fun_eq_iff get_del get_put)

lemma del_unused: "get s k = None \<Longrightarrow> get (del k s) = get s"
  by (auto simp: fun_eq_iff get_del)

text \<open>Deleting a list of keys removes exactly those.\<close>

lemma get_dels: "get (fold del ks s) k = (if k \<in> set ks then None else get s k)"
  by (induction ks arbitrary: s) (auto simp: get_del)

end

text \<open>Association lists are a keyed store.\<close>

interpretation alist: keyed_store "map_of" "AList.update" "AList.delete"
  by unfold_locales (simp_all add: update_conv' delete_conv')

lemma length_alist_update: "length (AList.update k v xs) \<le> Suc (length xs)"
  by (induction xs) auto

end
