(* ===== verification/Memo.thy ===== *)
theory Memo
  imports ClaimApi Store
begin

text \<open>
  The controller's two bounded memories (\<open>internal/modelclaim/controller.go\<close>, \<open>events.go\<close>):
  the cache of resolved bounds and the record of the last event per object and reason.  Both
  are maps guarded by a lock and emptied when they reach a cap; the model is the sequence of
  their critical sections.  Times are nanoseconds.
\<close>

section \<open>Model references\<close>

definition alnum :: "char \<Rightarrow> bool" where
  "alnum c \<longleftrightarrow> is_digit c \<or> (65 \<le> (of_char c :: nat) \<and> (of_char c :: nat) \<le> 90) \<or>
     (97 \<le> (of_char c :: nat) \<and> (of_char c :: nat) \<le> 122)"

definition ref_segment :: "string \<Rightarrow> bool" where
  "ref_segment s \<longleftrightarrow> s \<noteq> [] \<and> alnum (hd s) \<and> list_all (\<lambda>c. alnum c \<or> c \<in> set ''._-'') (tl s)"

definition modelRefPattern :: "string \<Rightarrow> bool" where
  \<comment> \<open>one segment, or two with a slash between them\<close>
  "modelRefPattern s \<longleftrightarrow>
     length (split_on (CHR ''/'') s) \<le> 2 \<and> list_all ref_segment (split_on (CHR ''/'') s)"

section \<open>The cache of resolved bounds\<close>

type_synonym resolve_cache = "(string \<times> bounds \<times> int) list"

definition resolveCacheTTL :: int where "resolveCacheTTL = 600 * 10 ^ 9"

definition resolve_key :: "string \<Rightarrow> rat \<Rightarrow> string \<Rightarrow> int \<Rightarrow> string" where
  "resolve_key model minTps quant efficiency =
     model @ ''|'' @ format_f64 minTps @ ''|'' @ quant @ ''|'' @ show_int efficiency"

definition cached_bounds :: "int \<Rightarrow> string \<Rightarrow> resolve_cache \<Rightarrow> bounds option" where
  "cached_bounds now key cache =
     (case map_of cache key of
        Some (b, expires) \<Rightarrow> if now < expires then Some b else None
      | None \<Rightarrow> None)"

definition cache_put :: "string \<Rightarrow> bounds \<times> int \<Rightarrow> resolve_cache \<Rightarrow> resolve_cache" where
  "cache_put key e cache = AList.update key e (if length cache \<ge> 512 then [] else cache)"

text \<open>
  One call of \<open>resolve\<close>: the result, what the duration metric counts it as, the cache and the
  state of the world the resolver runs in.
\<close>

type_synonym 'w resolver = "string \<Rightarrow> rat \<Rightarrow> string \<Rightarrow> int \<Rightarrow> 'w \<Rightarrow> bounds result \<times> 'w"

definition resolve ::
  "'w resolver \<Rightarrow> int \<Rightarrow> string \<Rightarrow> rat \<Rightarrow> string \<Rightarrow> int \<Rightarrow> resolve_cache \<times> 'w \<Rightarrow>
     bounds result \<times> string \<times> resolve_cache \<times> 'w" where
  "resolve resolver now model minTps quant efficiency = (\<lambda>(cache, w).
     case cached_bounds now (resolve_key model minTps quant efficiency) cache of
       Some b \<Rightarrow> (Inr b, ''cached'', cache, w)
     | None \<Rightarrow>
         (case resolver model minTps quant efficiency w of
            (Inl err, w') \<Rightarrow> (Inl err, ''error'', cache, w')
          | (Inr b, w') \<Rightarrow>
              (Inr b, ''ok'',
               cache_put (resolve_key model minTps quant efficiency) (b, now + resolveCacheTTL) cache, w')))"

section \<open>Events\<close>

record core_event =
  evGenerateName :: string
  evNamespace :: string
  evObjectAPIVersion :: string
  evObjectKind :: string
  evObjectNamespace :: string
  evObjectName :: string
  evObjectUID :: string
  evType :: string
  evReason :: string
  evMessage :: string
  evFirst :: int
  evLast :: int
  evCount :: int
  evComponent :: string

definition eventFor :: "model_claim \<Rightarrow> string \<Rightarrow> string \<Rightarrow> string \<Rightarrow> int \<Rightarrow> core_event" where
  "eventFor mc type rsn message now =
     \<lparr>evGenerateName = mcName mc @ ''.'', evNamespace = mcNamespace mc,
      evObjectAPIVersion = APIVersion, evObjectKind = ModelClaimKind,
      evObjectNamespace = mcNamespace mc, evObjectName = mcName mc, evObjectUID = mcUID mc,
      evType = type, evReason = rsn, evMessage = message, evFirst = now, evLast = now, evCount = 1,
      evComponent = ''llmfit-dra-modelclaim''\<rparr>"

type_synonym last_events = "(string \<times> string) list"

definition event_key :: "model_claim \<Rightarrow> string \<Rightarrow> string" where
  "event_key mc rsn = mcNamespace mc @ ''/'' @ mcName mc @ ''/'' @ rsn"

text \<open>A key the map does not hold reads as the empty message.\<close>

definition last_message :: "last_events \<Rightarrow> string \<Rightarrow> string" where
  "last_message seen key = (case map_of seen key of Some m \<Rightarrow> m | None \<Rightarrow> [])"

definition event_put :: "string \<Rightarrow> string \<Rightarrow> last_events \<Rightarrow> last_events" where
  "event_put key message seen =
     (if length (AList.update key message seen) > 4096 then [(key, message)]
      else AList.update key message seen)"

definition event_step :: "model_claim \<Rightarrow> string \<Rightarrow> string \<Rightarrow> string \<Rightarrow> int \<Rightarrow> last_events \<Rightarrow>
    core_event option \<times> last_events" where
  \<comment> \<open>the event to create, if it is not suppressed\<close>
  "event_step mc type rsn message now seen =
     (if last_message seen (event_key mc rsn) = message then (None, seen)
      else (Some (eventFor mc type rsn message now), event_put (event_key mc rsn) message seen))"

section \<open>Both are keyed caches\<close>

interpretation resolved: keyed_cache map_of cache_put
  by unfold_locales (auto simp: cache_put_def update_conv')

interpretation announced: keyed_cache map_of event_put
  by unfold_locales (auto simp: event_put_def update_conv')

lemma cache_put_bounded: "length cache \<le> 512 \<Longrightarrow> length (cache_put key e cache) \<le> 512"
  using length_alist_update [of key e "if length cache \<ge> 512 then [] else cache"]
  by (auto simp: cache_put_def split: if_splits)

lemma event_put_bounded: "length seen \<le> 4096 \<Longrightarrow> length (event_put key m seen) \<le> 4096"
  by (simp add: event_put_def)

section \<open>The cache key\<close>

lemma split_at_separator:
  "a @ c # x = b @ c # y \<Longrightarrow> c \<notin> set a \<Longrightarrow> c \<notin> set b \<Longrightarrow> a = b \<and> x = y"
  by (induction a arbitrary: b; case_tac b) auto

lemma split_at_last_separator:
  "x @ c # a = y @ c # b \<Longrightarrow> c \<notin> set a \<Longrightarrow> c \<notin> set b \<Longrightarrow> x = y \<and> a = b"
  using split_at_separator [of "rev a" c "rev x" "rev b" "rev y"]
  by (metis append.assoc append_Cons append_Nil rev.simps(2) rev_append rev_rev_ident set_rev)

lemma bar_not_digit: "\<not> is_digit (CHR ''|'')"
  by (simp add: is_digit_def)

lemma format_f64_no_bar: "CHR ''|'' \<notin> set (format_f64 x)"
  by (auto simp: format_f64_def print_scaled_def print_decimal_def pad_left_def
      show_nat_no_char [OF bar_not_digit])

lemma show_int_no_bar: "CHR ''|'' \<notin> set (show_int i)"
  by (auto simp: show_int_def show_nat_no_char [OF bar_not_digit])

lemma split_on_parts: "set s \<subseteq> (\<Union>p \<in> set (split_on c s). set p) \<union> {c}"
proof (induction c s rule: split_on.induct)
  case (2 c x s)
  then show ?case by (cases "split_on c s") (auto split: list.splits)
qed simp

lemma model_no_bar: "modelRefPattern s \<Longrightarrow> CHR ''|'' \<notin> set s"
proof
  assume m: "modelRefPattern s" and "CHR ''|'' \<in> set s"
  then obtain p where p: "p \<in> set (split_on (CHR ''/'') s)" "CHR ''|'' \<in> set p"
    using split_on_parts [of s "CHR ''/''"] by auto
  then have "ref_segment p" using m by (auto simp: modelRefPattern_def list_all_iff)
  with p(2) show False
    by (cases p) (auto simp: ref_segment_def list_all_iff alnum_def is_digit_def)
qed

lemma resolve_key_inject:
  assumes "modelRefPattern m" "modelRefPattern m'" "resolve_key m t q e = resolve_key m' t' q' e'"
  shows "m = m' \<and> format_f64 t = format_f64 t' \<and> q = q' \<and> e = e'"
proof -
  from assms(3) have k: "m @ CHR ''|'' # (format_f64 t @ CHR ''|'' # (q @ CHR ''|'' # show_int e)) =
      m' @ CHR ''|'' # (format_f64 t' @ CHR ''|'' # (q' @ CHR ''|'' # show_int e'))"
    by (simp add: resolve_key_def)
  have 1: "m = m'" "format_f64 t @ CHR ''|'' # (q @ CHR ''|'' # show_int e) =
      format_f64 t' @ CHR ''|'' # (q' @ CHR ''|'' # show_int e')"
    using split_at_separator [OF k] assms(1,2) model_no_bar by blast+
  have 2: "format_f64 t = format_f64 t'" "q @ CHR ''|'' # show_int e = q' @ CHR ''|'' # show_int e'"
    using split_at_separator [OF 1(2)] format_f64_no_bar by blast+
  have "q = q' \<and> show_int e = show_int e'"
    by (rule split_at_last_separator [OF 2(2)]) (rule show_int_no_bar)+
  with 1 2 show ?thesis by simp
qed

section \<open>Histories of the cache\<close>

record resolve_call =
  rcNow :: int
  rcModel :: string
  rcMinTps :: rat
  rcQuant :: string
  rcEfficiency :: int

definition call_key :: "resolve_call \<Rightarrow> string" where
  "call_key c = resolve_key (rcModel c) (rcMinTps c) (rcQuant c) (rcEfficiency c)"

definition resolve_call :: "'w resolver \<Rightarrow> resolve_call \<Rightarrow> resolve_cache \<times> 'w \<Rightarrow>
    bounds result \<times> string \<times> resolve_cache \<times> 'w" where
  "resolve_call resolver c = resolve resolver (rcNow c) (rcModel c) (rcMinTps c) (rcQuant c) (rcEfficiency c)"

definition after_calls :: "'w resolver \<Rightarrow> resolve_call list \<Rightarrow> 'w \<Rightarrow> resolve_cache \<times> 'w" where
  "after_calls resolver cs w = fold (\<lambda>c s. snd (snd (resolve_call resolver c s))) cs ([], w)"

definition asked :: "'w resolver \<Rightarrow> resolve_call \<Rightarrow> 'w \<Rightarrow> bounds result" where
  \<comment> \<open>what the resolver itself answers to a call\<close>
  "asked resolver c w = fst (resolver (rcModel c) (rcMinTps c) (rcQuant c) (rcEfficiency c) w)"

lemma resolve_call_cases:
  assumes "resolve_call resolver c (cache, w) = (r, how, cache', w')"
  obtains (cached) b e where "map_of cache (call_key c) = Some (b, e)" "rcNow c < e" "r = Inr b"
      "cache' = cache" "w' = w"
  | (failed) err where "asked resolver c w = Inl err" "r = Inl err" "cache' = cache"
  | (fresh) b where "asked resolver c w = Inr b" "r = Inr b"
      "cache' = cache_put (call_key c) (b, rcNow c + resolveCacheTTL) cache"
proof (cases "cached_bounds (rcNow c) (call_key c) cache")
  case (Some b)
  then obtain e where "map_of cache (call_key c) = Some (b, e)" "rcNow c < e"
    by (auto simp: cached_bounds_def split: option.splits if_splits)
  moreover have "r = Inr b" "cache' = cache" "w' = w"
    using assms Some by (simp_all add: resolve_call_def resolve_def call_key_def)
  ultimately show thesis by (rule cached)
next
  case None
  obtain a w1 where a: "resolver (rcModel c) (rcMinTps c) (rcQuant c) (rcEfficiency c) w = (a, w1)"
    by fastforce
  show thesis
  proof (cases a)
    case (Inl err)
    show thesis
      by (rule failed [of err]) (use assms None a Inl in
          \<open>simp_all add: resolve_call_def resolve_def call_key_def asked_def\<close>)
  next
    case (Inr b)
    show thesis
      by (rule fresh [of b]) (use assms None a Inr in
          \<open>simp_all add: resolve_call_def resolve_def call_key_def asked_def\<close>)
  qed
qed

lemma after_calls_snoc:
  "after_calls resolver (cs @ [c]) w = snd (snd (resolve_call resolver c (after_calls resolver cs w)))"
  by (simp add: after_calls_def)

definition stored_by :: "'w resolver \<Rightarrow> 'w \<Rightarrow> resolve_call list \<Rightarrow> string \<Rightarrow> bounds \<times> int \<Rightarrow> bool" where
  "stored_by resolver w cs key entry \<longleftrightarrow>
     (\<exists>before c after. cs = before @ c # after \<and> call_key c = key \<and>
        asked resolver c (snd (after_calls resolver before w)) = Inr (fst entry) \<and>
        snd entry = rcNow c + resolveCacheTTL)"

lemma stored_by_snoc: "stored_by resolver w cs key entry \<Longrightarrow> stored_by resolver w (cs @ [c]) key entry"
  unfolding stored_by_def by (metis append.assoc append_Cons)

lemma cache_history:
  "resolved.all_entries (stored_by resolver w cs) (fst (after_calls resolver cs w)) \<and>
   length (fst (after_calls resolver cs w)) \<le> 512"
proof (induction cs rule: rev_induct)
  case Nil
  then show ?case by (simp add: after_calls_def resolved.all_entries_def)
next
  case (snoc c cs)
  obtain cache w1 where s: "after_calls resolver cs w = (cache, w1)" by fastforce
  obtain r how cache' w' where step: "resolve_call resolver c (cache, w1) = (r, how, cache', w')"
    by (metis prod_cases4)
  have old: "resolved.all_entries (stored_by resolver w (cs @ [c])) cache" "length cache \<le> 512"
    using snoc s by (auto simp: resolved.all_entries_def intro: stored_by_snoc)
  from step show ?case
  proof (cases rule: resolve_call_cases)
    case (fresh b)
    then have "stored_by resolver w (cs @ [c]) (call_key c) (b, rcNow c + resolveCacheTTL)"
      unfolding stored_by_def by (intro exI [of _ cs] exI [of _ c] exI [of _ "[]"]) (simp add: s)
    with fresh old show ?thesis
      by (simp add: after_calls_snoc s step resolved.all_entries_put cache_put_bounded)
  qed (simp_all add: after_calls_snoc s step old)
qed

definition answered_bounds :: bounds where
  "answered_bounds =
     \<lparr>bModel = ''Qwen/Qwen3'', ClaimName = ''q'', bQuant = ''Q4'', WeightsGb = 18, MemoryGi = 20,
      MinBandwidthGBs = 100, bMinTps = 20, bEfficiencyPct = 60, ResolverVersion = ''1.0''\<rparr>"

section \<open>Properties\<close>

text \<open>
  C38: the cache key stands for the question.  For models that pass validation, two calls have the
  same key exactly when model, printed speed, quantisation and efficiency are the same, although a
  quantisation may contain the separator; equal keys run the resolver binary with the same argument
  vector, and an entry stored for one call answers another exactly when it is the same question and the
  entry has not expired.
\<close>

theorem cache_key_sound:
  assumes "modelRefPattern m" "modelRefPattern m'"
  shows "(resolve_key m t q e = resolve_key m' t' q' e' \<longleftrightarrow>
       m = m' \<and> format_f64 t = format_f64 t' \<and> q = q' \<and> e = e') \<and>
    (resolve_key m t q e = resolve_key m' t' q' e' \<longrightarrow> resolver_args m t q e = resolver_args m' t' q' e') \<and>
    cached_bounds now (resolve_key m t q e) (cache_put (resolve_key m' t' q' e') (b, expires) cache) =
      (if m = m' \<and> format_f64 t = format_f64 t' \<and> q = q' \<and> e = e'
       then if now < expires then Some b else None
       else cached_bounds now (resolve_key m t q e) (if length cache \<ge> 512 then [] else cache))"
proof -
  have iff: "resolve_key m t q e = resolve_key m' t' q' e' \<longleftrightarrow>
      m = m' \<and> format_f64 t = format_f64 t' \<and> q = q' \<and> e = e'"
  proof
    assume "m = m' \<and> format_f64 t = format_f64 t' \<and> q = q' \<and> e = e'"
    then show "resolve_key m t q e = resolve_key m' t' q' e'" by (simp add: resolve_key_def)
  qed (rule resolve_key_inject [OF assms])
  have "m = m' \<and> format_f64 t = format_f64 t' \<and> q = q' \<and> e = e' \<longrightarrow>
      resolver_args m t q e = resolver_args m' t' q' e'"
    by (simp add: resolver_args_def)
  moreover have "cached_bounds now (resolve_key m t q e) (cache_put (resolve_key m' t' q' e') (b, expires) cache) =
      (if resolve_key m t q e = resolve_key m' t' q' e' then if now < expires then Some b else None
       else cached_bounds now (resolve_key m t q e) (if length cache \<ge> 512 then [] else cache))"
    by (simp add: cached_bounds_def cache_put_def update_conv')
  ultimately show ?thesis unfolding iff by (intro conjI refl)
qed

theorem cache_key_sound_witness:
  "resolve_key ''Qwen/Qwen3'' 20 ''Q4|1'' 0 \<noteq> resolve_key ''Qwen/Qwen3'' 20 ''Q4'' 10 \<and>
   cached_bounds 0 (resolve_key ''Qwen/Qwen3'' 20 ''Q4'' 10)
     (cache_put (resolve_key ''Qwen/Qwen3'' 20 ''Q4|1'' 0) (answered_bounds, resolveCacheTTL) []) = None \<and>
   cached_bounds 0 (resolve_key ''Qwen/Qwen3'' 20 ''Q4|1'' 0)
     (cache_put (resolve_key ''Qwen/Qwen3'' 20 ''Q4|1'' 0) (answered_bounds, resolveCacheTTL) []) =
     Some answered_bounds"
proof -
  have valid: "modelRefPattern ''Qwen/Qwen3''"
    by (simp add: modelRefPattern_def ref_segment_def alnum_def is_digit_def)
  show ?thesis
    using cache_key_sound [OF valid valid, of 20 "''Q4|1''" 0 20 "''Q4''" 10]
      cache_key_sound [OF valid valid, of 20 "''Q4''" 10 20 "''Q4|1''" 0 0 answered_bounds resolveCacheTTL "[]"]
      cache_key_sound [OF valid valid, of 20 "''Q4|1''" 0 20 "''Q4|1''" 0 0 answered_bounds resolveCacheTTL "[]"]
    by (simp add: cached_bounds_def resolveCacheTTL_def)
qed

text \<open>
  Resolved bounds are right and recent.  Whatever the history of calls, the bounds of a
  successful call are what the resolver answered, in the history or now, to a call of the same
  key, less than the time to live before; errors are never served from the cache; and the cache
  never holds more than 512 entries.
\<close>

theorem resolved_bounds_recent:
  assumes "resolve_call resolver c (after_calls resolver cs w) = (r, how, cache', w')"
  shows "(case r of
      Inr b \<Rightarrow> \<exists>before c' after. cs @ [c] = before @ c' # after \<and> call_key c' = call_key c \<and>
        asked resolver c' (snd (after_calls resolver before w)) = Inr b \<and>
        rcNow c < rcNow c' + resolveCacheTTL
    | Inl err \<Rightarrow> asked resolver c (snd (after_calls resolver cs w)) = Inl err) \<and>
    length cache' \<le> 512"
proof -
  obtain cache w1 where s: "after_calls resolver cs w = (cache, w1)" by fastforce
  have size: "length cache' \<le> 512"
    using cache_history [of resolver w "cs @ [c]"] assms by (simp add: after_calls_snoc)
  have ttl: "0 < resolveCacheTTL" by (simp add: resolveCacheTTL_def)
  from assms [unfolded s] show ?thesis
  proof (cases rule: resolve_call_cases)
    case (cached b e)
    have "resolved.all_entries (stored_by resolver w cs) cache"
      using cache_history [of resolver w cs] by (simp add: s)
    then have "stored_by resolver w cs (call_key c) (b, e)"
      using cached(1) by (rule resolved.all_entriesD)
    then obtain before c' after where h: "cs = before @ c' # after" "call_key c' = call_key c"
        "asked resolver c' (snd (after_calls resolver before w)) = Inr b" "e = rcNow c' + resolveCacheTTL"
      unfolding stored_by_def by auto
    with cached have "cs @ [c] = before @ c' # (after @ [c])" "rcNow c < rcNow c' + resolveCacheTTL"
      by simp_all
    then have "\<exists>before c' after. cs @ [c] = before @ c' # after \<and> call_key c' = call_key c \<and>
        asked resolver c' (snd (after_calls resolver before w)) = Inr b \<and>
        rcNow c < rcNow c' + resolveCacheTTL"
      using h(2,3) by (intro exI conjI)
    with size cached(3) show ?thesis by (simp only: sum.case simp_thms)
  next
    case (failed err)
    with size show ?thesis by (simp add: s)
  next
    case (fresh b)
    with ttl have "cs @ [c] = cs @ c # []" "rcNow c < rcNow c + resolveCacheTTL"
        "asked resolver c (snd (after_calls resolver cs w)) = Inr b"
      by (simp_all add: s)
    then have "\<exists>before c' after. cs @ [c] = before @ c' # after \<and> call_key c' = call_key c \<and>
        asked resolver c' (snd (after_calls resolver before w)) = Inr b \<and>
        rcNow c < rcNow c' + resolveCacheTTL"
      by (intro exI conjI) (assumption | rule refl)+
    with size fresh(2) show ?thesis by (simp only: sum.case simp_thms)
  qed
qed

definition sample_call :: "int \<Rightarrow> resolve_call" where
  "sample_call now =
     \<lparr>rcNow = now, rcModel = ''Qwen/Qwen3'', rcMinTps = 20, rcQuant = [], rcEfficiency = 0\<rparr>"

text \<open>A resolver that answers once and fails ever after: the second call is served from the cache.\<close>

definition sample_resolver :: "nat resolver" where
  "sample_resolver model tps quant eff n =
     (if n = 0 then Inr answered_bounds else Inl ''no model database'', Suc n)"

theorem resolved_bounds_recent_witness:
  "\<exists>r how cache' w'. resolve_call sample_resolver (sample_call 5) (after_calls sample_resolver [sample_call 0] 0) =
      (r, how, cache', w') \<and> r = Inr answered_bounds \<and> how = ''cached'' \<and> length cache' \<le> 512"
proof -
  let ?s = "after_calls sample_resolver [sample_call 0] 0"
  have s: "?s = ([(call_key (sample_call 0), answered_bounds, resolveCacheTTL)], Suc 0)"
    by (simp add: after_calls_def resolve_call_def resolve_def cached_bounds_def cache_put_def
        sample_resolver_def call_key_def sample_call_def)
  have "resolve_call sample_resolver (sample_call 5) ?s =
      (Inr answered_bounds, ''cached'', [(call_key (sample_call 0), answered_bounds, resolveCacheTTL)], Suc 0)"
    unfolding s by (simp add: resolve_call_def resolve_def cached_bounds_def call_key_def sample_call_def
        resolveCacheTTL_def)
  from this resolved_bounds_recent [OF this] show ?thesis by blast
qed

text \<open>
  An event is emitted once until something else happens.  Repeating an event at once is
  suppressed and changes nothing; an event with another message is emitted and remembered; and
  the memory of events stays within its cap.
\<close>

theorem repeated_events_suppressed:
  assumes "event_step mc type rsn message now seen = (ev, seen')" "length seen \<le> 4096"
  shows "event_step mc type rsn message later seen' = (None, seen') \<and> length seen' \<le> 4096 \<and>
    (case ev of
       None \<Rightarrow> seen' = seen \<and> last_message seen (event_key mc rsn) = message
     | Some e \<Rightarrow> e = eventFor mc type rsn message now \<and> last_message seen' (event_key mc rsn) = message)"
  using assms announced.get_put_same [of "event_key mc rsn" message seen]
  by (auto simp: event_step_def last_message_def event_put_bounded split: if_splits)

end
