(* ===== verification/Controller.thy ===== *)
theory Controller
  imports Memo Template Satisfiable SatisfiableNvidia
begin

text \<open>
  The ModelClaim controller (\<open>internal/modelclaim/controller.go\<close>): one reconcile of a
  ModelClaim into its ResourceClaimTemplate and status, what a queue item is answered with, and
  which informer events wake the controller.

  The Kubernetes libraries and the API server are parameters: \<open>library\<close> holds the helpers the
  code calls, \<open>api\<close> the server's answers, each a function of a state \<open>'w\<close> of the world.  The
  controller's own state is its two memories; next to them the model keeps the log of the calls
  made so far.  A reconcile reads the clock once.
\<close>

section \<open>The libraries and the API server\<close>

datatype api_error =
  NotFoundError string | InvalidError string | ConflictError string | OtherError string

fun error_text :: "api_error \<Rightarrow> string" where
  "error_text (NotFoundError e) = e"
| "error_text (InvalidError e) = e"
| "error_text (ConflictError e) = e"
| "error_text (OtherError e) = e"

record 'u library =
  SplitMetaNamespaceKey :: "string \<Rightarrow> (string \<times> string) option"
  MetaNamespaceKey :: "'u \<Rightarrow> string option"
  FromUnstructured :: "'u \<Rightarrow> model_claim result"
  ToUnstructured :: "model_claim \<Rightarrow> 'u result"
  NestedString :: "'u \<Rightarrow> string list \<Rightarrow> string"
  SetStatusCondition :: "condition \<Rightarrow> condition list \<Rightarrow> condition list"
  FindStatusCondition :: "condition list \<Rightarrow> string \<Rightarrow> condition option"
  IsControlledBy :: "claim_template \<Rightarrow> model_claim \<Rightarrow> bool"

record ('u, 'w) api =
  GetTemplate :: "string \<Rightarrow> string \<Rightarrow> 'w \<Rightarrow> (api_error + claim_template) \<times> 'w"
  CreateTemplate :: "string \<Rightarrow> claim_template \<Rightarrow> 'w \<Rightarrow> api_error option \<times> 'w"
  UpdateTemplate :: "string \<Rightarrow> claim_template \<Rightarrow> 'w \<Rightarrow> api_error option \<times> 'w"
  DeleteTemplate :: "string \<Rightarrow> string \<Rightarrow> 'w \<Rightarrow> api_error option \<times> 'w"
  GetClaim :: "string \<Rightarrow> string \<Rightarrow> 'w \<Rightarrow> (api_error + 'u) \<times> 'w"
  UpdateClaimStatus :: "string \<Rightarrow> 'u \<Rightarrow> 'w \<Rightarrow> api_error option \<times> 'w"
  CreateEvent :: "core_event \<Rightarrow> 'w \<Rightarrow> 'w"

datatype 'u api_call =
  GotTemplate string string "api_error + claim_template"
| CreatedTemplate string claim_template "api_error option"
| UpdatedTemplate string claim_template "api_error option"
| DeletedTemplate string string "api_error option"
| GotClaim string string "api_error + 'u"
| WroteStatus string 'u "api_error option"
| EmittedEvent core_event

record ('u, 'w) controller =
  World :: 'w
  resolveCache :: resolve_cache
  lastEvent :: last_events
  Calls :: "'u api_call list"

definition get_template ::
  "('u, 'w) api \<Rightarrow> string \<Rightarrow> string \<Rightarrow> ('u, 'w) controller \<Rightarrow> (api_error + claim_template) \<times> ('u, 'w) controller" where
  "get_template api ns n c =
     (case GetTemplate api ns n (World c) of
        (r, w) \<Rightarrow> (r, c\<lparr>World := w, Calls := Calls c @ [GotTemplate ns n r]\<rparr>))"

definition create_template ::
  "('u, 'w) api \<Rightarrow> string \<Rightarrow> claim_template \<Rightarrow> ('u, 'w) controller \<Rightarrow> api_error option \<times> ('u, 'w) controller" where
  "create_template api ns t c =
     (case CreateTemplate api ns t (World c) of
        (r, w) \<Rightarrow> (r, c\<lparr>World := w, Calls := Calls c @ [CreatedTemplate ns t r]\<rparr>))"

definition update_template ::
  "('u, 'w) api \<Rightarrow> string \<Rightarrow> claim_template \<Rightarrow> ('u, 'w) controller \<Rightarrow> api_error option \<times> ('u, 'w) controller" where
  "update_template api ns t c =
     (case UpdateTemplate api ns t (World c) of
        (r, w) \<Rightarrow> (r, c\<lparr>World := w, Calls := Calls c @ [UpdatedTemplate ns t r]\<rparr>))"

definition delete_template ::
  "('u, 'w) api \<Rightarrow> string \<Rightarrow> string \<Rightarrow> ('u, 'w) controller \<Rightarrow> api_error option \<times> ('u, 'w) controller" where
  "delete_template api ns n c =
     (case DeleteTemplate api ns n (World c) of
        (r, w) \<Rightarrow> (r, c\<lparr>World := w, Calls := Calls c @ [DeletedTemplate ns n r]\<rparr>))"

definition get_claim ::
  "('u, 'w) api \<Rightarrow> string \<Rightarrow> string \<Rightarrow> ('u, 'w) controller \<Rightarrow> (api_error + 'u) \<times> ('u, 'w) controller" where
  "get_claim api ns n c =
     (case GetClaim api ns n (World c) of
        (r, w) \<Rightarrow> (r, c\<lparr>World := w, Calls := Calls c @ [GotClaim ns n r]\<rparr>))"

definition write_status ::
  "('u, 'w) api \<Rightarrow> string \<Rightarrow> 'u \<Rightarrow> ('u, 'w) controller \<Rightarrow> api_error option \<times> ('u, 'w) controller" where
  "write_status api ns u c =
     (case UpdateClaimStatus api ns u (World c) of
        (r, w) \<Rightarrow> (r, c\<lparr>World := w, Calls := Calls c @ [WroteStatus ns u r]\<rparr>))"

definition fromUnstructured :: "'u library \<Rightarrow> 'u \<Rightarrow> model_claim result" where
  "fromUnstructured lib u =
     (case FromUnstructured lib u of
        Inl e \<Rightarrow> Inl (''decoding ModelClaim: '' @ e) | Inr mc \<Rightarrow> Inr mc)"

section \<open>Events and status\<close>

definition event ::
  "('u, 'w) api \<Rightarrow> int \<Rightarrow> model_claim \<Rightarrow> string \<Rightarrow> reason \<Rightarrow> string \<Rightarrow>
     ('u, 'w) controller \<Rightarrow> ('u, 'w) controller" where
  "event api now mc type rsn message c =
     (case event_step mc type (reason_name rsn) message now (lastEvent c) of
        (None, seen) \<Rightarrow> c\<lparr>lastEvent := seen\<rparr>
      | (Some ev, seen) \<Rightarrow>
          c\<lparr>lastEvent := seen, World := CreateEvent api ev (World c),
            Calls := Calls c @ [EmittedEvent ev]\<rparr>)"

definition setCondition ::
  "'u library \<Rightarrow> int \<Rightarrow> string \<Rightarrow> condition_status \<Rightarrow> reason \<Rightarrow> string \<Rightarrow>
     model_claim_status \<Rightarrow> model_claim_status" where
  "setCondition lib generation type st rsn message status =
     status\<lparr>Conditions :=
       SetStatusCondition lib
         \<lparr>condType = type, condStatus = st, condReason = reason_name rsn, condMessage = message,
          condGeneration = generation\<rparr> (Conditions status)\<rparr>"

definition conditionReason :: "'u library \<Rightarrow> model_claim \<Rightarrow> string \<Rightarrow> string" where
  "conditionReason lib mc type =
     (case FindStatusCondition lib (Conditions (Status mc)) type of
        Some cond \<Rightarrow> condReason cond | None \<Rightarrow> [])"

definition status_written :: "api_error option \<Rightarrow> string option" where
  \<comment> \<open>a conflict is not an error: the informer's next event requeues\<close>
  "status_written r =
     (case r of None \<Rightarrow> None | Some (ConflictError _) \<Rightarrow> None | Some e \<Rightarrow> Some (error_text e))"

definition updateStatus ::
  "'u library \<Rightarrow> ('u, 'w) api \<Rightarrow> string \<Rightarrow> string \<Rightarrow> (model_claim_status \<Rightarrow> model_claim_status) \<Rightarrow>
     ('u, 'w) controller \<Rightarrow> string option \<times> ('u, 'w) controller" where
  "updateStatus lib api ns name mutate c =
     (case get_claim api ns name c of
        (Inl (NotFoundError _), c1) \<Rightarrow> (None, c1)
      | (Inl e, c1) \<Rightarrow> (Some (error_text e), c1)
      | (Inr fresh, c1) \<Rightarrow>
          (case fromUnstructured lib fresh of
             Inl e \<Rightarrow> (Some e, c1)
           | Inr mc \<Rightarrow>
               (case ToUnstructured lib (mc\<lparr>Status := mutate (Status mc)\<rparr>) of
                  Inl e \<Rightarrow> (Some (''encoding ModelClaim: '' @ e), c1)
                | Inr u \<Rightarrow> (case write_status api ns u c1 of (r, c2) \<Rightarrow> (status_written r, c2)))))"

definition refused ::
  "'u library \<Rightarrow> model_claim \<Rightarrow> reason \<Rightarrow> string \<Rightarrow> string \<Rightarrow> model_claim_status \<Rightarrow> model_claim_status" where
  \<comment> \<open>Resolved is False with the reason, Satisfiable Unknown for the same one\<close>
  "refused lib mc rsn message note status =
     setCondition lib (mcGeneration mc) ConditionSatisfiable ConditionUnknown rsn note
       (setCondition lib (mcGeneration mc) ConditionResolved ConditionFalse rsn message status)"

definition refuse ::
  "'u library \<Rightarrow> ('u, 'w) api \<Rightarrow> int \<Rightarrow> model_claim \<Rightarrow> string \<Rightarrow> string \<Rightarrow> reason \<Rightarrow> string \<Rightarrow> string \<Rightarrow>
     ('u, 'w) controller \<Rightarrow> string option \<times> ('u, 'w) controller" where
  "refuse lib api now mc ns name rsn message note c =
     updateStatus lib api ns name (refused lib mc rsn message note)
       (event api now mc ''Warning'' rsn message c)"

section \<open>The template\<close>

datatype template_outcome = TemplateReady | TemplateFailed string | NotManaged

definition recreate_template ::
  "('u, 'w) api \<Rightarrow> string \<Rightarrow> string \<Rightarrow> claim_template \<Rightarrow> ('u, 'w) controller \<Rightarrow>
     string option \<times> ('u, 'w) controller" where
  "recreate_template api ns name desired c =
     (case delete_template api ns name c of
        (Some e, c1) \<Rightarrow> (Some (''deleting immutable template for recreate: '' @ error_text e), c1)
      | (None, c1) \<Rightarrow>
          (case create_template api ns desired c1 of
             (Some e, c2) \<Rightarrow> (Some (''recreating template: '' @ error_text e), c2)
           | (None, c2) \<Rightarrow> (None, c2)))"

definition overwrite_template ::
  "('u, 'w) api \<Rightarrow> string \<Rightarrow> string \<Rightarrow> claim_template \<Rightarrow> claim_template \<Rightarrow> ('u, 'w) controller \<Rightarrow>
     string option \<times> ('u, 'w) controller" where
  "overwrite_template api ns name live desired c =
     (case update_template api ns (updated_template live desired) c of
        (None, c1) \<Rightarrow> (None, c1)
      | (Some (InvalidError _), c1) \<Rightarrow> recreate_template api ns name desired c1
      | (Some e, c1) \<Rightarrow> (Some (''updating template: '' @ error_text e), c1))"

definition target_note :: "string \<Rightarrow> model_claim \<Rightarrow> string" where
  "target_note cls mc =
     (if backendFor cls (TargetDriver (Spec mc)) = backendNvidia
      then '', target gpu.nvidia.com (derived-bandwidth model)'' else [])"

definition created_message :: "string \<Rightarrow> bounds \<Rightarrow> string \<Rightarrow> string" where
  "created_message name b note =
     ''ResourceClaimTemplate '' @ name @ '': memory>='' @ show_nat (MemoryGi b) @ ''Gi, bandwidth>='' @
     show_nat (MinBandwidthGBs b) @ ''GB/s ('' @ bQuant b @ '')'' @ note"

definition updated_message :: "bounds \<Rightarrow> string" where
  "updated_message b =
     ''bounds now memory>='' @ show_nat (MemoryGi b) @ ''Gi, bandwidth>='' @
     show_nat (MinBandwidthGBs b) @ ''GB/s (resolver '' @ ResolverVersion b @ '')''"

definition ensure_template ::
  "'u library \<Rightarrow> ('u, 'w) api \<Rightarrow> int \<Rightarrow> model_claim \<Rightarrow> string \<Rightarrow> string \<Rightarrow> bounds \<Rightarrow> claim_template \<Rightarrow> string \<Rightarrow>
     ('u, 'w) controller \<Rightarrow> template_outcome \<times> ('u, 'w) controller" where
  "ensure_template lib api now mc ns name b desired note c =
     (case get_template api ns name c of
        (Inl (NotFoundError _), c1) \<Rightarrow>
          (case create_template api ns desired c1 of
             (Some e, c2) \<Rightarrow> (TemplateFailed (''creating template: '' @ error_text e), c2)
           | (None, c2) \<Rightarrow>
               (TemplateReady, event api now mc ''Normal'' TemplateCreated (created_message name b note) c2))
      | (Inl e, c1) \<Rightarrow> (TemplateFailed (''getting template: '' @ error_text e), c1)
      | (Inr live, c1) \<Rightarrow>
          if \<not> IsControlledBy lib live mc then (NotManaged, c1)
          else if TemplateNeedsUpdate live desired then
            (case overwrite_template api ns name live desired c1 of
               (Some e, c2) \<Rightarrow> (TemplateFailed e, c2)
             | (None, c2) \<Rightarrow>
                 (TemplateReady, event api now mc ''Normal'' TemplateUpdated (updated_message b) c2))
          else (TemplateReady, c1))"

section \<open>Satisfiability\<close>

record 'u informers =
  cachedClaim :: "string \<Rightarrow> 'u option result"
  cachedClaims :: "'u list"
  cachedSlices :: "resource_slice list"
  cachedResourceClaims :: "resource_claim list"

definition satisfiableCondition :: "candidates \<Rightarrow> condition_status \<times> reason \<times> string" where
  "satisfiableCondition cands =
     (if cDevices cands > 0 \<and> cAvailable cands > 0 then
        (ConditionTrue, DevicesAvailable,
         show_nat (cDevices cands) @ '' device(s) on '' @ show_nat (cNodes cands) @
         '' node(s) satisfy the bounds ('' @ show_nat (cAvailable cands) @ '' currently unallocated)'')
      else if cDevices cands > 0 then
        (ConditionTrue, AllDevicesHeld,
         show_nat (cDevices cands) @ '' device(s) satisfy the bounds but 0 are unallocated (e.g. held by '' @
         cHeldBy cands @ '') '' @ [CHR 0xE2, CHR 0x80, CHR 0x94] @
         '' pods will queue until a claim releases'')
      else (ConditionFalse, NoCandidates, cShortfall cands))"

definition evaluateCandidates ::
  "'u informers \<Rightarrow> nvidia_boards \<Rightarrow> bounds \<Rightarrow> string \<Rightarrow> int \<Rightarrow> string \<Rightarrow> candidates" where
  "evaluateCandidates infs bs b cls minComputeTFLOPS target =
     (if backendFor cls target = backendNvidia then
        EvaluateNvidiaSlices (cachedSlices infs)
          (AllocatedDevices (cachedResourceClaims infs) NvidiaDriverDomain) b cls minComputeTFLOPS bs
      else
        EvaluateSlices (cachedSlices infs)
          (AllocatedDevices (cachedResourceClaims infs) DriverDomain) b cls minComputeTFLOPS)"

definition announce_verdict ::
  "'u library \<Rightarrow> ('u, 'w) api \<Rightarrow> int \<Rightarrow> model_claim \<Rightarrow> candidates \<Rightarrow>
     ('u, 'w) controller \<Rightarrow> ('u, 'w) controller" where
  \<comment> \<open>an event on transitions only\<close>
  "announce_verdict lib api now mc cands c =
     (case satisfiableCondition cands of
        (st, rsn, message) \<Rightarrow>
          if conditionReason lib mc ConditionSatisfiable \<noteq> reason_name rsn then
            event api now mc (if st = ConditionFalse then ''Warning'' else ''Normal'') rsn message c
          else c)"

definition resolved_message :: "bounds \<Rightarrow> string" where
  "resolved_message b =
     bModel b @ '' @ '' @ bQuant b @ '': memory>='' @ show_nat (MemoryGi b) @ ''Gi, bandwidth>='' @
     show_nat (MinBandwidthGBs b) @ ''GB/s''"

definition reported ::
  "'u library \<Rightarrow> model_claim \<Rightarrow> string \<Rightarrow> bounds \<Rightarrow> candidates \<Rightarrow> model_claim_status \<Rightarrow> model_claim_status" where
  "reported lib mc name b cands status =
     (case satisfiableCondition cands of
        (st, rsn, message) \<Rightarrow>
          setCondition lib (mcGeneration mc) ConditionSatisfiable st rsn message
            (setCondition lib (mcGeneration mc) ConditionResolved ConditionTrue Resolved (resolved_message b)
              (status
                \<lparr>ObservedGeneration := mcGeneration mc,
                 ResolvedField := Some
                   \<lparr>rpMemoryGi = i64_of_u64 (MemoryGi b), rpMinBandwidthGBs = i64_of_u64 (MinBandwidthGBs b),
                    rpQuant = bQuant b, rpWeightsGb = format_fixed1 (WeightsGb b),
                    rpResolverVersion = ResolverVersion b\<rparr>,
                 TemplateRef := Some name,
                 CandidatesField := Some
                   \<lparr>csDevices = int (cDevices cands), csNodes = int (cNodes cands),
                    csAvailable = int (cAvailable cands)\<rparr>\<rparr>)))"

section \<open>One reconcile\<close>

definition min_tps :: "model_claim \<Rightarrow> rat" where
  "min_tps mc = (case MinTps (Spec mc) of Some t \<Rightarrow> t | None \<Rightarrow> 20)"

definition efficiency_pct :: "model_claim \<Rightarrow> int" where
  "efficiency_pct mc = (case EfficiencyPct (Spec mc) of Some n \<Rightarrow> n | None \<Rightarrow> 0)"

definition device_class :: "model_claim \<Rightarrow> string" where
  "device_class mc = (if DeviceClassName (Spec mc) = [] then DriverDomain else DeviceClassName (Spec mc))"

definition invalid_message :: "string \<Rightarrow> string" where
  "invalid_message model =
     ''spec.model '' @ go_quote model @
     '' is not a valid model reference (want org/name or name, e.g. Qwen/Qwen3-30B-A3B)''"

definition conflict_message :: "string \<Rightarrow> string" where
  "conflict_message name =
     ''a ResourceClaimTemplate named '' @ go_quote name @
     '' already exists and is not managed by this ModelClaim; rename the ModelClaim or delete the template''"

definition resolve_claim ::
  "'w resolver \<Rightarrow> int \<Rightarrow> model_claim \<Rightarrow> ('u, 'w) controller \<Rightarrow> bounds result \<times> ('u, 'w) controller" where
  "resolve_claim resolver now mc c =
     (case resolve resolver now (Model (Spec mc)) (min_tps mc) (Quant (Spec mc)) (efficiency_pct mc)
             (resolveCache c, World c) of
        (r, _, cache, w) \<Rightarrow> (r, c\<lparr>resolveCache := cache, World := w\<rparr>))"

definition desired_template :: "model_claim \<Rightarrow> bounds \<Rightarrow> nvidia_boards \<Rightarrow> claim_template" where
  "desired_template mc b bs =
     BuildTemplate mc b (device_class mc) (ExtraSelectors (Spec mc)) bs"

definition report_verdict ::
  "'u library \<Rightarrow> ('u, 'w) api \<Rightarrow> int \<Rightarrow> model_claim \<Rightarrow> string \<Rightarrow> string \<Rightarrow> bounds \<Rightarrow> candidates \<Rightarrow>
     ('u, 'w) controller \<Rightarrow> string option \<times> ('u, 'w) controller" where
  "report_verdict lib api now mc ns name b cands c =
     updateStatus lib api ns name (reported lib mc name b cands) (announce_verdict lib api now mc cands c)"

definition reconcile_resolved ::
  "'u library \<Rightarrow> ('u, 'w) api \<Rightarrow> nvidia_boards \<Rightarrow> 'u informers \<Rightarrow> int \<Rightarrow> model_claim \<Rightarrow> string \<Rightarrow> string \<Rightarrow>
     bounds \<Rightarrow> ('u, 'w) controller \<Rightarrow> string option \<times> ('u, 'w) controller" where
  "reconcile_resolved lib api bs infs now mc ns name b c =
     (case ensure_template lib api now mc ns name b (desired_template mc b bs)
             (target_note (device_class mc) mc) c of
        (TemplateFailed e, c1) \<Rightarrow> (Some e, c1)
      | (NotManaged, c1) \<Rightarrow>
          refuse lib api now mc ns name TemplateConflict (conflict_message name)
            ''template not managed by this ModelClaim'' c1
      | (TemplateReady, c1) \<Rightarrow>
          report_verdict lib api now mc ns name b
            (evaluateCandidates infs bs b (device_class mc) (computeFloor mc) (TargetDriver (Spec mc))) c1)"

definition reconcile_unresolved ::
  "'u library \<Rightarrow> ('u, 'w) api \<Rightarrow> int \<Rightarrow> model_claim \<Rightarrow> string \<Rightarrow> string \<Rightarrow> string \<Rightarrow>
     ('u, 'w) controller \<Rightarrow> string option \<times> ('u, 'w) controller" where
  "reconcile_unresolved lib api now mc ns name err c =
     (case refuse lib api now mc ns name ResolveFailed err ''bounds unavailable while resolve fails'' c of
        (Some e, c1) \<Rightarrow> (Some e, c1)
      | (None, c1) \<Rightarrow> (Some (''resolving model '' @ go_quote (Model (Spec mc)) @ '': '' @ err), c1))"

definition reconcile_claim ::
  "'u library \<Rightarrow> ('u, 'w) api \<Rightarrow> 'w resolver \<Rightarrow> nvidia_boards \<Rightarrow> 'u informers \<Rightarrow> int \<Rightarrow> model_claim \<Rightarrow>
     string \<Rightarrow> string \<Rightarrow> ('u, 'w) controller \<Rightarrow> string option \<times> ('u, 'w) controller" where
  "reconcile_claim lib api resolver bs infs now mc ns name c =
     (if \<not> modelRefPattern (Model (Spec mc)) then
        refuse lib api now mc ns name InvalidModel (invalid_message (Model (Spec mc)))
          ''model not resolved'' c
      else case resolve_claim resolver now mc c of
             (Inl err, c1) \<Rightarrow> reconcile_unresolved lib api now mc ns name err c1
           | (Inr b, c1) \<Rightarrow> reconcile_resolved lib api bs infs now mc ns name b c1)"

definition reconcile ::
  "'u library \<Rightarrow> ('u, 'w) api \<Rightarrow> 'w resolver \<Rightarrow> nvidia_boards \<Rightarrow> 'u informers \<Rightarrow> int \<Rightarrow> string \<Rightarrow>
     ('u, 'w) controller \<Rightarrow> string option \<times> ('u, 'w) controller" where
  "reconcile lib api resolver bs infs now key c =
     (case SplitMetaNamespaceKey lib key of
        None \<Rightarrow> (None, c)
      | Some (ns, name) \<Rightarrow>
          (case cachedClaim infs key of
             Inl e \<Rightarrow> (Some e, c)
           | Inr None \<Rightarrow> (None, c)
           | Inr (Some u) \<Rightarrow>
               (case fromUnstructured lib u of
                  Inl e \<Rightarrow> (Some e, c)
                | Inr mc \<Rightarrow> reconcile_claim lib api resolver bs infs now mc ns name c)))"

section \<open>The queue\<close>

datatype queue_action = AddRateLimited string | Forget string

definition processNext ::
  "'u library \<Rightarrow> ('u, 'w) api \<Rightarrow> 'w resolver \<Rightarrow> nvidia_boards \<Rightarrow> 'u informers \<Rightarrow> int \<Rightarrow> string option \<Rightarrow>
     ('u, 'w) controller \<Rightarrow> bool \<times> (string \<times> queue_action) option \<times> ('u, 'w) controller" where
  \<comment> \<open>\<open>None\<close> is a queue that is shutting down; otherwise the outcome counted and the answer\<close>
  "processNext lib api resolver bs infs now item c =
     (case item of
        None \<Rightarrow> (False, None, c)
      | Some key \<Rightarrow>
          (case reconcile lib api resolver bs infs now key c of
             (Some e, c1) \<Rightarrow> (True, Some (''error'', AddRateLimited key), c1)
           | (None, c1) \<Rightarrow> (True, Some (''ok'', Forget key), c1)))"

section \<open>What wakes the controller\<close>

datatype informer_object =
  SliceObject resource_slice
| ClaimObject resource_claim
| OtherObject
| Tombstone informer_object

fun untombed :: "informer_object \<Rightarrow> informer_object" where
  "untombed (Tombstone obj) = obj"
| "untombed obj = obj"

definition nvidiaTargetsPresent :: "'u library \<Rightarrow> 'u informers \<Rightarrow> bool" where
  "nvidiaTargetsPresent lib infs \<longleftrightarrow>
     list_ex (\<lambda>u. backendFor (NestedString lib u [''spec'', ''deviceClassName''])
                     (NestedString lib u [''spec'', ''targetDriver'']) = backendNvidia) (cachedClaims infs)"

definition sliceRelevant :: "'u library \<Rightarrow> 'u informers \<Rightarrow> informer_object \<Rightarrow> bool" where
  "sliceRelevant lib infs obj \<longleftrightarrow>
     (case untombed obj of
        SliceObject sl \<Rightarrow>
          Driver sl = DriverDomain \<or> (Driver sl = NvidiaDriverDomain \<and> nvidiaTargetsPresent lib infs)
      | _ \<Rightarrow> False)"

definition claimRelevant :: "'u library \<Rightarrow> 'u informers \<Rightarrow> informer_object \<Rightarrow> bool" where
  "claimRelevant lib infs obj \<longleftrightarrow>
     (case untombed obj of
        ClaimObject rc \<Rightarrow>
          (case Allocation rc of
             None \<Rightarrow> False
           | Some results \<Rightarrow>
               list_ex (\<lambda>r. resDriver r = DriverDomain \<or>
                             (resDriver r = NvidiaDriverDomain \<and> nvidiaTargetsPresent lib infs)) results)
      | _ \<Rightarrow> False)"

definition enqueue :: "'u library \<Rightarrow> 'u \<Rightarrow> string list \<Rightarrow> string list" where
  "enqueue lib u queue = (case MetaNamespaceKey lib u of Some key \<Rightarrow> queue @ [key] | None \<Rightarrow> queue)"

definition enqueueAll :: "'u library \<Rightarrow> 'u informers \<Rightarrow> string list \<Rightarrow> string list" where
  "enqueueAll lib infs queue = fold (enqueue lib) (cachedClaims infs) queue"

definition enqueueAllIf :: "'u library \<Rightarrow> 'u informers \<Rightarrow> bool \<Rightarrow> string list \<Rightarrow> string list" where
  "enqueueAllIf lib infs relevant queue = (if relevant then enqueueAll lib infs queue else queue)"

datatype informer_event =
  Added informer_object | Updated informer_object informer_object | Deleted informer_object

fun on_slice_event :: "'u library \<Rightarrow> 'u informers \<Rightarrow> informer_event \<Rightarrow> string list \<Rightarrow> string list" where
  "on_slice_event lib infs (Added obj) queue = enqueueAllIf lib infs (sliceRelevant lib infs obj) queue"
| "on_slice_event lib infs (Updated old obj) queue =
     enqueueAllIf lib infs (sliceRelevant lib infs old \<or> sliceRelevant lib infs obj) queue"
| "on_slice_event lib infs (Deleted obj) queue = enqueueAllIf lib infs (sliceRelevant lib infs obj) queue"

fun on_claim_event :: "'u library \<Rightarrow> 'u informers \<Rightarrow> informer_event \<Rightarrow> string list \<Rightarrow> string list" where
  "on_claim_event lib infs (Added obj) queue = enqueueAllIf lib infs (claimRelevant lib infs obj) queue"
| "on_claim_event lib infs (Updated old obj) queue =
     enqueueAllIf lib infs (claimRelevant lib infs old \<or> claimRelevant lib infs obj) queue"
| "on_claim_event lib infs (Deleted obj) queue = enqueueAllIf lib infs (claimRelevant lib infs obj) queue"

text \<open>The events of ModelClaims themselves: a deleted one's template is left to its owner reference.\<close>

datatype 'u claim_event = ClaimAdded 'u | ClaimUpdated 'u 'u | ClaimDeleted 'u

fun on_modelclaim_event :: "'u library \<Rightarrow> 'u claim_event \<Rightarrow> string list \<Rightarrow> string list" where
  "on_modelclaim_event lib (ClaimAdded u) queue = enqueue lib u queue"
| "on_modelclaim_event lib (ClaimUpdated old u) queue = enqueue lib u queue"
| "on_modelclaim_event lib (ClaimDeleted u) queue = queue"

end
