(* ===== verification/Reconciling.thy ===== *)
theory Reconciling
  imports Controller
begin

text \<open>
  What a reconcile does to the ResourceClaimTemplate of its ModelClaim.  The abstract
  specification is \<open>template_run\<close>, the runs of calls on the template a controller may make;
  the code's reconcile refines it, and the safety and convergence properties are read off its
  rules.
\<close>

section \<open>The calls on templates\<close>

fun template_call :: "'u api_call \<Rightarrow> bool" where
  "template_call (GotTemplate _ _ _) = True"
| "template_call (CreatedTemplate _ _ _) = True"
| "template_call (UpdatedTemplate _ _ _) = True"
| "template_call (DeletedTemplate _ _ _) = True"
| "template_call _ = False"

definition template_log :: "('u, 'w) controller \<Rightarrow> 'u api_call list" where
  "template_log c = filter template_call (Calls c)"

lemma template_log_simps [simp]:
  "template_log (c\<lparr>World := w\<rparr>) = template_log c"
  "template_log (c\<lparr>resolveCache := cache\<rparr>) = template_log c"
  "template_log (c\<lparr>lastEvent := seen\<rparr>) = template_log c"
  "template_log (c\<lparr>Calls := cs\<rparr>) = filter template_call cs"
  by (simp_all add: template_log_def)

lemma template_calls [simp]:
  "template_log (snd (get_template api ns n c)) =
     template_log c @ [GotTemplate ns n (fst (get_template api ns n c))]"
  "template_log (snd (create_template api ns t c)) =
     template_log c @ [CreatedTemplate ns t (fst (create_template api ns t c))]"
  "template_log (snd (update_template api ns t c)) =
     template_log c @ [UpdatedTemplate ns t (fst (update_template api ns t c))]"
  "template_log (snd (delete_template api ns n c)) =
     template_log c @ [DeletedTemplate ns n (fst (delete_template api ns n c))]"
  by (simp_all add: get_template_def create_template_def update_template_def delete_template_def
      template_log_def split: prod.split)

lemma quiet_event [simp]: "template_log (event api now mc type rsn message c) = template_log c"
  by (simp add: event_def template_log_def split: prod.split option.split)

lemma quiet_claim_calls [simp]:
  "template_log (snd (get_claim api ns n c)) = template_log c"
  "template_log (snd (write_status api ns u c)) = template_log c"
  by (simp_all add: get_claim_def write_status_def template_log_def split: prod.split)

lemma quiet_updateStatus [simp]: "template_log (snd (updateStatus lib api ns name mutate c)) = template_log c"
proof -
  have got: "get_claim api ns name c = (r, c1) \<Longrightarrow> template_log c1 = template_log c" for r c1
    by (metis quiet_claim_calls(1) snd_conv)
  have wrote: "write_status api ns u c1 = (r, c2) \<Longrightarrow> template_log c2 = template_log c1" for u r c1 c2
    by (metis quiet_claim_calls(2) snd_conv)
  show ?thesis
    by (auto simp: updateStatus_def split: prod.split sum.split api_error.split dest!: got wrote)
qed

lemma quiet_refuse [simp]: "template_log (snd (refuse lib api now mc ns name rsn message note c)) = template_log c"
  by (simp add: refuse_def)

lemma quiet_report [simp]: "template_log (snd (report_verdict lib api now mc ns name b cands c)) = template_log c"
  by (simp add: report_verdict_def announce_verdict_def split: prod.split)

lemma quiet_unresolved [simp]:
  "template_log (snd (reconcile_unresolved lib api now mc ns name err c)) = template_log c"
proof -
  have "refuse lib api now mc ns name rsn message nt c = (r, c1) \<Longrightarrow> template_log c1 = template_log c"
    for rsn message nt r c1
    by (metis quiet_refuse snd_conv)
  then show ?thesis
    by (auto simp: reconcile_unresolved_def split: prod.split option.split)
qed

lemma quiet_resolve [simp]: "template_log (snd (resolve_claim resolver now mc c)) = template_log c"
  by (simp add: resolve_claim_def template_log_def split: prod.split)

section \<open>The protocol\<close>

inductive template_run ::
  "'u library \<Rightarrow> model_claim \<Rightarrow> string \<Rightarrow> string \<Rightarrow> claim_template \<Rightarrow> 'u api_call list \<Rightarrow> bool"
  for lib mc ns n desired where
  unreadable: "(\<And>m. e \<noteq> NotFoundError m) \<Longrightarrow>
    template_run lib mc ns n desired [GotTemplate ns n (Inl e)]"
| create: "template_run lib mc ns n desired
    [GotTemplate ns n (Inl (NotFoundError m)), CreatedTemplate ns desired e]"
| foreign: "\<not> IsControlledBy lib live mc \<Longrightarrow>
    template_run lib mc ns n desired [GotTemplate ns n (Inr live)]"
| unchanged: "IsControlledBy lib live mc \<Longrightarrow> \<not> TemplateNeedsUpdate live desired \<Longrightarrow>
    template_run lib mc ns n desired [GotTemplate ns n (Inr live)]"
| update: "IsControlledBy lib live mc \<Longrightarrow> TemplateNeedsUpdate live desired \<Longrightarrow>
    (\<And>m. e \<noteq> Some (InvalidError m)) \<Longrightarrow>
    template_run lib mc ns n desired
      [GotTemplate ns n (Inr live), UpdatedTemplate ns (updated_template live desired) e]"
| delete_failed: "IsControlledBy lib live mc \<Longrightarrow> TemplateNeedsUpdate live desired \<Longrightarrow>
    template_run lib mc ns n desired
      [GotTemplate ns n (Inr live), UpdatedTemplate ns (updated_template live desired) (Some (InvalidError m)),
       DeletedTemplate ns n (Some e)]"
| recreate: "IsControlledBy lib live mc \<Longrightarrow> TemplateNeedsUpdate live desired \<Longrightarrow>
    template_run lib mc ns n desired
      [GotTemplate ns n (Inr live), UpdatedTemplate ns (updated_template live desired) (Some (InvalidError m)),
       DeletedTemplate ns n None, CreatedTemplate ns desired e]"

inductive_cases template_runE: "template_run lib mc ns n desired calls"

text \<open>The outcome each kind of run has: ready exactly when the last write, if any, succeeded.\<close>

fun call_outcome :: "'u library \<Rightarrow> model_claim \<Rightarrow> 'u api_call \<Rightarrow> bool option" where
  \<comment> \<open>\<open>Some True\<close>: ready; \<open>Some False\<close>: failed; \<open>None\<close>: not managed\<close>
  "call_outcome lib mc (GotTemplate _ _ (Inr live)) = (if IsControlledBy lib live mc then Some True else None)"
| "call_outcome lib mc (CreatedTemplate _ _ e) = Some (e = None)"
| "call_outcome lib mc (UpdatedTemplate _ _ e) = Some (e = None)"
| "call_outcome lib mc _ = Some False"

definition run_outcome :: "'u library \<Rightarrow> model_claim \<Rightarrow> 'u api_call list \<Rightarrow> bool option" where
  "run_outcome lib mc calls = call_outcome lib mc (last calls)"

fun outcome_flag :: "template_outcome \<Rightarrow> bool option" where
  "outcome_flag TemplateReady = Some True"
| "outcome_flag (TemplateFailed _) = Some False"
| "outcome_flag NotManaged = None"

lemma overwrite_run:
  assumes "IsControlledBy lib live mc" "TemplateNeedsUpdate live desired"
    and "overwrite_template api ns n live desired c = (r, c')"
  shows "\<exists>calls. template_log c' = template_log c @ calls \<and>
    template_run lib mc ns n desired (GotTemplate ns n (Inr live) # calls) \<and>
    run_outcome lib mc (GotTemplate ns n (Inr live) # calls) = Some (r = None)"
proof -
  obtain e1 c1 where u: "update_template api ns (updated_template live desired) c = (e1, c1)" by fastforce
  then have log1: "template_log c1 = template_log c @ [UpdatedTemplate ns (updated_template live desired) e1]"
    using template_calls(3) [of api ns "updated_template live desired" c] by simp
  show ?thesis
  proof (cases "\<exists>m. e1 = Some (InvalidError m)")
    case False
    then have "r = None \<longleftrightarrow> e1 = None" "c' = c1"
      using assms(3) u by (auto simp: overwrite_template_def split: option.splits api_error.splits)
    then show ?thesis
      using template_run.update [of lib live mc desired e1 ns n] assms(1,2) False log1 by (auto simp: run_outcome_def)
  next
    case True
    then obtain m where m: "e1 = Some (InvalidError m)" ..
    obtain e2 c2 where d: "delete_template api ns n c1 = (e2, c2)" by fastforce
    then have log2: "template_log c2 = template_log c1 @ [DeletedTemplate ns n e2]"
      using template_calls(4) [of api ns n c1] by simp
    show ?thesis
    proof (cases e2)
      case (Some e)
      then have "r \<noteq> None" "c' = c2"
        using assms(3) u d m by (auto simp: overwrite_template_def recreate_template_def)
      then show ?thesis
        using template_run.delete_failed [of lib live mc desired ns n m e] assms(1,2) log1 log2 m Some by (auto simp: run_outcome_def)
    next
      case None
      obtain e3 c3 where cr: "create_template api ns desired c2 = (e3, c3)" by fastforce
      then have log3: "template_log c3 = template_log c2 @ [CreatedTemplate ns desired e3]"
        using template_calls(2) [of api ns desired c2] by simp
      have "r = None \<longleftrightarrow> e3 = None" "c' = c3"
        using assms(3) u d m None cr
        by (auto simp: overwrite_template_def recreate_template_def split: option.splits)
      then show ?thesis
        using template_run.recreate [of lib live mc desired ns n m e3] assms(1,2) log1 log2 log3 m None by (auto simp: run_outcome_def)
    qed
  qed
qed

lemma ensure_run:
  assumes "ensure_template lib api now mc ns n b desired note c = (r, c')"
  shows "\<exists>calls. template_log c' = template_log c @ calls \<and> template_run lib mc ns n desired calls \<and>
    run_outcome lib mc calls = outcome_flag r"
proof -
  obtain g c1 where g: "get_template api ns n c = (g, c1)" by fastforce
  then have log1: "template_log c1 = template_log c @ [GotTemplate ns n g]"
    using template_calls(1) [of api ns n c] by simp
  show ?thesis
  proof (cases g)
    case (Inl e)
    show ?thesis
    proof (cases "\<exists>m. e = NotFoundError m")
      case False
      then have "c' = c1" "outcome_flag r = Some False"
        using assms g Inl by (auto simp: ensure_template_def split: api_error.splits)
      then show ?thesis using template_run.unreadable [of e lib mc ns n desired] False log1 Inl by (auto simp: run_outcome_def)
    next
      case True
      then obtain m where m: "e = NotFoundError m" ..
      obtain e2 c2 where cr: "create_template api ns desired c1 = (e2, c2)" by fastforce
      then have "template_log c2 = template_log c1 @ [CreatedTemplate ns desired e2]"
        using template_calls(2) [of api ns desired c1] by simp
      moreover have "template_log c' = template_log c2" "outcome_flag r = Some (e2 = None)"
        using assms g Inl m cr by (auto simp: ensure_template_def split: option.splits)
      ultimately show ?thesis using template_run.create [of lib mc ns n desired m e2] log1 Inl m by (auto simp: run_outcome_def)
    qed
  next
    case (Inr live)
    show ?thesis
    proof (cases "IsControlledBy lib live mc \<and> TemplateNeedsUpdate live desired")
      case True
      obtain e2 c2 where o: "overwrite_template api ns n live desired c1 = (e2, c2)" by fastforce
      have "template_log c' = template_log c2" "outcome_flag r = Some (e2 = None)"
        using assms g Inr True o by (auto simp: ensure_template_def split: option.splits)
      with overwrite_run [OF _ _ o, of lib mc] True log1 Inr show ?thesis by fastforce
    next
      case False
      then have "c' = c1" "outcome_flag r = (if IsControlledBy lib live mc then Some True else None)"
        using assms g Inr by (auto simp: ensure_template_def split: if_splits)
      moreover have "template_run lib mc ns n desired [GotTemplate ns n (Inr live)]"
        using False template_run.foreign [of lib live mc ns n desired]
          template_run.unchanged [of lib live mc desired ns n] by blast
      ultimately show ?thesis using log1 Inr by (auto simp: run_outcome_def)
    qed
  qed
qed


section \<open>A reconcile is a run of the protocol\<close>

lemma resolved_run:
  assumes "reconcile_resolved lib api bs infs now mc ns n b c = (r, c')"
  shows "\<exists>calls. template_log c' = template_log c @ calls \<and>
    template_run lib mc ns n (desired_template mc b bs) calls \<and>
    (run_outcome lib mc calls = Some False \<longrightarrow> r \<noteq> None)"
proof -
  obtain t c1 where e: "ensure_template lib api now mc ns n b (desired_template mc b bs)
      (target_note (device_class mc) mc) c = (t, c1)" by fastforce
  have log: "template_log c' = template_log c1" and failed: "outcome_flag t = Some False \<Longrightarrow> r \<noteq> None"
    using assms e quiet_refuse [of lib api now mc ns n] quiet_report [of lib api now mc ns n b]
    by (cases t; simp add: reconcile_resolved_def; metis snd_conv)+
  with ensure_run [OF e] show ?thesis by fastforce
qed

lemma reconcile_cases:
  assumes "reconcile lib api resolver bs infs now key c = (r, c')"
  obtains (nothing) "c' = c"
  | (invalid) ns n u mc where "SplitMetaNamespaceKey lib key = Some (ns, n)"
      "cachedClaim infs key = Inr (Some u)" "fromUnstructured lib u = Inr mc"
      "\<not> modelRefPattern (Model (Spec mc))"
      "refuse lib api now mc ns n InvalidModel (invalid_message (Model (Spec mc)))
         ''model not resolved'' c = (r, c')"
  | (unresolved) ns n u mc err c1 where "SplitMetaNamespaceKey lib key = Some (ns, n)"
      "cachedClaim infs key = Inr (Some u)" "fromUnstructured lib u = Inr mc"
      "modelRefPattern (Model (Spec mc))" "resolve_claim resolver now mc c = (Inl err, c1)"
      "reconcile_unresolved lib api now mc ns n err c1 = (r, c')"
  | (resolved) ns n u mc b c1 where "SplitMetaNamespaceKey lib key = Some (ns, n)"
      "cachedClaim infs key = Inr (Some u)" "fromUnstructured lib u = Inr mc"
      "modelRefPattern (Model (Spec mc))" "resolve_claim resolver now mc c = (Inr b, c1)"
      "reconcile_resolved lib api bs infs now mc ns n b c1 = (r, c')"
proof (cases "SplitMetaNamespaceKey lib key")
  case None
  show thesis by (rule nothing) (use assms None in \<open>simp add: reconcile_def\<close>)
next
  case key: (Some p)
  obtain ns n where p: "p = (ns, n)" by fastforce
  show thesis
  proof (cases "cachedClaim infs key")
    case (Inl e)
    show thesis by (rule nothing) (use assms key p Inl in \<open>simp add: reconcile_def\<close>)
  next
    case cached: (Inr ou)
    show thesis
    proof (cases ou)
      case None
      show thesis by (rule nothing) (use assms key p cached None in \<open>simp add: reconcile_def\<close>)
    next
      case u: (Some u)
      show thesis
      proof (cases "fromUnstructured lib u")
        case (Inl e)
        show thesis by (rule nothing) (use assms key p cached u Inl in \<open>simp add: reconcile_def\<close>)
      next
        case mc: (Inr mc)
        from assms key p cached u mc
        have rc: "reconcile_claim lib api resolver bs infs now mc ns n c = (r, c')"
          by (simp add: reconcile_def)
        show thesis
        proof (cases "modelRefPattern (Model (Spec mc))")
          case False
          show thesis
            by (rule invalid) (use key p cached u mc False rc in \<open>simp_all add: reconcile_claim_def\<close>)
        next
          case True
          obtain q c1 where q: "resolve_claim resolver now mc c = (q, c1)" by fastforce
          show thesis
          proof (cases q)
            case (Inl err)
            show thesis
              by (rule unresolved) (use key p cached u mc True rc q Inl in \<open>simp_all add: reconcile_claim_def\<close>)
          next
            case (Inr b)
            show thesis
              by (rule resolved) (use key p cached u mc True rc q Inr in \<open>simp_all add: reconcile_claim_def\<close>)
          qed
        qed
      qed
    qed
  qed
qed

lemma resolve_claim_log:
  "resolve_claim resolver now mc c = (q, c1) \<Longrightarrow> template_log c1 = template_log c"
  by (metis quiet_resolve snd_conv)

lemma refuse_log:
  "refuse lib api now mc ns n rsn message nt c = (r, c') \<Longrightarrow> template_log c' = template_log c"
  by (metis quiet_refuse snd_conv)

lemma unresolved_log:
  "reconcile_unresolved lib api now mc ns n err c = (r, c') \<Longrightarrow> template_log c' = template_log c \<and> r \<noteq> None"
  using quiet_unresolved [of lib api now mc ns n err c]
  by (auto simp: reconcile_unresolved_def split: prod.splits option.splits)

lemma reconcile_run:
  assumes "reconcile lib api resolver bs infs now key c = (r, c')"
  shows "template_log c' = template_log c \<or>
    (\<exists>ns n u mc b calls.
       SplitMetaNamespaceKey lib key = Some (ns, n) \<and> cachedClaim infs key = Inr (Some u) \<and>
       fromUnstructured lib u = Inr mc \<and> modelRefPattern (Model (Spec mc)) \<and>
       fst (resolve_claim resolver now mc c) = Inr b \<and>
       template_log c' = template_log c @ calls \<and>
       template_run lib mc ns n (desired_template mc b bs) calls \<and>
       (run_outcome lib mc calls = Some False \<longrightarrow> r \<noteq> None))"
  using assms
proof (cases rule: reconcile_cases)
  case (invalid ns n u mc)
  then show ?thesis using refuse_log by blast
next
  case (unresolved ns n u mc err c1)
  then show ?thesis using unresolved_log resolve_claim_log by metis
next
  case (resolved ns n u mc b c1)
  obtain calls where calls: "template_log c' = template_log c1 @ calls"
    "template_run lib mc ns n (desired_template mc b bs) calls"
    "run_outcome lib mc calls = Some False \<longrightarrow> r \<noteq> None"
    using resolved_run [OF resolved(6)] by blast
  have "template_log c1 = template_log c" using resolved(5) by (rule resolve_claim_log)
  with calls resolved show ?thesis by (metis fst_conv)
qed simp

text \<open>What a run leaves in the server, by the answers it got.\<close>

fun left_by :: "'u api_call \<Rightarrow> claim_template option \<Rightarrow> claim_template option" where
  "left_by (GotTemplate _ _ (Inr t)) s = Some t"
| "left_by (GotTemplate _ _ (Inl _)) s = None"
| "left_by (CreatedTemplate _ t e) s = (if e = None then Some t else s)"
| "left_by (UpdatedTemplate _ t e) s = (if e = None then Some t else s)"
| "left_by (DeletedTemplate _ _ e) s = (if e = None then None else s)"
| "left_by _ s = s"

definition left_template :: "'u api_call list \<Rightarrow> claim_template option" where
  "left_template calls = fold left_by calls None"

definition controlled_by :: "claim_template \<Rightarrow> model_claim \<Rightarrow> bool" where
  \<comment> \<open>what \<open>metav1.IsControlledBy\<close> documents: the controller reference has the owner's UID\<close>
  "controlled_by t mc \<longleftrightarrow>
     (case find (\<lambda>ref. ownerController ref = Some True) (OwnerReferences t) of
        Some ref \<Rightarrow> ownerUID ref = mcUID mc | None \<Rightarrow> False)"

lemma built_template_controlled: "controlled_by (desired_template mc b bs) mc"
  by (simp add: controlled_by_def desired_template_def BuildTemplate_def)

lemma updated_template_controlled: "controlled_by (updated_template live desired) mc = controlled_by live mc"
  by (simp add: controlled_by_def updated_template_def)

text \<open>Neither the rendered template nor its ownership depends on the status.\<close>

lemma status_free:
  "desired_template (mc\<lparr>Status := st\<rparr>) b bs = desired_template mc b bs"
  "controlled_by t (mc\<lparr>Status := st\<rparr>) = controlled_by t mc"
  by (simp_all add: desired_template_def device_class_def BuildTemplate_def template_fit_def
      template_target_def computeFloor_def controlled_by_def split: option.split)

section \<open>Status writes\<close>

definition status_writes :: "('u, 'w) controller \<Rightarrow> 'u set" where
  "status_writes c = {u. \<exists>ns e. WroteStatus ns u e \<in> set (Calls c)}"

lemma status_quiet [simp]:
  "status_writes (snd (get_template api ns n c)) = status_writes c"
  "status_writes (snd (create_template api ns t c)) = status_writes c"
  "status_writes (snd (update_template api ns t c)) = status_writes c"
  "status_writes (snd (delete_template api ns n c)) = status_writes c"
  "status_writes (snd (get_claim api ns n c)) = status_writes c"
  "status_writes (event api now mc type rsn message c) = status_writes c"
  "status_writes (snd (resolve_claim resolver now mc c)) = status_writes c"
  by (auto simp: status_writes_def get_template_def create_template_def update_template_def
      delete_template_def get_claim_def event_def resolve_claim_def split: prod.split option.split)

lemma status_write: "status_writes (snd (write_status api ns u c)) = insert u (status_writes c)"
  by (auto simp: status_writes_def write_status_def split: prod.split)

definition may_write :: "'u library \<Rightarrow> (model_claim_status \<Rightarrow> model_claim_status) \<Rightarrow> 'u set" where
  "may_write lib mutate = {u. \<exists>fresh. ToUnstructured lib (fresh\<lparr>Status := mutate (Status fresh)\<rparr>) = Inr u}"

lemma may_write_status:
  "u \<in> may_write lib mutate \<Longrightarrow> \<exists>mc st. ToUnstructured lib mc = Inr u \<and> Status mc = mutate st"
  unfolding may_write_def by force

lemma updateStatus_writes:
  "status_writes (snd (updateStatus lib api ns name mutate c)) \<subseteq> status_writes c \<union> may_write lib mutate"
proof -
  have got: "get_claim api ns name c = (r, c1) \<Longrightarrow> status_writes c1 = status_writes c" for r c1
    by (metis status_quiet(5) snd_conv)
  have wrote: "write_status api ns u c1 = (r, c2) \<Longrightarrow> status_writes c2 = insert u (status_writes c1)" for u r c1 c2
    by (metis status_write snd_conv)
  show ?thesis
    by (auto simp: updateStatus_def may_write_def split: prod.split sum.split api_error.split
        dest!: got wrote)
qed

lemma refuse_writes:
  "refuse lib api now mc ns name rsn message nt c = (r, c') \<Longrightarrow>
     status_writes c' \<subseteq> status_writes c \<union> may_write lib (refused lib mc rsn message nt)"
  using updateStatus_writes [of lib api ns name "refused lib mc rsn message nt"
      "event api now mc ''Warning'' rsn message c"]
  by (simp add: refuse_def)

lemma ensure_status_quiet:
  assumes "ensure_template lib api now mc ns n b desired nt c = (r, c')"
  shows "status_writes c' = status_writes c"
proof -
  have q: "get_template api ns n c0 = (x, c1) \<Longrightarrow> status_writes c1 = status_writes c0"
    "create_template api ns t c0 = (y, c1) \<Longrightarrow> status_writes c1 = status_writes c0"
    "update_template api ns t c0 = (y, c1) \<Longrightarrow> status_writes c1 = status_writes c0"
    "delete_template api ns n c0 = (y, c1) \<Longrightarrow> status_writes c1 = status_writes c0" for c0 x y c1 t
    by (metis snd_conv status_quiet(1-4))+
  have "overwrite_template api ns n live desired c0 = (e, c1) \<Longrightarrow> status_writes c1 = status_writes c0"
    for live c0 e c1
    by (auto simp: overwrite_template_def recreate_template_def
        split: prod.splits option.splits api_error.splits dest!: q)
  with assms show ?thesis
    by (auto simp: ensure_template_def split: prod.splits option.splits api_error.splits sum.splits if_splits
        dest!: q)
qed


lemma reconcile_writes:
  assumes "reconcile lib api resolver bs infs now key c = (r, c')" "u \<in> status_writes c'" "u \<notin> status_writes c"
  shows "\<exists>mc n b cands rsn message nt.
    u \<in> may_write lib (refused lib mc rsn message nt) \<or> u \<in> may_write lib (reported lib mc n b cands)"
  using assms(1)
proof (cases rule: reconcile_cases)
  case nothing
  with assms show ?thesis by simp
next
  case (invalid ns n v mc)
  with assms refuse_writes [OF invalid(5)] show ?thesis by blast
next
  case (unresolved ns n v mc err c1)
  have "status_writes c1 = status_writes c" using unresolved(5) status_quiet(7) by (metis snd_conv)
  moreover obtain e c2 where e: "refuse lib api now mc ns n ResolveFailed err ''bounds unavailable while resolve fails'' c1 = (e, c2)"
    by fastforce
  moreover have "c' = c2" using unresolved(6) e by (auto simp: reconcile_unresolved_def split: option.splits)
  ultimately show ?thesis using assms refuse_writes [OF e] by blast
next
  case (resolved ns n v mc b c1)
  obtain t c2 where t: "ensure_template lib api now mc ns n b (desired_template mc b bs)
      (target_note (device_class mc) mc) c1 = (t, c2)" by fastforce
  have w: "status_writes c2 = status_writes c"
    using resolved(5) status_quiet(7) ensure_status_quiet [OF t] by (metis snd_conv)
  show ?thesis
  proof (cases t)
    case TemplateReady
    let ?cands = "evaluateCandidates infs bs b (device_class mc) (computeFloor mc) (TargetDriver (Spec mc))"
    have q: "status_writes (announce_verdict lib api now mc ?cands c2) = status_writes c2"
      by (simp add: announce_verdict_def split: prod.split)
    have "snd (report_verdict lib api now mc ns n b ?cands c2) = c'"
      using resolved(6) t TemplateReady by (simp add: reconcile_resolved_def)
    then show ?thesis
      using assms w q updateStatus_writes [of lib api ns n "reported lib mc n b ?cands" "announce_verdict lib api now mc ?cands c2"]
      unfolding report_verdict_def by blast
  next
    case (TemplateFailed e)
    with resolved(6) t w assms show ?thesis by (simp add: reconcile_resolved_def)
  next
    case NotManaged
    have f: "refuse lib api now mc ns n TemplateConflict (conflict_message n)
        ''template not managed by this ModelClaim'' c2 = (r, c')"
      using resolved(6) t NotManaged by (simp add: reconcile_resolved_def)
    with assms w refuse_writes [OF f] show ?thesis by blast
  qed
qed

section \<open>Properties\<close>

text \<open>
  C1: every reconcile refines the template protocol.  Either it makes no call on a template, or
  the model is valid, its bounds are resolved, and its calls on templates are one run of the
  protocol for the rendered template; a run whose last call failed ends in an error, so that
  the item is queued again.
\<close>

theorem reconcile_refines_protocol:
  assumes "reconcile lib api resolver bs infs now key c = (r, c')"
  shows "template_log c' = template_log c \<or>
    (\<exists>ns n u mc b calls.
       SplitMetaNamespaceKey lib key = Some (ns, n) \<and> cachedClaim infs key = Inr (Some u) \<and>
       fromUnstructured lib u = Inr mc \<and> modelRefPattern (Model (Spec mc)) \<and>
       fst (resolve_claim resolver now mc c) = Inr b \<and>
       template_log c' = template_log c @ calls \<and>
       template_run lib mc ns n (desired_template mc b bs) calls \<and>
       (run_outcome lib mc calls = Some False \<longrightarrow> r \<noteq> None))"
  using assms by (rule reconcile_run)

text \<open>
  C7: a template of somebody else is never touched.  If the template the server returns is not
  controlled by the ModelClaim, reading it is the only call on templates the reconcile makes.
\<close>

theorem foreign_template_untouched:
  assumes "reconcile lib api resolver bs infs now key c = (r, c')"
    and "template_log c' = template_log c @ calls"
    and "cachedClaim infs key = Inr (Some u)" "fromUnstructured lib u = Inr mc"
    and "GotTemplate ns n (Inr live) \<in> set calls" "\<not> IsControlledBy lib live mc"
  shows "calls = [GotTemplate ns n (Inr live)]"
proof -
  obtain ns' n' b where run: "template_run lib mc ns' n' (desired_template mc b bs) calls"
    using reconcile_run [OF assms(1)] assms(2-5) by auto
  then show ?thesis using assms(5,6) by (auto elim!: template_runE)
qed

text \<open>
  C23: a failed resolution never touches a template.  If the model reference is invalid, or its
  bounds cannot be resolved, the reconcile makes no call on a template at all; a failed
  resolution is always an error, so that it is retried.
\<close>

theorem failed_resolution_keeps_template:
  assumes "reconcile lib api resolver bs infs now key c = (r, c')"
    and "SplitMetaNamespaceKey lib key = Some (ns, n)"
    and "cachedClaim infs key = Inr (Some u)" "fromUnstructured lib u = Inr mc"
    and "\<not> modelRefPattern (Model (Spec mc)) \<or> isl (fst (resolve_claim resolver now mc c))"
  shows "template_log c' = template_log c \<and> (modelRefPattern (Model (Spec mc)) \<longrightarrow> r \<noteq> None)"
proof -
  have log: "template_log c' = template_log c"
    using reconcile_run [OF assms(1)] assms(3-5) by auto
  show ?thesis
  proof (cases "modelRefPattern (Model (Spec mc))")
    case True
    then obtain err c1 where res: "resolve_claim resolver now mc c = (Inl err, c1)"
      using assms(5) by (cases "resolve_claim resolver now mc c") (auto elim!: isl_def [THEN iffD1, elim_format])
    with True assms have "reconcile_unresolved lib api now mc ns n err c1 = (r, c')"
      by (simp add: reconcile_def reconcile_claim_def)
    with unresolved_log log show ?thesis by blast
  qed (simp add: log)
qed

text \<open>
  C13: a reconcile converges.  Take a reconcile of a cached ModelClaim that called the template
  API, found no template of another owner and ended without an error.  The template it left in the
  server is controlled by that ModelClaim, carries the request rendered from its bounds and shows no
  drift.  Any later reconcile of the key, whatever the status of the ModelClaim has become, that
  gets the same bounds and finds this template only reads it.
\<close>

theorem reconcile_converges:
  assumes run: "reconcile lib api resolver bs infs now key c = (None, c')"
    and calls: "template_log c' = template_log c @ calls" "calls \<noteq> []"
    and key: "SplitMetaNamespaceKey lib key = Some (ns, n)"
    and cached: "cachedClaim infs key = Inr (Some u)" "fromUnstructured lib u = Inr mc"
    and lib: "IsControlledBy lib = controlled_by"
    and own: "\<forall>ns' n' live. GotTemplate ns' n' (Inr live) \<in> set calls \<longrightarrow> controlled_by live mc"
  shows "\<exists>b t. fst (resolve_claim resolver now mc c) = Inr b \<and> left_template calls = Some t \<and>
    controlled_by t mc \<and> Requests t = Requests (desired_template mc b bs) \<and>
    \<not> TemplateNeedsUpdate t (desired_template mc b bs) \<and>
    (\<forall>api' resolver' infs' now' d d' r u' st later.
       reconcile lib api' resolver' bs infs' now' key d = (r, d') \<and>
       cachedClaim infs' key = Inr (Some u') \<and> fromUnstructured lib u' = Inr (mc\<lparr>Status := st\<rparr>) \<and>
       fst (resolve_claim resolver' now' (mc\<lparr>Status := st\<rparr>) d) = Inr b \<and>
       template_log d' = template_log d @ later \<and> GotTemplate ns n (Inr t) \<in> set later \<longrightarrow>
       later = [GotTemplate ns n (Inr t)])"
proof -
  obtain b where b: "fst (resolve_claim resolver now mc c) = Inr b"
    and tr: "template_run lib mc ns n (desired_template mc b bs) calls"
    and ok: "run_outcome lib mc calls \<noteq> Some False"
    using reconcile_run [OF run] calls key cached by auto
  have settled: "\<not> TemplateNeedsUpdate (updated_template live (desired_template mc b bs)) (desired_template mc b bs) \<and>
      \<not> TemplateNeedsUpdate (desired_template mc b bs) (desired_template mc b bs)" for live
    unfolding desired_template_def by (rule template_update_settles)
  have "\<exists>t. left_template calls = Some t \<and> controlled_by t mc \<and> \<not> TemplateNeedsUpdate t (desired_template mc b bs)"
    using tr
  proof (cases rule: template_run.cases)
    case (foreign live)
    with lib own show ?thesis by auto
  qed (use ok settled built_template_controlled updated_template_controlled lib in
      \<open>auto simp: left_template_def run_outcome_def\<close>)
  then obtain t where t: "left_template calls = Some t" "controlled_by t mc"
      "\<not> TemplateNeedsUpdate t (desired_template mc b bs)" by blast
  then have "Requests t = Requests (desired_template mc b bs)" by (simp add: TemplateNeedsUpdate_iff)
  moreover have "later = [GotTemplate ns n (Inr t)]"
    if "reconcile lib api' resolver' bs infs' now' key d = (r, d')"
      "cachedClaim infs' key = Inr (Some u')" "fromUnstructured lib u' = Inr (mc\<lparr>Status := st\<rparr>)"
      "fst (resolve_claim resolver' now' (mc\<lparr>Status := st\<rparr>) d) = Inr b"
      "template_log d' = template_log d @ later" "GotTemplate ns n (Inr t) \<in> set later"
    for api' resolver' infs' now' d d' r u' st later
  proof -
    have "template_run lib (mc\<lparr>Status := st\<rparr>) ns n (desired_template mc b bs) later"
      using reconcile_run [OF that(1)] that(2-) key by (auto simp: status_free)
    then show ?thesis using t(2,3) lib that(6) by (auto simp: status_free elim!: template_runE)
  qed
  ultimately show ?thesis using b t by blast
qed

text \<open>What the helpers for conditions document, last transition times apart.\<close>

definition conditions_law :: "'u library \<Rightarrow> bool" where
  "conditions_law lib \<longleftrightarrow>
     (\<forall>cond cs type. FindStatusCondition lib (SetStatusCondition lib cond cs) type =
        (if type = condType cond then Some cond else FindStatusCondition lib cs type))"

definition condition_is :: "'u library \<Rightarrow> model_claim_status \<Rightarrow> string \<Rightarrow> condition_status \<Rightarrow> bool" where
  "condition_is lib st type value \<longleftrightarrow>
     map_option condStatus (FindStatusCondition lib (Conditions st) type) = Some value"

lemma setCondition_is:
  assumes "conditions_law lib"
  shows "condition_is lib (setCondition lib g type value rsn message st) type' value' \<longleftrightarrow>
    (if type' = type then value' = value else condition_is lib st type' value')"
  using assms by (auto simp: conditions_law_def condition_is_def setCondition_def)

text \<open>
  C36: the conditions agree.  In every status the controller writes, Satisfiable is decided, true
  or false, exactly when Resolved is true, and unknown when Resolved is false.
\<close>

theorem conditions_agree:
  assumes "conditions_law lib"
    and "reconcile lib api resolver bs infs now key c = (r, c')" "u \<in> status_writes c'" "u \<notin> status_writes c"
  shows "\<exists>mc. ToUnstructured lib mc = Inr u \<and>
    (condition_is lib (Status mc) ConditionResolved ConditionTrue \<and>
       (condition_is lib (Status mc) ConditionSatisfiable ConditionTrue \<or>
        condition_is lib (Status mc) ConditionSatisfiable ConditionFalse) \<or>
     condition_is lib (Status mc) ConditionResolved ConditionFalse \<and>
       condition_is lib (Status mc) ConditionSatisfiable ConditionUnknown)"
proof -
  have differ: "ConditionResolved \<noteq> ConditionSatisfiable"
    by (simp add: ConditionResolved_def ConditionSatisfiable_def)
  have no: "condition_is lib (refused lib mc rsn message nt st) ConditionResolved ConditionFalse \<and>
      condition_is lib (refused lib mc rsn message nt st) ConditionSatisfiable ConditionUnknown"
    for mc rsn message nt st
    using differ by (simp add: refused_def setCondition_is [OF assms(1)])
  have yes: "condition_is lib (reported lib mc n b cands st) ConditionResolved ConditionTrue \<and>
      (condition_is lib (reported lib mc n b cands st) ConditionSatisfiable ConditionTrue \<or>
       condition_is lib (reported lib mc n b cands st) ConditionSatisfiable ConditionFalse)"
    for mc n b cands st
    using differ by (simp add: reported_def setCondition_is [OF assms(1)] satisfiableCondition_def)
  from reconcile_writes [OF assms(2-4)] obtain mc where "ToUnstructured lib mc = Inr u"
    "(\<exists>x rsn message nt st. Status mc = refused lib x rsn message nt st) \<or>
     (\<exists>x n b cands st. Status mc = reported lib x n b cands st)"
    by (blast dest: may_write_status)
  with no yes show ?thesis by metis
qed

text \<open>
  A refusal leaves the previous numbers standing.  The status written when resolution fails
  changes the two conditions only: the candidate counts and the resolved bounds of the last
  success, which the printed columns show, stay as they were.
\<close>

theorem refusal_keeps_counts:
  "CandidatesField (refused lib mc rsn message nt st) = CandidatesField st \<and>
   ResolvedField (refused lib mc rsn message nt st) = ResolvedField st \<and>
   TemplateRef (refused lib mc rsn message nt st) = TemplateRef st \<and>
   ObservedGeneration (refused lib mc rsn message nt st) = ObservedGeneration st"
  by (simp add: refused_def setCondition_def)


section \<open>An example server\<close>

text \<open>
  The libraries over claims that are their own encoding, and a server that holds at most one
  template and one claim.
\<close>

definition sample_library :: "model_claim library" where
  "sample_library =
     \<lparr>SplitMetaNamespaceKey = (\<lambda>key. case split_on (CHR ''/'') key of [ns, n] \<Rightarrow> Some (ns, n) | _ \<Rightarrow> None),
      MetaNamespaceKey = (\<lambda>mc. Some (mcNamespace mc @ ''/'' @ mcName mc)),
      FromUnstructured = Inr, ToUnstructured = Inr,
      NestedString = (\<lambda>mc path. if path = [''spec'', ''deviceClassName''] then DeviceClassName (Spec mc)
                                else TargetDriver (Spec mc)),
      SetStatusCondition = (\<lambda>cond cs. cond # filter (\<lambda>x. condType x \<noteq> condType cond) cs),
      FindStatusCondition = (\<lambda>cs type. find (\<lambda>x. condType x = type) cs),
      IsControlledBy = controlled_by\<rparr>"

type_synonym sample_world = "claim_template option \<times> model_claim"

definition sample_api :: "(model_claim, sample_world) api" where
  "sample_api =
     \<lparr>GetTemplate = (\<lambda>_ _ w. (case fst w of Some t \<Rightarrow> Inr t | None \<Rightarrow> Inl (NotFoundError ''not found''), w)),
      CreateTemplate = (\<lambda>_ t w. (None, (Some t, snd w))),
      UpdateTemplate = (\<lambda>_ t w. (None, (Some t, snd w))),
      DeleteTemplate = (\<lambda>_ _ w. (None, (None, snd w))),
      GetClaim = (\<lambda>_ _ w. (Inr (snd w), w)),
      UpdateClaimStatus = (\<lambda>_ mc w. (None, (fst w, mc))),
      CreateEvent = (\<lambda>_ w. w)\<rparr>"

definition sample_start :: "claim_template option \<Rightarrow> (model_claim, sample_world) controller" where
  "sample_start t = \<lparr>World = (t, sample_claim), resolveCache = [], lastEvent = [], Calls = []\<rparr>"

definition sample_informers :: "model_claim informers" where
  "sample_informers =
     \<lparr>cachedClaim = (\<lambda>_. Inr (Some sample_claim)), cachedClaims = [sample_claim], cachedSlices = [],
      cachedResourceClaims = []\<rparr>"

definition sample_answer :: "bounds result \<Rightarrow> sample_world resolver" where
  "sample_answer r = (\<lambda>_ _ _ _ w. (r, w))"

definition sample_reconcile ::
  "bounds result \<Rightarrow> claim_template option \<Rightarrow> string option \<times> (model_claim, sample_world) controller" where
  "sample_reconcile r t =
     reconcile sample_library sample_api (sample_answer r) shipped_boards sample_informers 0
       ''default/qwen3'' (sample_start t)"

abbreviation sample_desired :: claim_template where
  "sample_desired \<equiv> desired_template sample_claim sample_bounds shipped_boards"

lemma sample_fields [simp]:
  "SplitMetaNamespaceKey sample_library ''default/qwen3'' = Some (''default'', ''qwen3'')"
  "fromUnstructured sample_library mc = Inr mc"
  "IsControlledBy sample_library = controlled_by"
  "cachedClaim sample_informers key = Inr (Some sample_claim)"
  "modelRefPattern (Model (Spec sample_claim))"
  by (simp_all add: sample_library_def fromUnstructured_def sample_informers_def sample_claim_def
      modelRefPattern_def ref_segment_def alnum_def is_digit_def)

lemma sample_resolve [simp]:
  "resolve_claim (sample_answer (Inr b)) 0 mc (sample_start t) =
     (Inr b, (sample_start t)\<lparr>resolveCache :=
        [(resolve_key (Model (Spec mc)) (min_tps mc) (Quant (Spec mc)) (efficiency_pct mc), b, resolveCacheTTL)]\<rparr>)"
  "resolve_claim (sample_answer (Inl e)) 0 mc (sample_start t) = (Inl e, sample_start t)"
  by (simp_all add: resolve_claim_def resolve_def cached_bounds_def cache_put_def sample_answer_def sample_start_def)

lemma sample_claim_calls [simp]:
  "fst (get_claim sample_api ns n c) = Inr (snd (World c))"
  "World (snd (get_claim sample_api ns n c)) = World c"
  "fst (write_status sample_api ns u c) = None"
  "ToUnstructured sample_library mc = Inr mc"
  by (simp_all add: get_claim_def write_status_def sample_api_def sample_library_def)

lemma sample_update [simp]:
  "fst (updateStatus sample_library sample_api ns n mutate c) = None"
  "status_writes (snd (updateStatus sample_library sample_api ns n mutate c)) =
     insert ((snd (World c))\<lparr>Status := mutate (Status (snd (World c)))\<rparr>) (status_writes c)"
  by (simp_all add: updateStatus_def prod.case_eq_if status_written_def status_write)

lemma sample_log: "template_log (sample_start t) = []"
  by (simp add: template_log_def sample_start_def)

lemma sample_refuse [simp]: "fst (refuse sample_library sample_api now mc ns n rsn message nt c) = None"
  by (simp add: refuse_def)

lemma sample_calls [simp]:
  "fst (get_template sample_api ns n c) =
     (case fst (World c) of Some t \<Rightarrow> Inr t | None \<Rightarrow> Inl (NotFoundError ''not found''))"
  "fst (create_template sample_api ns t c) = None"
  by (simp_all add: get_template_def create_template_def sample_api_def)

lemma sample_created:
  "\<exists>c'. sample_reconcile (Inr sample_bounds) None = (None, c') \<and>
    template_log c' = [GotTemplate ''default'' ''qwen3'' (Inl (NotFoundError ''not found'')),
                       CreatedTemplate ''default'' sample_desired None]"
proof -
  define c1 where "c1 = snd (resolve_claim (sample_answer (Inr sample_bounds)) 0 sample_claim (sample_start None))"
  have c1: "template_log c1 = []" "fst (World c1) = None"
    by (simp_all add: c1_def sample_log) (simp add: sample_start_def)
  have "\<exists>c3. ensure_template sample_library sample_api 0 sample_claim ''default'' ''qwen3'' sample_bounds
      sample_desired nt c1 = (TemplateReady, c3) \<and>
      template_log c3 = [GotTemplate ''default'' ''qwen3'' (Inl (NotFoundError ''not found'')),
        CreatedTemplate ''default'' sample_desired None]" for nt
    unfolding ensure_template_def by (simp add: prod.case_eq_if c1)
  then obtain c3 where c3: "ensure_template sample_library sample_api 0 sample_claim ''default'' ''qwen3'' sample_bounds
      sample_desired (target_note (device_class sample_claim) sample_claim) c1 = (TemplateReady, c3)"
    "template_log c3 = [GotTemplate ''default'' ''qwen3'' (Inl (NotFoundError ''not found'')),
        CreatedTemplate ''default'' sample_desired None]" by blast
  have "sample_reconcile (Inr sample_bounds) None =
      reconcile_resolved sample_library sample_api shipped_boards sample_informers 0 sample_claim ''default'' ''qwen3'' sample_bounds c1"
    unfolding sample_reconcile_def reconcile_def reconcile_claim_def c1_def by simp
  then have "sample_reconcile (Inr sample_bounds) None =
      report_verdict sample_library sample_api 0 sample_claim ''default'' ''qwen3'' sample_bounds
        (evaluateCandidates sample_informers shipped_boards sample_bounds (device_class sample_claim)
          (computeFloor sample_claim) (TargetDriver (Spec sample_claim))) c3"
    unfolding reconcile_resolved_def c3(1) by simp
  then show ?thesis
    using c3(2) by (metis prod.collapse quiet_report report_verdict_def sample_update(1))
qed

theorem reconcile_refines_protocol_witness:
  "\<exists>c' calls. sample_reconcile (Inr sample_bounds) None = (None, c') \<and> template_log c' = calls \<and> length calls = 2 \<and>
    template_run sample_library sample_claim ''default'' ''qwen3'' sample_desired calls"
proof -
  obtain c' where c': "sample_reconcile (Inr sample_bounds) None = (None, c')"
    "template_log c' = [GotTemplate ''default'' ''qwen3'' (Inl (NotFoundError ''not found'')),
       CreatedTemplate ''default'' sample_desired None]"
    using sample_created by blast
  from reconcile_refines_protocol [OF c'(1) [unfolded sample_reconcile_def]] c' show ?thesis
    by (auto simp: sample_log)
qed

lemma sample_found:
  assumes "sample_reconcile (Inr sample_bounds) (Some sample_desired) = (r, c')"
  shows "GotTemplate ''default'' ''qwen3'' (Inr sample_desired) \<in> set (template_log c')"
proof -
  define c1 where "c1 = snd (resolve_claim (sample_answer (Inr sample_bounds)) 0 sample_claim
      (sample_start (Some sample_desired)))"
  have c1: "template_log c1 = []" "fst (World c1) = Some sample_desired"
    by (simp_all add: c1_def sample_log) (simp add: sample_start_def)
  have "\<not> TemplateNeedsUpdate sample_desired sample_desired"
    unfolding desired_template_def using template_update_settles by blast
  moreover have "c' = snd (reconcile_resolved sample_library sample_api shipped_boards sample_informers 0 sample_claim
      ''default'' ''qwen3'' sample_bounds c1)"
    using assms unfolding sample_reconcile_def reconcile_def reconcile_claim_def c1_def by simp
  ultimately show ?thesis
    by (simp add: reconcile_resolved_def ensure_template_def prod.case_eq_if c1 built_template_controlled)
qed

theorem reconcile_converges_witness:
  "\<exists>c' t r d'. sample_reconcile (Inr sample_bounds) None = (None, c') \<and>
     left_template (template_log c') = Some t \<and> controlled_by t sample_claim \<and>
     sample_reconcile (Inr sample_bounds) (Some t) = (r, d') \<and>
     template_log d' = [GotTemplate ''default'' ''qwen3'' (Inr t)]"
proof -
  obtain c' where c': "sample_reconcile (Inr sample_bounds) None = (None, c')"
    "template_log c' = [GotTemplate ''default'' ''qwen3'' (Inl (NotFoundError ''not found'')),
       CreatedTemplate ''default'' sample_desired None]"
    using sample_created by blast
  obtain r d' where d': "sample_reconcile (Inr sample_bounds) (Some sample_desired) = (r, d')" by fastforce
  have log: "template_log c' = template_log (sample_start None) @ template_log c'" "template_log c' \<noteq> []"
    "template_log d' = template_log (sample_start (Some sample_desired)) @ template_log d'"
    by (simp_all add: sample_log c'(2))
  have cached: "cachedClaim sample_informers ''default/qwen3'' = Inr (Some sample_claim)"
    "fromUnstructured sample_library sample_claim = Inr sample_claim" by simp_all
  have own: "\<forall>ns' n' live. GotTemplate ns' n' (Inr live) \<in> set (template_log c') \<longrightarrow>
      controlled_by live sample_claim"
    by (simp add: c'(2))
  have left: "left_template (template_log c') = Some sample_desired"
    by (simp add: c'(2) left_template_def)
  obtain b t where b: "fst (resolve_claim (sample_answer (Inr sample_bounds)) 0 sample_claim (sample_start None)) = Inr b"
    and t: "left_template (template_log c') = Some t" "controlled_by t sample_claim"
      "Requests t = Requests (desired_template sample_claim b shipped_boards)"
      "\<not> TemplateNeedsUpdate t (desired_template sample_claim b shipped_boards)"
    and later: "\<forall>(api' :: (model_claim, sample_world) api) resolver' infs' now' d d' r u' st later.
       reconcile sample_library api' resolver' shipped_boards infs' now' ''default/qwen3'' d = (r, d') \<and>
       cachedClaim infs' ''default/qwen3'' = Inr (Some u') \<and>
       fromUnstructured sample_library u' = Inr (sample_claim\<lparr>Status := st\<rparr>) \<and>
       fst (resolve_claim resolver' now' (sample_claim\<lparr>Status := st\<rparr>) d) = Inr b \<and>
       template_log d' = template_log d @ later \<and> GotTemplate ''default'' ''qwen3'' (Inr t) \<in> set later \<longrightarrow>
       later = [GotTemplate ''default'' ''qwen3'' (Inr t)]"
    using reconcile_converges [OF c'(1) [unfolded sample_reconcile_def] log(1,2) sample_fields(1) cached
        sample_fields(3) own]
    by (elim exE conjE) (rule that; assumption)
  have "t = sample_desired" "b = sample_bounds" using t(1) left b by simp_all
  moreover have "sample_claim\<lparr>Status := Status sample_claim\<rparr> = sample_claim" by simp
  ultimately have "template_log d' = [GotTemplate ''default'' ''qwen3'' (Inr sample_desired)]"
    using later [rule_format, of sample_api "sample_answer (Inr sample_bounds)" sample_informers 0
        "sample_start (Some sample_desired)" r d' sample_claim "Status sample_claim" "template_log d'"]
      d' [unfolded sample_reconcile_def] log(3) sample_found [OF d'] by simp
  then show ?thesis using c'(1) d' t \<open>t = sample_desired\<close> by blast
qed

theorem failed_resolution_keeps_template_witness:
  "\<exists>r c'. sample_reconcile (Inl ''no model database'') (Some sample_desired) = (r, c') \<and>
    template_log c' = [] \<and> r \<noteq> None"
proof -
  obtain r c' where r: "sample_reconcile (Inl ''no model database'') (Some sample_desired) = (r, c')" by fastforce
  have "template_log c' = template_log (sample_start (Some sample_desired)) \<and>
      (modelRefPattern (Model (Spec sample_claim)) \<longrightarrow> r \<noteq> None)"
    by (rule failed_resolution_keeps_template [OF r [unfolded sample_reconcile_def]]) simp_all
  with r show ?thesis by (simp add: sample_log)
qed

theorem conditions_agree_witness:
  "\<exists>r c' u. sample_reconcile (Inl ''no model database'') None = (r, c') \<and> u \<in> status_writes c' \<and>
    (condition_is sample_library (Status u) ConditionResolved ConditionTrue \<or>
     condition_is sample_library (Status u) ConditionSatisfiable ConditionUnknown)"
proof -
  have law: "conditions_law sample_library"
  proof -
    have other: "find (\<lambda>x. condType x = t) (filter (\<lambda>x. condType x \<noteq> k) cs) = find (\<lambda>x. condType x = t) cs"
      if "t \<noteq> k" for t k and cs :: "condition list"
      using that by (induction cs) auto
    then show ?thesis by (simp add: conditions_law_def sample_library_def)
  qed
  obtain r c' where r: "sample_reconcile (Inl ''no model database'') None = (r, c')" by fastforce
  have "snd (sample_reconcile (Inl ''no model database'') None) =
      snd (refuse sample_library sample_api 0 sample_claim ''default'' ''qwen3'' ResolveFailed ''no model database''
        ''bounds unavailable while resolve fails'' (sample_start None))"
    by (simp add: sample_reconcile_def reconcile_def reconcile_claim_def reconcile_unresolved_def prod.case_eq_if)
  then have "status_writes c' \<noteq> {}" "status_writes (sample_start None) = {}"
    by (simp_all add: r refuse_def) (simp add: status_writes_def sample_start_def)
  then obtain u where u: "u \<in> status_writes c'" "u \<notin> status_writes (sample_start None)" by blast
  from conditions_agree [OF law r [unfolded sample_reconcile_def] u] r u(1) show ?thesis by auto
qed

theorem foreign_template_untouched_witness:
  "\<exists>r c' calls. sample_reconcile (Inr sample_bounds) (Some (sample_desired\<lparr>OwnerReferences := []\<rparr>)) = (r, c') \<and>
    template_log c' = calls \<and> calls = [GotTemplate ''default'' ''qwen3'' (Inr (sample_desired\<lparr>OwnerReferences := []\<rparr>))]"
proof -
  let ?live = "sample_desired\<lparr>OwnerReferences := []\<rparr>"
  obtain r c' where r: "sample_reconcile (Inr sample_bounds) (Some ?live) = (r, c')" by fastforce
  have foreign: "\<not> controlled_by ?live sample_claim" by (simp add: controlled_by_def)
  define c1 where "c1 = snd (resolve_claim (sample_answer (Inr sample_bounds)) 0 sample_claim (sample_start (Some ?live)))"
  have c1: "template_log c1 = []" "fst (World c1) = Some ?live"
    by (simp_all add: c1_def sample_log) (simp add: sample_start_def)
  have "c' = snd (reconcile_resolved sample_library sample_api shipped_boards sample_informers 0 sample_claim
      ''default'' ''qwen3'' sample_bounds c1)"
    using r unfolding sample_reconcile_def reconcile_def reconcile_claim_def c1_def by simp
  then have "GotTemplate ''default'' ''qwen3'' (Inr ?live) \<in> set (template_log c')"
    using foreign by (simp add: reconcile_resolved_def ensure_template_def prod.case_eq_if c1)
  moreover have "template_log c' = template_log (sample_start (Some ?live)) @ template_log c'"
    by (simp add: sample_log)
  ultimately have "template_log c' = [GotTemplate ''default'' ''qwen3'' (Inr ?live)]"
    using foreign by (intro foreign_template_untouched [OF r [unfolded sample_reconcile_def]]) simp_all
  with r show ?thesis by blast
qed

end
