(* ===== verification/Isolation.thy ===== *)
theory Isolation
  imports Reconciling
begin

text \<open>
  Reconciles of different ModelClaims beside each other.  The server is one in which every call
  acts on the objects of its own namespace and name, and other clients act on other names between
  the calls.  A locale states when two servers answer alike to the calls of one reconcile; a reconcile
  over one is then step by step a reconcile over the other.
\<close>

section \<open>Two servers that answer alike\<close>

definition same_controller ::
  "('w1 \<Rightarrow> 'w2 \<Rightarrow> bool) \<Rightarrow> ('u, 'w1) controller \<Rightarrow> ('u, 'w2) controller \<Rightarrow> bool" where
  "same_controller R c1 c2 \<longleftrightarrow>
     R (World c1) (World c2) \<and> resolveCache c1 = resolveCache c2 \<and> lastEvent c1 = lastEvent c2 \<and>
     Calls c1 = Calls c2"

definition alike ::
  "('w1 \<Rightarrow> 'w2 \<Rightarrow> bool) \<Rightarrow> 'a \<times> ('u, 'w1) controller \<Rightarrow> 'a \<times> ('u, 'w2) controller \<Rightarrow> bool" where
  "alike R p1 p2 \<longleftrightarrow> fst p1 = fst p2 \<and> same_controller R (snd p1) (snd p2)"

lemma alikeI [intro]: "same_controller R c1 c2 \<Longrightarrow> alike R (r, c1) (r, c2)"
  by (simp add: alike_def)

lemma alike_case:
  assumes "alike R p1 p2"
    and "\<And>r c1 c2. same_controller R c1 c2 \<Longrightarrow> fst p2 = r \<Longrightarrow> alike R (f r c1) (g r c2)"
  shows "alike R (case_prod f p1) (case_prod g p2)"
  using assms by (cases p1; cases p2) (auto simp: alike_def)

definition names_objects :: "('u \<Rightarrow> string) \<Rightarrow> ('u, 'w) api \<Rightarrow> bool" where
  \<comment> \<open>what the server returns for a name has that name\<close>
  "names_objects uname api \<longleftrightarrow>
     (\<forall>ns n w t. fst (GetTemplate api ns n w) = Inr t \<longrightarrow> tmplName t = n) \<and>
     (\<forall>ns n w u. fst (GetClaim api ns n w) = Inr u \<longrightarrow> uname u = n)"

definition encodes_names :: "('u \<Rightarrow> string) \<Rightarrow> 'u library \<Rightarrow> bool" where
  \<comment> \<open>decoding and encoding again with another status keeps the name\<close>
  "encodes_names uname lib \<longleftrightarrow>
     (\<forall>u mc st u'. FromUnstructured lib u = Inr mc \<longrightarrow> ToUnstructured lib (mc\<lparr>Status := st\<rparr>) = Inr u' \<longrightarrow>
        uname u' = uname u)"

locale answers_alike =
  fixes R :: "'w1 \<Rightarrow> 'w2 \<Rightarrow> bool" and ns n :: string and uname :: "'u \<Rightarrow> string"
    and api1 :: "('u, 'w1) api" and api2 :: "('u, 'w2) api"
    and resolver1 :: "'w1 resolver" and resolver2 :: "'w2 resolver"
  assumes get_t: "R w1 w2 \<Longrightarrow> rel_prod (=) R (GetTemplate api1 ns n w1) (GetTemplate api2 ns n w2)"
    and create_t: "R w1 w2 \<Longrightarrow> tmplName t = n \<Longrightarrow>
      rel_prod (=) R (CreateTemplate api1 ns t w1) (CreateTemplate api2 ns t w2)"
    and update_t: "R w1 w2 \<Longrightarrow> tmplName t = n \<Longrightarrow>
      rel_prod (=) R (UpdateTemplate api1 ns t w1) (UpdateTemplate api2 ns t w2)"
    and delete_t: "R w1 w2 \<Longrightarrow> rel_prod (=) R (DeleteTemplate api1 ns n w1) (DeleteTemplate api2 ns n w2)"
    and get_c: "R w1 w2 \<Longrightarrow> rel_prod (=) R (GetClaim api1 ns n w1) (GetClaim api2 ns n w2)"
    and update_c: "R w1 w2 \<Longrightarrow> uname u = n \<Longrightarrow>
      rel_prod (=) R (UpdateClaimStatus api1 ns u w1) (UpdateClaimStatus api2 ns u w2)"
    and create_e: "R w1 w2 \<Longrightarrow> evObjectNamespace ev = ns \<Longrightarrow> evObjectName ev = n \<Longrightarrow>
      R (CreateEvent api1 ev w1) (CreateEvent api2 ev w2)"
    and resolver: "R w1 w2 \<Longrightarrow> rel_prod (=) R (resolver1 m tps q e w1) (resolver2 m tps q e w2)"
begin

lemma alike_get_template:
  "same_controller R c1 c2 \<Longrightarrow> alike R (get_template api1 ns n c1) (get_template api2 ns n c2)"
  using get_t [of "World c1" "World c2"]
  by (auto simp: get_template_def alike_def same_controller_def rel_prod_sel split: prod.split)

lemma alike_create_template:
  "same_controller R c1 c2 \<Longrightarrow> tmplName t = n \<Longrightarrow> alike R (create_template api1 ns t c1) (create_template api2 ns t c2)"
  using create_t [of "World c1" "World c2" t]
  by (auto simp: create_template_def alike_def same_controller_def rel_prod_sel split: prod.split)

lemma alike_update_template:
  "same_controller R c1 c2 \<Longrightarrow> tmplName t = n \<Longrightarrow> alike R (update_template api1 ns t c1) (update_template api2 ns t c2)"
  using update_t [of "World c1" "World c2" t]
  by (auto simp: update_template_def alike_def same_controller_def rel_prod_sel split: prod.split)

lemma alike_delete_template:
  "same_controller R c1 c2 \<Longrightarrow> alike R (delete_template api1 ns n c1) (delete_template api2 ns n c2)"
  using delete_t [of "World c1" "World c2"]
  by (auto simp: delete_template_def alike_def same_controller_def rel_prod_sel split: prod.split)

lemma alike_get_claim:
  "same_controller R c1 c2 \<Longrightarrow> alike R (get_claim api1 ns n c1) (get_claim api2 ns n c2)"
  using get_c [of "World c1" "World c2"]
  by (auto simp: get_claim_def alike_def same_controller_def rel_prod_sel split: prod.split)

lemma alike_write_status:
  "same_controller R c1 c2 \<Longrightarrow> uname u = n \<Longrightarrow> alike R (write_status api1 ns u c1) (write_status api2 ns u c2)"
  using update_c [of "World c1" "World c2" u]
  by (auto simp: write_status_def alike_def same_controller_def rel_prod_sel split: prod.split)

lemma alike_resolve_claim:
  "same_controller R c1 c2 \<Longrightarrow> alike R (resolve_claim resolver1 now mc c1) (resolve_claim resolver2 now mc c2)"
  using resolver [of "World c1" "World c2" "Model (Spec mc)" "min_tps mc" "Quant (Spec mc)" "efficiency_pct mc"]
  by (auto simp: resolve_claim_def resolve_def alike_def same_controller_def rel_prod_sel
      split: prod.splits option.splits sum.splits)

lemma same_event:
  assumes "same_controller R c1 c2" and "mcNamespace mc = ns" "mcName mc = n"
  shows "same_controller R (event api1 now mc type rsn message c1) (event api2 now mc type rsn message c2)"
proof -
  have "evObjectNamespace ev = ns \<and> evObjectName ev = n" if "event_step mc ty rs ms now seen = (Some ev, seen')"
    for ty rs ms seen ev seen'
    using that assms(2,3) by (auto simp: event_step_def eventFor_def split: if_splits)
  then show ?thesis
    using assms(1) by (auto simp: event_def same_controller_def create_e split: prod.split option.split)
qed

end

section \<open>A reconcile over two such servers\<close>

lemma names_got:
  assumes "names_objects uname api"
  shows "fst (get_template api ns n c) = Inr t \<Longrightarrow> tmplName t = n"
    and "fst (get_claim api ns n c) = Inr u \<Longrightarrow> uname u = n"
  using assms by (simp_all add: names_objects_def get_template_def get_claim_def prod.case_eq_if)

lemma encoded_name:
  assumes "encodes_names uname lib"
  shows "fromUnstructured lib u = Inr mc \<Longrightarrow> ToUnstructured lib (mc\<lparr>Status := st\<rparr>) = Inr u' \<Longrightarrow> uname u' = uname u"
  using assms by (fastforce simp: encodes_names_def fromUnstructured_def split: sum.splits)

lemma same_names [simp]:
  "tmplName (updated_template live desired) = tmplName live"
  "tmplName (desired_template mc b bs) = mcName mc"
  by (simp_all add: updated_template_def desired_template_def BuildTemplate_def)

context answers_alike begin

lemma alike_updateStatus:
  assumes "same_controller R c1 c2" and "names_objects uname api2" "encodes_names uname lib"
  shows "alike R (updateStatus lib api1 ns n mutate c1) (updateStatus lib api2 ns n mutate c2)"
  unfolding updateStatus_def
proof (rule alike_case [OF alike_get_claim [OF assms(1)]], goal_cases)
  case (1 r d1 d2)
  have wrote: "alike R (case write_status api1 ns u d1 of (r, c) \<Rightarrow> (status_written r, c))
      (case write_status api2 ns u d2 of (r, c) \<Rightarrow> (status_written r, c))" if "uname u = n" for u
    by (rule alike_case [OF alike_write_status [OF 1(1) that]]) (rule alikeI)
  have "uname u' = n" if "r = Inr u" "fromUnstructured lib u = Inr mc"
      "ToUnstructured lib (mc\<lparr>Status := mutate (Status mc)\<rparr>) = Inr u'" for u mc u'
    using encoded_name [OF assms(3) that(2,3)] names_got(2) [OF assms(2) 1(2) [unfolded that(1)]] by simp
  with 1(1) wrote show ?case by (auto split: sum.split api_error.split)
qed

lemma alike_refuse:
  assumes "same_controller R c1 c2" and "names_objects uname api2" "encodes_names uname lib"
    and "mcNamespace mc = ns" "mcName mc = n"
  shows "alike R (refuse lib api1 now mc ns n rsn message nt c1) (refuse lib api2 now mc ns n rsn message nt c2)"
  unfolding refuse_def by (rule alike_updateStatus [OF same_event [OF assms(1,4,5)] assms(2,3)])

lemma alike_overwrite:
  assumes "same_controller R c1 c2" and "tmplName live = n" "tmplName desired = n"
  shows "alike R (overwrite_template api1 ns n live desired c1) (overwrite_template api2 ns n live desired c2)"
proof -
  have recreate: "alike R (recreate_template api1 ns n desired d1) (recreate_template api2 ns n desired d2)"
    if d: "same_controller R d1 d2" for d1 d2
    unfolding recreate_template_def
  proof (rule alike_case [OF alike_delete_template [OF d]], goal_cases)
    case (1 r e1 e2)
    have "alike R (case create_template api1 ns desired e1 of
          (Some e, c2) \<Rightarrow> (Some (''recreating template: '' @ error_text e), c2) | (None, c2) \<Rightarrow> (None, c2))
        (case create_template api2 ns desired e2 of
          (Some e, c2) \<Rightarrow> (Some (''recreating template: '' @ error_text e), c2) | (None, c2) \<Rightarrow> (None, c2))"
      by (rule alike_case [OF alike_create_template [OF 1(1) assms(3)]]) (auto split: option.split)
    with 1(1) show ?case by (auto split: option.split)
  qed
  show ?thesis
    unfolding overwrite_template_def
    by (rule alike_case [OF alike_update_template [OF assms(1)]])
      (use recreate assms(2) in \<open>auto split: option.split api_error.split\<close>)
qed

lemma alike_ensure:
  assumes "same_controller R c1 c2" and "names_objects uname api2"
    and "mcNamespace mc = ns" "mcName mc = n" and desired: "tmplName desired = n"
  shows "alike R (ensure_template lib api1 now mc ns n b desired note c1)
    (ensure_template lib api2 now mc ns n b desired note c2)"
  unfolding ensure_template_def
proof (rule alike_case [OF alike_get_template [OF assms(1)]], goal_cases)
  case (1 r d1 d2)
  have ev: "alike R (TemplateReady, event api1 now mc ty rs ms e1) (TemplateReady, event api2 now mc ty rs ms e2)"
    if "same_controller R e1 e2" for ty rs ms e1 e2
    by (rule alikeI) (rule same_event [OF that assms(3,4)])
  have create: "alike R
      (case create_template api1 ns desired d1 of
         (Some e, c2) \<Rightarrow> (TemplateFailed (''creating template: '' @ error_text e), c2)
       | (None, c2) \<Rightarrow> (TemplateReady, event api1 now mc ''Normal'' TemplateCreated (created_message n b note) c2))
      (case create_template api2 ns desired d2 of
         (Some e, c2) \<Rightarrow> (TemplateFailed (''creating template: '' @ error_text e), c2)
       | (None, c2) \<Rightarrow> (TemplateReady, event api2 now mc ''Normal'' TemplateCreated (created_message n b note) c2))"
    by (rule alike_case [OF alike_create_template [OF 1(1) desired]]) (auto intro: ev split: option.split)
  have overwrite: "alike R
      (case overwrite_template api1 ns n live desired d1 of
         (Some e, c2) \<Rightarrow> (TemplateFailed e, c2)
       | (None, c2) \<Rightarrow> (TemplateReady, event api1 now mc ''Normal'' TemplateUpdated (updated_message b) c2))
      (case overwrite_template api2 ns n live desired d2 of
         (Some e, c2) \<Rightarrow> (TemplateFailed e, c2)
       | (None, c2) \<Rightarrow> (TemplateReady, event api2 now mc ''Normal'' TemplateUpdated (updated_message b) c2))"
    if "r = Inr live" for live
    by (rule alike_case [OF alike_overwrite [OF 1(1) names_got(1) [OF assms(2) 1(2) [unfolded that]] desired]])
      (auto intro: ev split: option.split)
  show ?case using 1(1) create overwrite by (auto split: sum.split api_error.split)
qed

lemma alike_report:
  assumes "same_controller R c1 c2" and "names_objects uname api2" "encodes_names uname lib"
    and "mcNamespace mc = ns" "mcName mc = n"
  shows "alike R (report_verdict lib api1 now mc ns n b cands c1) (report_verdict lib api2 now mc ns n b cands c2)"
proof -
  have "same_controller R (announce_verdict lib api1 now mc cands c1) (announce_verdict lib api2 now mc cands c2)"
    using assms(1) same_event [OF assms(1,4,5)] by (auto simp: announce_verdict_def split: prod.split)
  then show ?thesis unfolding report_verdict_def by (rule alike_updateStatus [OF _ assms(2,3)])
qed

lemma alike_reconcile_claim:
  assumes c: "same_controller R c1 c2" and "names_objects uname api2" "encodes_names uname lib"
    and "mcNamespace mc = ns" "mcName mc = n"
  shows "alike R (reconcile_claim lib api1 resolver1 bs infs now mc ns n c1)
    (reconcile_claim lib api2 resolver2 bs infs now mc ns n c2)"
proof -
  note refuse = alike_refuse [OF _ assms(2-5)] and report = alike_report [OF _ assms(2-5)]
  have unresolved: "alike R (reconcile_unresolved lib api1 now mc ns n err d1) (reconcile_unresolved lib api2 now mc ns n err d2)"
    if "same_controller R d1 d2" for err d1 d2
    unfolding reconcile_unresolved_def by (rule alike_case [OF refuse [OF that]]) (auto split: option.split)
  have resolved: "alike R (reconcile_resolved lib api1 bs infs now mc ns n b d1) (reconcile_resolved lib api2 bs infs now mc ns n b d2)"
    if "same_controller R d1 d2" for b d1 d2
    unfolding reconcile_resolved_def
    by (rule alike_case [OF alike_ensure [OF that assms(2,4,5)]])
      (auto intro: refuse report simp: assms(5) split: template_outcome.split)
  show ?thesis
  proof (cases "modelRefPattern (Model (Spec mc))")
    case True
    have "alike R
        (case resolve_claim resolver1 now mc c1 of
           (Inl err, c1) \<Rightarrow> reconcile_unresolved lib api1 now mc ns n err c1
         | (Inr b, c1) \<Rightarrow> reconcile_resolved lib api1 bs infs now mc ns n b c1)
        (case resolve_claim resolver2 now mc c2 of
           (Inl err, c1) \<Rightarrow> reconcile_unresolved lib api2 now mc ns n err c1
         | (Inr b, c1) \<Rightarrow> reconcile_resolved lib api2 bs infs now mc ns n b c1)"
      by (rule alike_case [OF alike_resolve_claim [OF c]]) (auto intro: unresolved resolved split: sum.split)
    with True show ?thesis by (simp add: reconcile_claim_def)
  qed (simp add: reconcile_claim_def refuse [OF c])
qed

lemma alike_reconcile:
  assumes "same_controller R c1 c2" and "names_objects uname api2" "encodes_names uname lib"
    and "SplitMetaNamespaceKey lib key = Some (ns, n)"
    and "\<And>u mc. cachedClaim infs key = Inr (Some u) \<Longrightarrow> fromUnstructured lib u = Inr mc \<Longrightarrow>
      mcNamespace mc = ns \<and> mcName mc = n"
  shows "alike R (reconcile lib api1 resolver1 bs infs now key c1) (reconcile lib api2 resolver2 bs infs now key c2)"
  using assms(1,4,5) alike_reconcile_claim [OF _ assms(2,3)]
  by (auto simp: reconcile_def split: sum.split option.split)

end

section \<open>A server of many objects, used by others meanwhile\<close>

text \<open>
  The state of the cluster has one component per namespace and name; a call on an object acts on
  its component.  Before each call other clients may act: the world carries, for every call to
  come, the actions that precede it, each on the component of its own object.
\<close>

type_synonym 'v cluster = "string \<times> string \<Rightarrow> 'v"
type_synonym 'v action = "(string \<times> string) \<times> ('v \<Rightarrow> 'v)"
type_synonym 'v crowd = "'v cluster \<times> 'v action list list"

definition act :: "'v action list \<Rightarrow> 'v cluster \<Rightarrow> 'v cluster" where
  "act as W = fold (\<lambda>(k, g) W. W(k := g (W k))) as W"

definition on_key :: "string \<times> string \<Rightarrow> ('v \<Rightarrow> 'a \<times> 'v) \<Rightarrow> 'v crowd \<Rightarrow> 'a \<times> 'v crowd" where
  "on_key k f x =
     (let W = act (concat (take 1 (snd x))) (fst x); p = f (W k)
      in (fst p, W(k := snd p), drop 1 (snd x)))"

definition crowded_api :: "('u \<Rightarrow> string) \<Rightarrow> ('u, 'v) api \<Rightarrow> ('u, 'v crowd) api" where
  "crowded_api uname obj =
     \<lparr>GetTemplate = (\<lambda>ns n. on_key (ns, n) (GetTemplate obj ns n)),
      CreateTemplate = (\<lambda>ns t. on_key (ns, tmplName t) (CreateTemplate obj ns t)),
      UpdateTemplate = (\<lambda>ns t. on_key (ns, tmplName t) (UpdateTemplate obj ns t)),
      DeleteTemplate = (\<lambda>ns n. on_key (ns, n) (DeleteTemplate obj ns n)),
      GetClaim = (\<lambda>ns n. on_key (ns, n) (GetClaim obj ns n)),
      UpdateClaimStatus = (\<lambda>ns u. on_key (ns, uname u) (UpdateClaimStatus obj ns u)),
      CreateEvent = (\<lambda>ev x. snd (on_key (evObjectNamespace ev, evObjectName ev)
        (\<lambda>v. ((), CreateEvent obj ev v)) x))\<rparr>"

definition crowded_resolver :: "string \<times> string \<Rightarrow> 'v resolver \<Rightarrow> 'v crowd resolver" where
  "crowded_resolver k resolver = (\<lambda>m tps q e. on_key k (resolver m tps q e))"

definition beside :: "string \<times> string \<Rightarrow> 'v crowd \<Rightarrow> 'v crowd \<Rightarrow> 'v \<Rightarrow> bool" where
  \<comment> \<open>from a start at which no action to come is on \<open>k\<close>: \<open>k\<close> has this state, and what the
     others did is all that has happened to the other objects\<close>
  "beside k start x v \<longleftrightarrow>
     fst x k = v \<and>
     (\<forall>as \<in> set (snd start). \<forall>a \<in> set as. fst a \<noteq> k) \<and>
     (\<exists>i. snd x = drop i (snd start) \<and>
        (\<forall>k'. k' \<noteq> k \<longrightarrow> fst x k' = act (concat (take i (snd start))) (fst start) k'))"

lemma act_simps [simp]:
  "act [] W = W"
  "act (a # as) W = act as (W(fst a := snd a (W (fst a))))"
  "act (as @ bs) W = act bs (act as W)"
  by (simp_all add: act_def case_prod_beta)

lemma act_elsewhere: "\<forall>a \<in> set as. fst a \<noteq> k \<Longrightarrow> act as W k = W k"
  by (induction as arbitrary: W) auto

text \<open>The actions on one component depend on that component only.\<close>

lemma act_local: "W k = W' k \<Longrightarrow> act as W k = act as W' k"
proof (induction as arbitrary: W W')
  case (Cons a as)
  show ?case unfolding act_simps by (rule Cons.IH) (use Cons.prems in auto)
qed simp

lemma on_key_beside:
  assumes "beside k start x v"
  shows "rel_prod (=) (beside k start) (on_key k f x) (f v)"
proof -
  obtain i where i: "snd x = drop i (snd start)"
      "\<And>k'. k' \<noteq> k \<Longrightarrow> fst x k' = act (concat (take i (snd start))) (fst start) k'"
    and others: "\<forall>as \<in> set (snd start). \<forall>a \<in> set as. fst a \<noteq> k" and v: "fst x k = v"
    using assms by (auto simp: beside_def)
  define b where "b = concat (take 1 (snd x))"
  have "set (take 1 (snd x)) \<subseteq> set (snd start)"
    unfolding i(1) by (meson order.trans set_drop_subset set_take_subset)
  then have "\<forall>a \<in> set b. fst a \<noteq> k" using others by (auto simp: b_def)
  then have here: "act b (fst x) k = v" using act_elsewhere v by metis
  have taken: "concat (take (Suc i) (snd start)) = concat (take i (snd start)) @ b"
    unfolding b_def i(1) using take_add [of i 1 "snd start"] by simp
  have "act b (fst x) k' = act (concat (take (Suc i) (snd start))) (fst start) k'" if "k' \<noteq> k" for k'
    unfolding taken act_simps by (rule act_local) (rule i(2) [OF that])
  moreover have "drop 1 (snd x) = drop (Suc i) (snd start)" by (simp add: i(1))
  ultimately have "beside k start ((act b (fst x))(k := snd (f v)), drop 1 (snd x)) (snd (f v))"
    using others unfolding beside_def by (intro conjI exI [of _ "Suc i"]) auto
  then show ?thesis unfolding on_key_def Let_def rel_prod_sel b_def [symmetric] by (simp add: here)
qed

interpretation crowd: answers_alike "beside (ns, n) start" ns n uname "crowded_api uname obj" obj
  "crowded_resolver (ns, n) resolver" resolver
  for ns n start uname obj resolver
proof
  fix x v and ev :: core_event assume "beside (ns, n) start x v" "evObjectNamespace ev = ns" "evObjectName ev = n"
  then show "beside (ns, n) start (CreateEvent (crowded_api uname obj) ev x) (CreateEvent obj ev v)"
    using on_key_beside [of "(ns, n)" start x v "\<lambda>v. ((), CreateEvent obj ev v)"]
    by (simp add: crowded_api_def rel_prod_sel)
qed (auto simp: crowded_api_def crowded_resolver_def intro: on_key_beside)

section \<open>Properties\<close>

text \<open>
  C12: ModelClaims are reconciled in isolation.  While a worker reconciles one ModelClaim, other
  workers and clients may act on the templates, claims and events of every other name between any
  two of its calls.  The result, the calls with their answers, the two memories and the objects of its
  own name are those of a reconcile that is alone; and what the objects of the other names have
  undergone is exactly what the others did.
\<close>

theorem reconcile_isolated:
  assumes "names_objects uname obj" "encodes_names uname lib"
    and key: "SplitMetaNamespaceKey lib key = Some (ns, n)"
    and cached: "\<forall>u mc. cachedClaim infs key = Inr (Some u) \<and> fromUnstructured lib u = Inr mc \<longrightarrow>
      mcNamespace mc = ns \<and> mcName mc = n"
    and others: "\<forall>as \<in> set batches. \<forall>a \<in> set as. fst a \<noteq> (ns, n)"
    and crowded: "reconcile lib (crowded_api uname obj) (crowded_resolver (ns, n) resolver) bs infs now key
      \<lparr>World = (W, batches), resolveCache = cache, lastEvent = seen, Calls = calls\<rparr> = (r, c)"
    and alone: "reconcile lib obj resolver bs infs now key
      \<lparr>World = W (ns, n), resolveCache = cache, lastEvent = seen, Calls = calls\<rparr> = (r1, c1)"
  shows "r = r1 \<and> Calls c = Calls c1 \<and> resolveCache c = resolveCache c1 \<and> lastEvent c = lastEvent c1 \<and>
    fst (World c) (ns, n) = World c1 \<and>
    (\<exists>i. \<forall>k. k \<noteq> (ns, n) \<longrightarrow> fst (World c) k = act (concat (take i batches)) W k)"
proof -
  have "beside (ns, n) (W, batches) (W, batches) (W (ns, n))"
    using others unfolding beside_def by (intro conjI exI [of _ 0]) auto
  then have "same_controller (beside (ns, n) (W, batches))
      \<lparr>World = (W, batches), resolveCache = cache, lastEvent = seen, Calls = calls\<rparr>
      \<lparr>World = W (ns, n), resolveCache = cache, lastEvent = seen, Calls = calls\<rparr>"
    by (simp add: same_controller_def)
  from crowd.alike_reconcile [OF this assms(1,2) key, of infs resolver bs now] cached
  have "alike (beside (ns, n) (W, batches)) (r, c) (r1, c1)" by (simp add: crowded alone)
  then have "r = r1" "same_controller (beside (ns, n) (W, batches)) c c1" by (simp_all add: alike_def)
  then show ?thesis by (auto simp: same_controller_def beside_def)
qed

definition sample_object_api :: "(model_claim, sample_world) api" where
  \<comment> \<open>the server of theory Reconciling, for one object of a name\<close>
  "sample_object_api = sample_api
     \<lparr>GetTemplate := (\<lambda>_ n w. (case fst w of
        Some t \<Rightarrow> if tmplName t = n then Inr t else Inl (NotFoundError ''not found'')
      | None \<Rightarrow> Inl (NotFoundError ''not found''), w)),
      GetClaim := (\<lambda>_ n w. (if mcName (snd w) = n then Inr (snd w) else Inl (NotFoundError ''not found''), w))\<rparr>"

lemma sample_names:
  "names_objects mcName sample_object_api" "encodes_names mcName sample_library"
  by (auto simp: names_objects_def encodes_names_def sample_object_api_def sample_api_def sample_library_def
      split: option.splits if_splits)

theorem reconcile_isolated_witness:
  "\<exists>r c r1 c1. reconcile sample_library (crowded_api mcName sample_object_api)
      (crowded_resolver (''default'', ''qwen3'') (sample_answer (Inr sample_bounds))) shipped_boards sample_informers 0
      ''default/qwen3'' \<lparr>World = (\<lambda>_. (None, sample_claim),
        [[], [((''ml'', ''qwen3''), \<lambda>v. (Some sample_desired, snd v))]]),
        resolveCache = [], lastEvent = [], Calls = []\<rparr> = (r, c) \<and>
    reconcile sample_library sample_object_api (sample_answer (Inr sample_bounds)) shipped_boards sample_informers 0
      ''default/qwen3'' (sample_start None) = (r1, c1) \<and>
    r = r1 \<and> Calls c = Calls c1 \<and> fst (World c) (''default'', ''qwen3'') = World c1"
proof -
  let ?b = "[[], [((''ml'', ''qwen3''), \<lambda>v :: sample_world. (Some sample_desired, snd v))]]"
  obtain r c where crowded: "reconcile sample_library (crowded_api mcName sample_object_api)
      (crowded_resolver (''default'', ''qwen3'') (sample_answer (Inr sample_bounds))) shipped_boards sample_informers 0
      ''default/qwen3'' \<lparr>World = (\<lambda>_. (None, sample_claim), ?b),
        resolveCache = [], lastEvent = [], Calls = []\<rparr> = (r, c)" by fastforce
  obtain r1 c1 where alone: "reconcile sample_library sample_object_api (sample_answer (Inr sample_bounds))
      shipped_boards sample_informers 0 ''default/qwen3'' (sample_start None) = (r1, c1)" by fastforce
  have cached: "\<forall>u mc. cachedClaim sample_informers ''default/qwen3'' = Inr (Some u) \<and>
      fromUnstructured sample_library u = Inr mc \<longrightarrow> mcNamespace mc = ''default'' \<and> mcName mc = ''qwen3''"
    by (simp add: sample_claim_def)
  have others: "\<forall>as \<in> set ?b. \<forall>a \<in> set as. fst a \<noteq> (''default'', ''qwen3'')" by simp
  show ?thesis
    using reconcile_isolated [OF sample_names _ cached others crowded] crowded alone
    by (auto simp: sample_start_def)
qed

end
