(* ===== verification/Wakeups.thy ===== *)
theory Wakeups
  imports Controller
begin

text \<open>
  The informer events that wake the controller are enough: an object the filters of
  \<open>internal/modelclaim/controller.go\<close> call irrelevant changes the verdict of no cached
  ModelClaim, and what they call relevant queues all of them.
\<close>

lemma other_claim_ignored:
  assumes "\<forall>rs. Allocation rc = Some rs \<longrightarrow> (\<forall>r \<in> set rs. resDriver r \<noteq> driver)"
  shows "AllocatedDevices (xs @ rc # ys) driver = AllocatedDevices (xs @ ys) driver"
proof -
  have "fold (hold_result driver rc) rs held = held" if "\<forall>r \<in> set rs. resDriver r \<noteq> driver" for rs held
    using that by (induction rs) (simp_all add: hold_result_def)
  with assms show ?thesis
    by (auto simp: AllocatedDevices_def split: option.split)
qed

lemma other_slice_ignored:
  assumes "Driver s \<noteq> DriverDomain"
  shows "EvaluateSlices (xs @ s # ys) allocated b cls m = EvaluateSlices (xs @ ys) allocated b cls m"
  using assms by (simp only: EvaluateSlices_scan current_devices_insert simp_thms)

lemma other_nvidia_slice_ignored:
  assumes "Driver s \<noteq> NvidiaDriverDomain"
  shows "EvaluateNvidiaSlices (xs @ s # ys) allocated b cls m bs = EvaluateNvidiaSlices (xs @ ys) allocated b cls m bs"
  using assms by (simp only: EvaluateNvidiaSlices_scan current_devices_insert simp_thms)

lemma backend_of_default_class: "backendFor [] target = backendFor DriverDomain target"
  by (simp add: backendFor_def nvidiaGPUClass_def nvidiaMIGClass_def DriverDomain_def)

lemma backend_of_device_class:
  "backendFor (device_class mc) target = backendFor (DeviceClassName (Spec mc)) target"
  by (simp add: device_class_def backend_of_default_class)

section \<open>Properties\<close>

text \<open>
  An irrelevant object changes no verdict.  For every cached ModelClaim whose class and
  target driver the untyped reader sees as the typed one does, a ResourceSlice or ResourceClaim
  that the filters call irrelevant can be added to the caches, or taken from them, without
  changing the evaluation the ModelClaim's reconcile makes.
\<close>

lemma irrelevant_objects_change_nothing:
  assumes "u \<in> set (cachedClaims infs)" "fromUnstructured lib u = Inr mc"
    and "NestedString lib u [''spec'', ''deviceClassName''] = DeviceClassName (Spec mc)"
    and "NestedString lib u [''spec'', ''targetDriver''] = TargetDriver (Spec mc)"
    and "cachedSlices infs = xs @ ys" "cachedResourceClaims infs = vs @ ws"
  shows "(\<not> sliceRelevant lib infs (SliceObject sl) \<longrightarrow>
       evaluateCandidates (infs\<lparr>cachedSlices := xs @ sl # ys\<rparr>) bs b (device_class mc) m (TargetDriver (Spec mc)) =
       evaluateCandidates infs bs b (device_class mc) m (TargetDriver (Spec mc))) \<and>
    (\<not> claimRelevant lib infs (ClaimObject rc) \<longrightarrow>
       evaluateCandidates (infs\<lparr>cachedResourceClaims := vs @ rc # ws\<rparr>) bs b (device_class mc) m (TargetDriver (Spec mc)) =
       evaluateCandidates infs bs b (device_class mc) m (TargetDriver (Spec mc)))"
proof -
  have nv: "nvidiaTargetsPresent lib infs"
    if "backendFor (device_class mc) (TargetDriver (Spec mc)) = backendNvidia"
    using that assms(1,3,4) unfolding nvidiaTargetsPresent_def list_ex_iff backend_of_device_class by metis
  have slices: "Driver sl \<noteq> DriverDomain \<and>
      (backendFor (device_class mc) (TargetDriver (Spec mc)) = backendNvidia \<longrightarrow> Driver sl \<noteq> NvidiaDriverDomain)"
    if "\<not> sliceRelevant lib infs (SliceObject sl)"
    using that nv by (auto simp: sliceRelevant_def)
  have claims: "(\<forall>rs. Allocation rc = Some rs \<longrightarrow> (\<forall>r \<in> set rs. resDriver r \<noteq> DriverDomain)) \<and>
      (backendFor (device_class mc) (TargetDriver (Spec mc)) = backendNvidia \<longrightarrow>
         (\<forall>rs. Allocation rc = Some rs \<longrightarrow> (\<forall>r \<in> set rs. resDriver r \<noteq> NvidiaDriverDomain)))"
    if "\<not> claimRelevant lib infs (ClaimObject rc)"
    using that nv by (auto simp: claimRelevant_def list_ex_iff split: option.splits)
  show ?thesis
    using slices claims assms(5,6)
    by (auto simp: evaluateCandidates_def other_slice_ignored other_nvidia_slice_ignored other_claim_ignored)
qed

text \<open>A ModelClaim of the driver's own class, and the traffic of the NVIDIA driver.\<close>

definition wakeup_library :: "model_claim library" where
  "wakeup_library =
     \<lparr>SplitMetaNamespaceKey = (\<lambda>_. None), MetaNamespaceKey = (\<lambda>mc. Some (mcName mc)),
      FromUnstructured = Inr, ToUnstructured = Inr,
      NestedString = (\<lambda>mc path. if path = [''spec'', ''deviceClassName''] then DeviceClassName (Spec mc)
                                else TargetDriver (Spec mc)),
      SetStatusCondition = (\<lambda>cond cs. cs), FindStatusCondition = (\<lambda>cs type. None),
      IsControlledBy = (\<lambda>t mc. True)\<rparr>"

theorem irrelevant_objects_change_nothing_witness:
  "\<exists>infs sl. infs = \<lparr>cachedClaim = (\<lambda>_. Inr (Some sample_claim)), cachedClaims = [sample_claim],
        cachedSlices = [], cachedResourceClaims = []\<rparr> \<and>
     Driver sl = NvidiaDriverDomain \<and> \<not> sliceRelevant wakeup_library infs (SliceObject sl) \<and>
     evaluateCandidates (infs\<lparr>cachedSlices := [sl]\<rparr>) shipped_boards sample_bounds (device_class sample_claim) 0 [] =
     evaluateCandidates infs shipped_boards sample_bounds (device_class sample_claim) 0 []"
proof -
  let ?infs = "\<lparr>cachedClaim = (\<lambda>_. Inr (Some sample_claim)), cachedClaims = [sample_claim],
        cachedSlices = [], cachedResourceClaims = []\<rparr> :: model_claim informers"
  let ?sl = "\<lparr>Driver = NvidiaDriverDomain, PoolName = ''n1'', PoolGeneration = 1, NodeName = None, Devices = []\<rparr>"
  have target: "TargetDriver (Spec sample_claim) = []" by (simp add: sample_claim_def)
  have irrelevant: "\<not> sliceRelevant wakeup_library ?infs (SliceObject ?sl)"
    by (simp add: sliceRelevant_def nvidiaTargetsPresent_def wakeup_library_def sample_claim_def backendFor_def
        NvidiaDriverDomain_def DriverDomain_def nvidiaGPUClass_def nvidiaMIGClass_def gpuClass_def)
  have decoded: "fromUnstructured wakeup_library sample_claim = Inr sample_claim"
    "NestedString wakeup_library sample_claim [''spec'', ''deviceClassName''] = DeviceClassName (Spec sample_claim)"
    "NestedString wakeup_library sample_claim [''spec'', ''targetDriver''] = TargetDriver (Spec sample_claim)"
    by (simp_all add: fromUnstructured_def wakeup_library_def)
  have caches: "sample_claim \<in> set (cachedClaims ?infs)" "cachedSlices ?infs = [] @ []"
    "cachedResourceClaims ?infs = [] @ []" by simp_all
  from irrelevant_objects_change_nothing [OF caches(1) decoded caches(2,3),
      of ?sl shipped_boards sample_bounds 0] irrelevant
  show ?thesis by (intro exI [of _ ?infs] exI [of _ ?sl]) (simp add: target)
qed

section \<open>A verdict that changes is looked at again\<close>

text \<open>
  What an informer's event says of its store: an object added, replaced or taken away.  The
  handlers run on the store after the change.
\<close>

inductive store_change :: "('a \<Rightarrow> informer_object) \<Rightarrow> informer_event \<Rightarrow> 'a list \<Rightarrow> 'a list \<Rightarrow> bool"
  for wrap where
  added: "store_change wrap (Added (wrap x)) (xs @ ys) (xs @ x # ys)"
| updated: "store_change wrap (Updated (wrap x) (wrap y)) (xs @ x # ys) (xs @ y # ys)"
| deleted: "store_change wrap (Deleted (wrap x)) (xs @ x # ys) (xs @ ys)"
| tombed: "store_change wrap (Deleted (Tombstone (wrap x))) (xs @ x # ys) (xs @ ys)"

definition event_relevant :: "(informer_object \<Rightarrow> bool) \<Rightarrow> informer_event \<Rightarrow> bool" where
  "event_relevant R ev \<longleftrightarrow>
     (case ev of Added obj \<Rightarrow> R obj | Updated old obj \<Rightarrow> R old \<or> R obj | Deleted obj \<Rightarrow> R obj)"

lemma handlers_filter:
  "on_slice_event lib infs ev queue = enqueueAllIf lib infs (event_relevant (sliceRelevant lib infs) ev) queue"
  "on_claim_event lib infs ev queue = enqueueAllIf lib infs (event_relevant (claimRelevant lib infs) ev) queue"
  by (cases ev; simp add: event_relevant_def)+

lemma change_relevant:
  assumes "store_change wrap ev before after" "V after \<noteq> V before"
    and irrelevant: "\<And>x xs ys. \<not> R (wrap x) \<Longrightarrow> V (xs @ x # ys) = V (xs @ ys)"
    and tomb: "\<And>x. R (Tombstone (wrap x)) = R (wrap x)"
  shows "event_relevant R ev"
  using assms(1)
proof cases
  case (updated x y xs ys)
  with assms(2) irrelevant [of x xs ys] irrelevant [of y xs ys] have "R (wrap x) \<or> R (wrap y)" by metis
  then show ?thesis by (simp add: updated event_relevant_def)
qed (use assms(2) irrelevant tomb in \<open>(simp add: event_relevant_def; metis)+\<close>)

definition verdict :: "nvidia_boards \<Rightarrow> bounds \<Rightarrow> model_claim \<Rightarrow> int \<Rightarrow> 'u informers \<Rightarrow> candidates" where
  "verdict bs b mc m infs = evaluateCandidates infs bs b (device_class mc) m (TargetDriver (Spec mc))"

lemma enqueueAll_has:
  assumes "u \<in> set (cachedClaims infs)" "MetaNamespaceKey lib u = Some key"
  shows "key \<in> set (enqueueAll lib infs queue)"
proof -
  have keep: "set q \<subseteq> set (fold (enqueue lib) us q)" for us q
    by (induction us arbitrary: q) (force simp: enqueue_def split: option.splits)+
  have "key \<in> set (fold (enqueue lib) us q)" if "u \<in> set us" for us q
    using that
  proof (induction us arbitrary: q)
    case (Cons v us)
    have "key \<in> set (enqueue lib u q)" using assms(2) by (simp add: enqueue_def)
    with Cons keep [of "enqueue lib u q" us] show ?case by auto
  qed simp
  with assms(1) show ?thesis by (simp add: enqueueAll_def)
qed

lemma relevant_same_claims:
  assumes "cachedClaims infs = cachedClaims infs'"
  shows "sliceRelevant lib infs = sliceRelevant lib infs'" "claimRelevant lib infs = claimRelevant lib infs'"
proof -
  have nv: "nvidiaTargetsPresent lib infs = nvidiaTargetsPresent lib infs'"
    using assms by (simp add: nvidiaTargetsPresent_def)
  show "sliceRelevant lib infs = sliceRelevant lib infs'" "claimRelevant lib infs = claimRelevant lib infs'"
    unfolding fun_eq_iff sliceRelevant_def claimRelevant_def nv by (rule allI, rule refl)+
qed

lemma relevant_tombstone [simp]:
  "sliceRelevant lib infs (Tombstone (SliceObject s)) = sliceRelevant lib infs (SliceObject s)"
  "claimRelevant lib infs (Tombstone (ClaimObject c)) = claimRelevant lib infs (ClaimObject c)"
  by (simp_all add: sliceRelevant_def claimRelevant_def)

text \<open>
  C11: no verdict changes unnoticed.  Take a cached ModelClaim with a key, whose class and target
  driver the untyped reader sees as the typed one does.  If an addition, an update or a deletion
  of a ResourceSlice changes its verdict, or one of a ResourceClaim does, the handler of that
  very event queues its key.
\<close>

theorem changed_verdict_queued:
  assumes cached: "u \<in> set (cachedClaims infs)" "fromUnstructured lib u = Inr mc"
    "NestedString lib u [''spec'', ''deviceClassName''] = DeviceClassName (Spec mc)"
    "NestedString lib u [''spec'', ''targetDriver''] = TargetDriver (Spec mc)"
    and key: "MetaNamespaceKey lib u = Some key"
  shows "(store_change SliceObject ev (cachedSlices infs) slices \<longrightarrow>
      verdict bs b mc m (infs\<lparr>cachedSlices := slices\<rparr>) \<noteq> verdict bs b mc m infs \<longrightarrow>
      key \<in> set (on_slice_event lib (infs\<lparr>cachedSlices := slices\<rparr>) ev queue)) \<and>
    (store_change ClaimObject ev (cachedResourceClaims infs) claims \<longrightarrow>
      verdict bs b mc m (infs\<lparr>cachedResourceClaims := claims\<rparr>) \<noteq> verdict bs b mc m infs \<longrightarrow>
      key \<in> set (on_claim_event lib (infs\<lparr>cachedResourceClaims := claims\<rparr>) ev queue))"
proof (intro conjI impI)
  have slice: "verdict bs b mc m (infs\<lparr>cachedSlices := xs @ sl # ys\<rparr>) = verdict bs b mc m (infs\<lparr>cachedSlices := xs @ ys\<rparr>)"
    if "\<not> sliceRelevant lib infs (SliceObject sl)" for xs sl ys
    using irrelevant_objects_change_nothing [of u "infs\<lparr>cachedSlices := xs @ ys\<rparr>" lib mc xs ys
        "cachedResourceClaims infs" "[]" sl] that cached
    by (simp add: verdict_def relevant_same_claims [of "infs\<lparr>cachedSlices := xs @ ys\<rparr>" infs])
  have claim: "verdict bs b mc m (infs\<lparr>cachedResourceClaims := xs @ rc # ys\<rparr>) =
      verdict bs b mc m (infs\<lparr>cachedResourceClaims := xs @ ys\<rparr>)"
    if "\<not> claimRelevant lib infs (ClaimObject rc)" for xs rc ys
    using irrelevant_objects_change_nothing [of u "infs\<lparr>cachedResourceClaims := xs @ ys\<rparr>" lib mc
        "cachedSlices infs" "[]" xs ys _ bs b m rc] that cached
    by (simp add: verdict_def relevant_same_claims [of "infs\<lparr>cachedResourceClaims := xs @ ys\<rparr>" infs])
  have queued: "key \<in> set (enqueueAllIf lib infs' True queue)" if "cachedClaims infs' = cachedClaims infs" for infs'
    using enqueueAll_has [of u infs' lib key] cached(1) key that by (simp add: enqueueAllIf_def)
  let ?S = "\<lambda>xs. verdict bs b mc m (infs\<lparr>cachedSlices := xs\<rparr>)"
  let ?C = "\<lambda>xs. verdict bs b mc m (infs\<lparr>cachedResourceClaims := xs\<rparr>)"
  show "key \<in> set (on_slice_event lib (infs\<lparr>cachedSlices := slices\<rparr>) ev queue)"
    if change: "store_change SliceObject ev (cachedSlices infs) slices"
      and differs: "verdict bs b mc m (infs\<lparr>cachedSlices := slices\<rparr>) \<noteq> verdict bs b mc m infs"
  proof -
    have "event_relevant (sliceRelevant lib infs) ev"
      by (rule change_relevant [OF change, of ?S]) (use differs slice in simp_all)
    then show ?thesis
      using queued by (simp add: handlers_filter relevant_same_claims [of "infs\<lparr>cachedSlices := slices\<rparr>" infs])
  qed
  show "key \<in> set (on_claim_event lib (infs\<lparr>cachedResourceClaims := claims\<rparr>) ev queue)"
    if change: "store_change ClaimObject ev (cachedResourceClaims infs) claims"
      and differs: "verdict bs b mc m (infs\<lparr>cachedResourceClaims := claims\<rparr>) \<noteq> verdict bs b mc m infs"
  proof -
    have "event_relevant (claimRelevant lib infs) ev"
      by (rule change_relevant [OF change, of ?C]) (use differs claim in simp_all)
    then show ?thesis
      using queued
      by (simp add: handlers_filter relevant_same_claims [of "infs\<lparr>cachedResourceClaims := claims\<rparr>" infs])
  qed
qed

text \<open>The first slice with a fitting GPU is a new verdict for the claim.\<close>

theorem changed_verdict_queued_witness:
  "let infs = \<lparr>cachedClaim = (\<lambda>_. Inr (Some sample_claim)), cachedClaims = [sample_claim],
       cachedSlices = [], cachedResourceClaims = []\<rparr>;
     infs' = infs\<lparr>cachedSlices := [sample_slice]\<rparr>
   in verdict shipped_boards sample_bounds sample_claim 0 infs' \<noteq>
        verdict shipped_boards sample_bounds sample_claim 0 infs \<and>
      mcName sample_claim \<in> set (on_slice_event wakeup_library infs' (Added (SliceObject sample_slice)) [])"
proof -
  let ?infs = "\<lparr>cachedClaim = (\<lambda>_. Inr (Some sample_claim)), cachedClaims = [sample_claim],
       cachedSlices = [], cachedResourceClaims = []\<rparr> :: model_claim informers"
  have decoded: "sample_claim \<in> set (cachedClaims ?infs)" "fromUnstructured wakeup_library sample_claim = Inr sample_claim"
    "NestedString wakeup_library sample_claim [''spec'', ''deviceClassName''] = DeviceClassName (Spec sample_claim)"
    "NestedString wakeup_library sample_claim [''spec'', ''targetDriver''] = TargetDriver (Spec sample_claim)"
    "MetaNamespaceKey wakeup_library sample_claim = Some (mcName sample_claim)"
    by (simp_all add: fromUnstructured_def wakeup_library_def)
  have change: "store_change SliceObject (Added (SliceObject sample_slice)) (cachedSlices ?infs) [sample_slice]"
    using store_change.added [of SliceObject sample_slice "[]" "[]"] by simp
  have general: "device_class sample_claim = gpuClass" "TargetDriver (Spec sample_claim) = []"
    "backendFor gpuClass [] \<noteq> backendNvidia"
    by (simp_all add: device_class_def sample_claim_def backendFor_def gpuClass_def DriverDomain_def
        nvidiaGPUClass_def nvidiaMIGClass_def NvidiaDriverDomain_def)
  have "cDevices (verdict shipped_boards sample_bounds sample_claim 0 (?infs\<lparr>cachedSlices := [sample_slice]\<rparr>)) = 1"
    "cDevices (verdict shipped_boards sample_bounds sample_claim 0 ?infs) = 0"
    by (simp_all add: verdict_def evaluateCandidates_def general EvaluateSlices_counts sample_current sample_fits)
      (simp add: current_devices_def)
  then have "verdict shipped_boards sample_bounds sample_claim 0 (?infs\<lparr>cachedSlices := [sample_slice]\<rparr>) \<noteq>
      verdict shipped_boards sample_bounds sample_claim 0 ?infs" by auto
  with changed_verdict_queued [OF decoded] change show ?thesis unfolding Let_def by blast
qed

end
