(* ===== verification/Workers.thy ===== *)
theory Workers
  imports Memo
begin

text \<open>
  Several workers resolving at once (\<open>Controller.resolve\<close> of
  \<open>internal/modelclaim/controller.go\<close>).  A call takes the cache's lock twice, once to look up
  and once to store, and asks the resolver in between without it.  Each of these is one step of
  one worker; a run is any interleaving of the steps of all workers.
\<close>

section \<open>Workers\<close>

datatype worker = Idle | Asking resolve_call | Storing resolve_call bounds

datatype move =
    Lookup resolve_call
  | Answer "bounds result"
  | Save

text \<open>
  The shared cache, the workers, what the resolver has answered to whom, and what calls have
  returned with the label of the metric; both histories have the latest first.
\<close>

record workers =
  wCache :: resolve_cache
  wWorkers :: "worker list"
  wAnswers :: "(resolve_call \<times> bounds result) list"
  wReturned :: "(resolve_call \<times> bounds result \<times> string) list"

definition start_workers :: "nat \<Rightarrow> workers" where
  "start_workers n = \<lparr>wCache = [], wWorkers = replicate n Idle, wAnswers = [], wReturned = []\<rparr>"

definition set_worker :: "nat \<Rightarrow> worker \<Rightarrow> workers \<Rightarrow> workers" where
  "set_worker i w s = s\<lparr>wWorkers := (wWorkers s)[i := w]\<rparr>"

definition returns :: "resolve_call \<Rightarrow> bounds result \<Rightarrow> string \<Rightarrow> workers \<Rightarrow> workers" where
  "returns c r how s = s\<lparr>wReturned := (c, r, how) # wReturned s\<rparr>"

text \<open>One step of worker \<open>i\<close>; \<open>None\<close> if it cannot make this move now.\<close>

definition lookup_cache :: "nat \<Rightarrow> resolve_call \<Rightarrow> workers \<Rightarrow> workers" where
  \<comment> \<open>the first critical section\<close>
  "lookup_cache i c s =
     (case cached_bounds (rcNow c) (call_key c) (wCache s) of
        Some b \<Rightarrow> returns c (Inr b) ''cached'' s
      | None \<Rightarrow> set_worker i (Asking c) s)"

definition take_answer :: "nat \<Rightarrow> resolve_call \<Rightarrow> bounds result \<Rightarrow> workers \<Rightarrow> workers" where
  "take_answer i c r s =
     (let s' = s\<lparr>wAnswers := (c, r) # wAnswers s\<rparr>
      in case r of
           Inl err \<Rightarrow> set_worker i Idle (returns c r ''error'' s')
         | Inr b \<Rightarrow> set_worker i (Storing c b) s')"

definition store_bounds :: "nat \<Rightarrow> resolve_call \<Rightarrow> bounds \<Rightarrow> workers \<Rightarrow> workers" where
  \<comment> \<open>the second critical section, with the expiry counted from the call's start\<close>
  "store_bounds i c b s =
     set_worker i Idle (returns c (Inr b) ''ok''
       (s\<lparr>wCache := cache_put (call_key c) (b, rcNow c + resolveCacheTTL) (wCache s)\<rparr>))"

fun worker_step :: "nat \<Rightarrow> move \<Rightarrow> workers \<Rightarrow> workers option" where
  "worker_step i (Lookup c) s =
     (if i < length (wWorkers s) \<and> wWorkers s ! i = Idle then Some (lookup_cache i c s) else None)"
| "worker_step i (Answer r) s =
     (if i < length (wWorkers s)
      then case wWorkers s ! i of Asking c \<Rightarrow> Some (take_answer i c r s) | _ \<Rightarrow> None
      else None)"
| "worker_step i Save s =
     (if i < length (wWorkers s)
      then case wWorkers s ! i of Storing c b \<Rightarrow> Some (store_bounds i c b s) | _ \<Rightarrow> None
      else None)"

fun run_workers :: "(nat \<times> move) list \<Rightarrow> workers \<Rightarrow> workers option" where
  "run_workers [] s = Some s"
| "run_workers ((i, m) # ms) s = (case worker_step i m s of None \<Rightarrow> None | Some s' \<Rightarrow> run_workers ms s')"

section \<open>The invariant of every interleaving\<close>

definition answered :: "workers \<Rightarrow> string \<Rightarrow> bounds \<times> int \<Rightarrow> bool" where
  \<comment> \<open>an entry is what the resolver answered to a call of its key\<close>
  "answered s key entry \<longleftrightarrow>
     (\<exists>c. (c, Inr (fst entry)) \<in> set (wAnswers s) \<and> call_key c = key \<and> snd entry = rcNow c + resolveCacheTTL)"

definition return_ok :: "workers \<Rightarrow> resolve_call \<times> bounds result \<times> string \<Rightarrow> bool" where
  "return_ok s ret = (case ret of (c, r, how) \<Rightarrow>
     (case r of
        Inl err \<Rightarrow> (c, Inl err) \<in> set (wAnswers s)
      | Inr b \<Rightarrow> \<exists>c'. (c', Inr b) \<in> set (wAnswers s) \<and> call_key c' = call_key c \<and>
          rcNow c < rcNow c' + resolveCacheTTL))"

fun worker_ok :: "workers \<Rightarrow> worker \<Rightarrow> bool" where
  "worker_ok s Idle = True"
| "worker_ok s (Asking c) = True"
| "worker_ok s (Storing c b) = ((c, Inr b) \<in> set (wAnswers s))"

definition workers_ok :: "workers \<Rightarrow> bool" where
  "workers_ok s \<longleftrightarrow> resolved.all_entries (answered s) (wCache s) \<and> length (wCache s) \<le> 512 \<and>
     (\<forall>ret \<in> set (wReturned s). return_ok s ret) \<and> (\<forall>w \<in> set (wWorkers s). worker_ok s w)"

lemma answered_mono: "set (wAnswers s) \<subseteq> set (wAnswers s') \<Longrightarrow> answered s k e \<Longrightarrow> answered s' k e"
  unfolding answered_def by blast

lemma return_ok_mono: "set (wAnswers s) \<subseteq> set (wAnswers s') \<Longrightarrow> return_ok s ret \<Longrightarrow> return_ok s' ret"
  unfolding return_ok_def by (auto split: prod.splits sum.splits)

lemma worker_ok_mono: "set (wAnswers s) \<subseteq> set (wAnswers s') \<Longrightarrow> worker_ok s w \<Longrightarrow> worker_ok s' w"
  by (cases w) auto

text \<open>
  A step keeps the invariant if it only adds answers, and what it adds to the cache, to the
  returns and to the workers is sound.
\<close>

lemma workers_ok_step:
  assumes ok: "workers_ok s" and grow: "set (wAnswers s) \<subseteq> set (wAnswers s')"
    and cache: "wCache s' = wCache s \<or>
      (\<exists>k e. wCache s' = cache_put k e (wCache s) \<and> answered s' k e)"
    and ret: "\<forall>ret \<in> set (wReturned s'). ret \<in> set (wReturned s) \<or> return_ok s' ret"
    and wrk: "\<forall>w \<in> set (wWorkers s'). w \<in> set (wWorkers s) \<or> worker_ok s' w"
  shows "workers_ok s'"
proof -
  have old: "resolved.all_entries (answered s') (wCache s)"
    using ok answered_mono [OF grow] by (auto simp: workers_ok_def resolved.all_entries_def)
  have "resolved.all_entries (answered s') (wCache s') \<and> length (wCache s') \<le> 512"
    using cache
  proof
    assume "wCache s' = wCache s"
    with old ok show ?thesis by (simp add: workers_ok_def)
  next
    assume "\<exists>k e. wCache s' = cache_put k e (wCache s) \<and> answered s' k e"
    with old ok show ?thesis
      by (auto simp: workers_ok_def cache_put_bounded resolved.all_entries_put)
  qed
  then show ?thesis
    using ok ret wrk return_ok_mono [OF grow] worker_ok_mono [OF grow] unfolding workers_ok_def by blast
qed

lemma set_update_worker: "w \<in> set (ws[i := x]) \<Longrightarrow> w \<in> set ws \<or> w = x"
  using set_update_subset_insert [of ws i x] by blast

lemma lookup_cache_ok:
  assumes "workers_ok s"
  shows "workers_ok (lookup_cache i c s)"
proof (cases "cached_bounds (rcNow c) (call_key c) (wCache s)")
  case None
  show ?thesis
    by (rule workers_ok_step [OF assms])
      (auto simp: lookup_cache_def None set_worker_def dest: set_update_worker)
next
  case (Some b)
  then obtain e where e: "map_of (wCache s) (call_key c) = Some (b, e)" "rcNow c < e"
    by (auto simp: cached_bounds_def split: option.splits if_splits)
  have "answered s (call_key c) (b, e)"
    using assms e(1) by (auto simp: workers_ok_def dest: resolved.all_entriesD)
  then have "return_ok s (c, Inr b, ''cached'')"
    using e(2) by (auto simp: answered_def return_ok_def)
  then show ?thesis
    by (intro workers_ok_step [OF assms])
      (auto simp: lookup_cache_def Some returns_def return_ok_def)
qed

lemma take_answer_ok:
  assumes "workers_ok s"
  shows "workers_ok (take_answer i c r s)"
  by (rule workers_ok_step [OF assms])
    (auto simp: take_answer_def returns_def set_worker_def return_ok_def Let_def split: sum.splits
      dest!: set_update_worker)

lemma store_bounds_ok:
  assumes "workers_ok s" "worker_ok s (Storing c b)"
  shows "workers_ok (store_bounds i c b s)"
proof (rule workers_ok_step [OF assms(1)])
  let ?s = "store_bounds i c b s"
  have a: "(c, Inr b) \<in> set (wAnswers ?s)" using assms(2) by (simp add: store_bounds_def set_worker_def returns_def)
  have "0 < resolveCacheTTL" by (simp add: resolveCacheTTL_def)
  with a have r: "return_ok ?s (c, Inr b, ''ok'')" by (auto simp: return_ok_def)
  have "answered ?s (call_key c) (b, rcNow c + resolveCacheTTL)" using a by (auto simp: answered_def)
  then show "wCache ?s = wCache s \<or> (\<exists>k e. wCache ?s = cache_put k e (wCache s) \<and> answered ?s k e)"
    by (intro disjI2 exI [of _ "call_key c"] exI [of _ "(b, rcNow c + resolveCacheTTL)"] conjI)
      (simp add: store_bounds_def set_worker_def returns_def)
  show "\<forall>ret \<in> set (wReturned ?s). ret \<in> set (wReturned s) \<or> return_ok ?s ret"
    using r by (auto simp: store_bounds_def set_worker_def returns_def)
  show "\<forall>w \<in> set (wWorkers ?s). w \<in> set (wWorkers s) \<or> worker_ok ?s w"
    by (auto simp: store_bounds_def set_worker_def returns_def dest!: set_update_worker)
qed (simp add: store_bounds_def set_worker_def returns_def)

lemma worker_step_ok: "workers_ok s \<Longrightarrow> worker_step i m s = Some s' \<Longrightarrow> workers_ok s'"
proof (cases m)
  case Save
  assume ok: "workers_ok s" and step: "worker_step i m s = Some s'"
  then obtain c b where w: "i < length (wWorkers s)" "wWorkers s ! i = Storing c b" "s' = store_bounds i c b s"
    by (auto simp: Save split: if_splits worker.splits)
  then have "worker_ok s (Storing c b)" using ok by (metis nth_mem workers_ok_def)
  with w(3) ok store_bounds_ok show ?thesis by blast
qed (auto split: if_splits worker.splits simp: lookup_cache_ok take_answer_ok)

lemma run_workers_ok: "workers_ok s \<Longrightarrow> run_workers ms s = Some s' \<Longrightarrow> workers_ok s'"
proof (induction ms arbitrary: s)
  case (Cons im ms)
  obtain i m where im: "im = (i, m)" by fastforce
  with Cons(3) obtain s1 where "worker_step i m s = Some s1" "run_workers ms s1 = Some s'"
    by (auto split: option.splits)
  with Cons(1,2) worker_step_ok show ?case by blast
qed simp

lemma start_workers_ok: "workers_ok (start_workers n)"
  by (auto simp: start_workers_def workers_ok_def resolved.all_entries_def)

section \<open>One worker at a time\<close>

text \<open>A call that is not interrupted is the sequential \<open>resolve\<close> of theory Memo.\<close>

definition call_moves :: "'w resolver \<Rightarrow> resolve_call \<Rightarrow> resolve_cache \<times> 'w \<Rightarrow> move list" where
  "call_moves resolver c = (\<lambda>(cache, w).
     Lookup c #
     (if cached_bounds (rcNow c) (call_key c) cache \<noteq> None then []
      else Answer (asked resolver c w) # (if isl (asked resolver c w) then [] else [Save])))"

lemma uninterrupted_call:
  assumes "i < length (wWorkers s)" "wWorkers s ! i = Idle"
    and "resolve_call resolver c (wCache s, w) = (r, how, cache', w')"
  shows "\<exists>s'. run_workers (map (Pair i) (call_moves resolver c (wCache s, w))) s = Some s' \<and>
    wCache s' = cache' \<and> hd (wReturned s') = (c, r, how) \<and> wWorkers s' = wWorkers s"
proof (cases "cached_bounds (rcNow c) (call_key c) (wCache s)")
  case (Some b)
  with assms show ?thesis
    by (auto simp: call_moves_def lookup_cache_def returns_def resolve_call_def resolve_def call_key_def)
next
  case None
  obtain a w1 where a: "resolver (rcModel c) (rcMinTps c) (rcQuant c) (rcEfficiency c) w = (a, w1)"
    by fastforce
  have id: "(wWorkers s)[i := Idle] = wWorkers s" using assms(2) by (metis list_update_id)
  show ?thesis
    using assms None a id
    by (cases a) (auto simp: call_moves_def lookup_cache_def take_answer_def store_bounds_def returns_def
        set_worker_def resolve_call_def resolve_def call_key_def asked_def)
qed

section \<open>Properties\<close>

text \<open>
  C17: concurrent calls are answered soundly.  Whatever the interleaving of the lookups, answers
  and stores of any number of workers, a call only returns bounds the resolver itself answered
  to a call of the same key, less than the time to live before, and only returns an error the
  resolver answered to that very call; and the shared cache never holds more than 512 entries.
\<close>

theorem concurrent_resolve_sound:
  assumes "run_workers ms (start_workers n) = Some s"
  shows "length (wCache s) \<le> 512 \<and>
    (\<forall>(c, r, how) \<in> set (wReturned s).
       case r of
         Inl err \<Rightarrow> (c, Inl err) \<in> set (wAnswers s)
       | Inr b \<Rightarrow> \<exists>c'. (c', Inr b) \<in> set (wAnswers s) \<and> call_key c' = call_key c \<and>
           rcNow c < rcNow c' + resolveCacheTTL)"
  using run_workers_ok [OF start_workers_ok assms] by (auto simp: workers_ok_def return_ok_def)

text \<open>
  Two workers look up the same key before either has an answer: both ask, the second store
  overwrites the first, and a third call is served from the cache.
\<close>

definition racing_moves :: "(nat \<times> move) list" where
  "racing_moves =
     [(0, Lookup (sample_call 0)), (1, Lookup (sample_call 1)),
      (1, Answer (Inr answered_bounds)), (0, Answer (Inr answered_bounds)), (1, Save), (0, Save),
      (1, Lookup (sample_call 5))]"

theorem concurrent_resolve_sound_witness:
  "\<exists>s. run_workers racing_moves (start_workers 2) = Some s \<and>
     map (snd \<circ> snd) (wReturned s) = [''cached'', ''ok'', ''ok''] \<and> length (wCache s) \<le> 512 \<and>
     (\<exists>c'. (c', Inr answered_bounds) \<in> set (wAnswers s) \<and> 5 < rcNow c' + resolveCacheTTL)"
proof -
  obtain key where k: "\<And>t. call_key (sample_call t) = key" by (simp add: call_key_def sample_call_def)
  have now: "rcNow (sample_call t) = t" for t by (simp add: sample_call_def)
  obtain s where s: "run_workers racing_moves (start_workers 2) = Some s"
      and r: "map (snd \<circ> snd) (wReturned s) = [''cached'', ''ok'', ''ok'']"
        "(sample_call 5, Inr answered_bounds, ''cached'') \<in> set (wReturned s)"
    by (simp add: racing_moves_def start_workers_def numeral_2_eq_2 lookup_cache_def take_answer_def
        store_bounds_def set_worker_def returns_def cached_bounds_def cache_put_def k now
        resolveCacheTTL_def)
  have sound: "length (wCache s) \<le> 512" "\<forall>(c, r, how) \<in> set (wReturned s). case r of
      Inl err \<Rightarrow> (c, Inl err) \<in> set (wAnswers s)
    | Inr b \<Rightarrow> \<exists>c'. (c', Inr b) \<in> set (wAnswers s) \<and> call_key c' = call_key c \<and>
        rcNow c < rcNow c' + resolveCacheTTL"
    using concurrent_resolve_sound [OF s] by blast+
  from bspec [OF sound(2) r(2)]
  have "\<exists>c'. (c', Inr answered_bounds) \<in> set (wAnswers s) \<and> 5 < rcNow c' + resolveCacheTTL"
    unfolding prod.case sum.case now by blast
  from s r(1) sound(1) this show ?thesis by (intro exI [of _ s] conjI)
qed

end
