(* ===== verification/Observe.thy ===== *)
theory Observe
  imports Store
begin

text \<open>
  The operator-facing surface of the driver (\<open>internal/observe/observe.go\<close>): the metric
  registry as one record, a field per metric, each recording function of the package as a
  state change on it, and the liveness and readiness state behind the health endpoints.

  A counter or gauge vector maps its label values to the current number, and has no series for
  label values never used since the last reset.  The values are counts, which float64 holds
  exactly.  A histogram is the list of observed durations (nanoseconds), without its buckets.
\<close>

section \<open>The registry\<close>

record device_info =
  iKind :: string
  iVendor :: string
  iDriver :: string
  iHealthy :: bool
  iVendorManaged :: bool

type_synonym device_labels = "string \<times> string \<times> string \<times> string"

record metrics =
  capabilitySource :: "string \<Rightarrow> nat option"
  degradedCycles :: nat
  probeDuration :: "int list"
  sliceUpdates :: nat
  prepareTotal :: "string \<times> string \<Rightarrow> nat option"
  unprepareTotal :: "string \<Rightarrow> nat option"
  prepareDuration :: "int list"
  unprepareDuration :: "int list"
  devicesGauge :: "device_labels \<Rightarrow> nat option"
  devicesVendorManaged :: "string \<times> string \<Rightarrow> nat option"
  probeErrors :: "string \<Rightarrow> nat option"
  slicePublishErrors :: "string \<Rightarrow> nat option"
  hotplugListenerUp :: nat
  hotplugWakeups :: nat
  cdiOrphansRemoved :: nat
  resolveDuration :: "(string \<times> int) list"
  modelClaimReconciles :: "string \<Rightarrow> nat option"

definition fresh_metrics :: metrics where
  "fresh_metrics =
     \<lparr>capabilitySource = Map.empty, degradedCycles = 0, probeDuration = [], sliceUpdates = 0,
      prepareTotal = Map.empty, unprepareTotal = Map.empty, prepareDuration = [],
      unprepareDuration = [], devicesGauge = Map.empty, devicesVendorManaged = Map.empty,
      probeErrors = Map.empty, slicePublishErrors = Map.empty, hotplugListenerUp = 0,
      hotplugWakeups = 0, cdiOrphansRemoved = 0, resolveDuration = [],
      modelClaimReconciles = Map.empty\<rparr>"

definition inc :: "'k \<Rightarrow> ('k \<Rightarrow> nat option) \<Rightarrow> ('k \<Rightarrow> nat option)" where
  "inc k m = m(k \<mapsto> (case m k of None \<Rightarrow> 1 | Some n \<Rightarrow> n + 1))"

section \<open>The published inventory\<close>

definition FormatBool :: "bool \<Rightarrow> string" where
  "FormatBool b = (if b then ''true'' else ''false'')"

definition bump :: "'k \<Rightarrow> ('k \<times> nat) list \<Rightarrow> ('k \<times> nat) list" where
  \<comment> \<open>\<open>counts[key]++\<close>\<close>
  "bump k counts = AList.update k (case map_of counts k of None \<Rightarrow> 1 | Some n \<Rightarrow> n + 1) counts"

definition set_all :: "('k \<Rightarrow> 'l) \<Rightarrow> ('k \<times> nat) list \<Rightarrow> ('l \<Rightarrow> nat option)" where
  \<comment> \<open>the loop over the counts, on a gauge that has been reset\<close>
  "set_all labels counts = fold (\<lambda>(k, n) g. g(labels k \<mapsto> n)) counts Map.empty"

definition info_labels :: "string \<times> string \<times> string \<times> bool \<Rightarrow> device_labels" where
  "info_labels = (\<lambda>(k, v, d, h). (k, v, d, FormatBool h))"

definition info_key :: "device_info \<Rightarrow> string \<times> string \<times> string \<times> bool" where
  "info_key d = (iKind d, iVendor d, iDriver d, iHealthy d)"

definition count_info ::
  "device_info \<Rightarrow> ((string \<times> string \<times> string \<times> bool) \<times> nat) list \<times> ((string \<times> string) \<times> nat) list \<Rightarrow>
   ((string \<times> string \<times> string \<times> bool) \<times> nat) list \<times> ((string \<times> string) \<times> nat) list" where
  "count_info d = (\<lambda>(counts, vm).
     (bump (info_key d) counts, if iVendorManaged d then bump (iKind d, iDriver d) vm else vm))"

definition SetInventory :: "device_info list \<Rightarrow> metrics \<Rightarrow> metrics" where
  "SetInventory devs m =
     (let (counts, vm) = fold count_info devs ([], [])
      in m\<lparr>devicesGauge := set_all info_labels counts,
           devicesVendorManaged := set_all (\<lambda>k. k) vm\<rparr>)"

section \<open>Events of the agent\<close>

definition ProbeError :: "string \<Rightarrow> metrics \<Rightarrow> metrics" where
  "ProbeError stage m = m\<lparr>probeErrors := inc stage (probeErrors m)\<rparr>"

definition SlicePublishError :: "string \<Rightarrow> metrics \<Rightarrow> metrics" where
  "SlicePublishError kind m = m\<lparr>slicePublishErrors := inc kind (slicePublishErrors m)\<rparr>"

definition HotplugListener :: "bool \<Rightarrow> metrics \<Rightarrow> metrics" where
  "HotplugListener up m = m\<lparr>hotplugListenerUp := (if up then 1 else 0)\<rparr>"

definition HotplugWakeup :: "metrics \<Rightarrow> metrics" where
  "HotplugWakeup m = m\<lparr>hotplugWakeups := hotplugWakeups m + 1\<rparr>"

definition CDIOrphanRemoved :: "metrics \<Rightarrow> metrics" where
  "CDIOrphanRemoved m = m\<lparr>cdiOrphansRemoved := cdiOrphansRemoved m + 1\<rparr>"

definition knownSources :: "string list" where
  "knownSources = [''api'', ''exec'', ''cache'', ''index'', ''none'']"

definition SetCapabilitySource :: "string \<Rightarrow> metrics \<Rightarrow> metrics" where
  "SetCapabilitySource src m =
     (let m1 = m\<lparr>capabilitySource :=
                  fold (\<lambda>s g. g(s \<mapsto> (if s = src then 1 else 0))) knownSources (capabilitySource m)\<rparr>
      in if src \<in> {''exec'', ''cache'', ''index''}
         then m1\<lparr>degradedCycles := degradedCycles m1 + 1\<rparr> else m1)"

definition ObserveProbe :: "int \<Rightarrow> bool \<Rightarrow> metrics \<Rightarrow> metrics" where
  "ObserveProbe d changed m =
     (let m1 = m\<lparr>probeDuration := probeDuration m @ [d]\<rparr>
      in if changed then m1\<lparr>sliceUpdates := sliceUpdates m1 + 1\<rparr> else m1)"

definition ObservePrepare :: "string \<Rightarrow> string \<Rightarrow> int \<Rightarrow> metrics \<Rightarrow> metrics" where
  "ObservePrepare res reason d m =
     m\<lparr>prepareTotal := inc (res, reason) (prepareTotal m),
       prepareDuration := prepareDuration m @ [d]\<rparr>"

definition ObserveUnprepare :: "string \<Rightarrow> int \<Rightarrow> metrics \<Rightarrow> metrics" where
  "ObserveUnprepare res d m =
     m\<lparr>unprepareTotal := inc res (unprepareTotal m),
       unprepareDuration := unprepareDuration m @ [d]\<rparr>"

section \<open>Events of the controller\<close>

definition ObserveResolve :: "int \<Rightarrow> string \<Rightarrow> metrics \<Rightarrow> metrics" where
  "ObserveResolve d res m = m\<lparr>resolveDuration := resolveDuration m @ [(res, d)]\<rparr>"

definition ModelClaimReconcile :: "string \<Rightarrow> metrics \<Rightarrow> metrics" where
  "ModelClaimReconcile res m = m\<lparr>modelClaimReconciles := inc res (modelClaimReconciles m)\<rparr>"

section \<open>Health\<close>

text \<open>
  Clock readings are nanoseconds, as unbounded integers (the int64 of the code holds 292 years);
  \<open>now\<close> is the reading the call takes.
\<close>

record health =
  lastBeat :: int
  ready :: bool
  hMaxStale :: int

definition NewHealth :: "int \<Rightarrow> int \<Rightarrow> health" where
  "NewHealth maxStale now = \<lparr>lastBeat = now, ready = False, hMaxStale = maxStale\<rparr>"

definition Beat :: "int \<Rightarrow> health \<Rightarrow> health" where
  "Beat now h = h\<lparr>lastBeat := now\<rparr>"

definition Ready :: "health \<Rightarrow> health" where
  "Ready h = h\<lparr>ready := True\<rparr>"

definition live :: "int \<Rightarrow> health \<Rightarrow> bool" where
  "live now h \<longleftrightarrow> now - lastBeat h \<le> hMaxStale h"

definition healthz :: "int \<Rightarrow> health \<Rightarrow> nat \<times> string" where
  "healthz now h = (if live now h then (200, []) else (503, ''reconcile loop stalled''))"

definition readyz :: "health \<Rightarrow> nat \<times> string" where
  "readyz h = (if ready h then (200, []) else (503, ''not ready''))"

text \<open>
  The server: what it answers on a path (given in its canonical form, others are redirected), and
  how serving ends.  The page of the metrics library is a parameter.
\<close>

definition mux :: "(int \<Rightarrow> health \<Rightarrow> nat \<times> string) \<Rightarrow> (string \<times> (int \<Rightarrow> health \<Rightarrow> nat \<times> string)) list" where
  "mux page = [(''/metrics'', page), (''/healthz'', healthz), (''/readyz'', \<lambda>now. readyz)]"

definition serve_request ::
  "(int \<Rightarrow> health \<Rightarrow> nat \<times> string) \<Rightarrow> string \<Rightarrow> int \<Rightarrow> health \<Rightarrow> nat \<times> string" where
  "serve_request page path now h =
     (case map_of (mux page) path of Some f \<Rightarrow> f now h | None \<Rightarrow> (404, ''404 page not found''))"

datatype serve_end = ServerClosed | ServeFailed string

definition serveOn :: "serve_end option \<Rightarrow> string option" where
  \<comment> \<open>the error returned, if any, once the server has ended\<close>
  "serveOn ended = (case ended of Some (ServeFailed err) \<Rightarrow> Some err | _ \<Rightarrow> None)"

definition Serve :: "unit result \<Rightarrow> serve_end option \<Rightarrow> string option" where
  "Serve listening ended = (case listening of Inl err \<Rightarrow> Some err | Inr _ \<Rightarrow> serveOn ended)"

section \<open>What the gauges say\<close>

named_theorems metric_simps \<open>fields a metric update leaves alone\<close>

lemma metric_fields [metric_simps]:
  "devicesGauge (ProbeError s m) = devicesGauge m"
  "devicesVendorManaged (ProbeError s m) = devicesVendorManaged m"
  "devicesGauge (SetCapabilitySource s m) = devicesGauge m"
  "devicesVendorManaged (SetCapabilitySource s m) = devicesVendorManaged m"
  "devicesGauge (HotplugListener u m) = devicesGauge m"
  "devicesVendorManaged (HotplugListener u m) = devicesVendorManaged m"
  "devicesGauge (HotplugWakeup m) = devicesGauge m"
  "devicesVendorManaged (HotplugWakeup m) = devicesVendorManaged m"
  "devicesGauge (ObserveProbe t c m) = devicesGauge m"
  "devicesVendorManaged (ObserveProbe t c m) = devicesVendorManaged m"
  "hotplugListenerUp (ProbeError s m) = hotplugListenerUp m"
  "hotplugListenerUp (SetCapabilitySource s m) = hotplugListenerUp m"
  "hotplugListenerUp (SetInventory ds m) = hotplugListenerUp m"
  "hotplugListenerUp (HotplugWakeup m) = hotplugListenerUp m"
  "hotplugListenerUp (HotplugListener u m) = (if u then 1 else 0)"
  "hotplugListenerUp (ObserveProbe t c m) = hotplugListenerUp m"
  "capabilitySource (ProbeError s m) = capabilitySource m"
  "capabilitySource (SetInventory ds m) = capabilitySource m"
  "capabilitySource (HotplugWakeup m) = capabilitySource m"
  "capabilitySource (HotplugListener u m) = capabilitySource m"
  "capabilitySource (ObserveProbe t c m) = capabilitySource m"
  by (simp_all add: ProbeError_def SetCapabilitySource_def HotplugListener_def HotplugWakeup_def
      ObserveProbe_def SetInventory_def Let_def split: prod.splits)

definition occurrences :: "'k \<Rightarrow> 'k list \<Rightarrow> nat option" where
  "occurrences k ks = (if k \<in> set ks then Some (count_list ks k) else None)"

lemma bump_fold:
  "map_of (fold bump ks counts) k =
     (case map_of counts k of
        None \<Rightarrow> occurrences k ks
      | Some n \<Rightarrow> Some (n + count_list ks k))"
  by (induction ks arbitrary: counts)
    (auto simp: bump_def occurrences_def update_conv' count_notin split: option.splits)

lemma bump_distinct: "distinct (map fst counts) \<Longrightarrow> distinct (map fst (fold bump ks counts))"
  by (induction ks arbitrary: counts) (simp_all add: bump_def distinct_update)

lemma set_all_step:
  "inj labels \<Longrightarrow> distinct (map fst counts) \<Longrightarrow>
     fold (\<lambda>(k, n) g. g(labels k \<mapsto> n)) counts g (labels k) =
       (case map_of counts k of None \<Rightarrow> g (labels k) | Some n \<Rightarrow> Some n)"
  by (induction counts arbitrary: g)
    (force simp: inj_eq split: option.splits dest: map_of_SomeD)+

lemma set_all_labels:
  assumes "inj labels" and "distinct (map fst counts)"
  shows "set_all labels counts (labels k) = map_of counts k"
  using set_all_step [OF assms] by (simp add: set_all_def split: option.splits)

lemma inj_info_labels: "inj info_labels"
  by (auto simp: inj_def info_labels_def FormatBool_def split: if_splits)

lemma count_info_fold:
  "fold count_info devs (counts, vm) =
     (fold bump (map info_key devs) counts,
      fold bump (map (\<lambda>d. (iKind d, iDriver d)) (filter iVendorManaged devs)) vm)"
  by (induction devs arbitrary: counts vm) (simp_all add: count_info_def)

lemma SetInventory_gauges:
  "devicesGauge (SetInventory devs m) (k, v, d, FormatBool h) =
     occurrences (k, v, d, h) (map info_key devs)"
  "devicesVendorManaged (SetInventory devs m) (k, d) =
     occurrences (k, d) (map (\<lambda>i. (iKind i, iDriver i)) (filter iVendorManaged devs))"
proof -
  let ?c = "fold bump (map info_key devs) []"
  have "set_all info_labels ?c (info_labels (k, v, d, h)) = map_of ?c (k, v, d, h)"
    by (rule set_all_labels [OF inj_info_labels bump_distinct]) simp
  then show "devicesGauge (SetInventory devs m) (k, v, d, FormatBool h) =
      occurrences (k, v, d, h) (map info_key devs)"
    by (simp add: SetInventory_def count_info_fold bump_fold) (simp add: info_labels_def)
  let ?v = "fold bump (map (\<lambda>i. (iKind i, iDriver i)) (filter iVendorManaged devs)) []"
  have "set_all (\<lambda>k. k) ?v (k, d) = map_of ?v (k, d)"
    by (rule set_all_labels [OF _ bump_distinct]) (simp_all add: inj_def)
  then show "devicesVendorManaged (SetInventory devs m) (k, d) =
      occurrences (k, d) (map (\<lambda>i. (iKind i, iDriver i)) (filter iVendorManaged devs))"
    by (simp add: SetInventory_def count_info_fold bump_fold)
qed

text \<open>The gauges of the inventory do not depend on what they said before.\<close>

lemma SetInventory_resets:
  "devicesGauge (SetInventory devs m) = devicesGauge (SetInventory devs m')"
  "devicesVendorManaged (SetInventory devs m) = devicesVendorManaged (SetInventory devs m')"
  by (simp_all add: SetInventory_def Let_def split: prod.split)

lemma source_gauge:
  "s \<in> set knownSources \<Longrightarrow>
     capabilitySource (SetCapabilitySource src m) s = Some (if s = src then 1 else 0)"
  by (auto simp: SetCapabilitySource_def knownSources_def Let_def)

end
