(* ===== verification/Manager.thy ===== *)
theory Manager
  imports Controller Observe
begin

text \<open>
  The running controller (\<open>internal/modelclaim/controller.go\<close>: \<open>New\<close>, \<open>Run\<close>, \<open>processNext\<close>;
  \<open>cmd/llmfit-dra/main.go\<close>: \<open>runController\<close>): the controller's state together with its metrics
  and its health, the start after the caches have synced, the worker's handling of one queue
  item, and the idle heartbeat.
\<close>

record ('u, 'w) manager =
  mgrController :: "('u, 'w) controller"
  mgrMetrics :: metrics
  mgrHealth :: "health option"

definition new_controller :: "'w \<Rightarrow> ('u, 'w) controller" where
  "new_controller w = \<lparr>World = w, resolveCache = [], lastEvent = [], Calls = []\<rparr>"

definition controller_max_stale :: int where
  "controller_max_stale = 2 * 60 * 1000000000"

definition new_manager :: "'w \<Rightarrow> int \<Rightarrow> ('u, 'w) manager" where
  "new_manager w now =
     \<lparr>mgrController = new_controller w, mgrMetrics = fresh_metrics,
      mgrHealth = Some (NewHealth controller_max_stale now)\<rparr>"

definition beat :: "int \<Rightarrow> ('u, 'w) manager \<Rightarrow> ('u, 'w) manager" where
  "beat now m = m\<lparr>mgrHealth := map_option (Beat now) (mgrHealth m)\<rparr>"

definition run_manager :: "bool \<Rightarrow> int \<Rightarrow> ('u, 'w) manager \<Rightarrow> string + ('u, 'w) manager" where
  "run_manager synced now m =
     (if \<not> synced then Inl ''informer caches did not sync''
      else Inr (beat now (m\<lparr>mgrHealth := map_option Ready (mgrHealth m)\<rparr>)))"

text \<open>
  One item: the reconcile at \<open>now\<close>, the outcome counted, the answer to the queue, and the beat
  at \<open>done\<close>.  A queue that is shutting down ends the worker and changes nothing.
\<close>

definition process_item ::
  "'u library \<Rightarrow> ('u, 'w) api \<Rightarrow> 'w resolver \<Rightarrow> nvidia_boards \<Rightarrow> 'u informers \<Rightarrow> int \<Rightarrow> int \<Rightarrow> string option \<Rightarrow>
     ('u, 'w) manager \<Rightarrow> bool \<times> queue_action option \<times> ('u, 'w) manager" where
  "process_item lib api resolver bs infs now beat_at item m =
     (case processNext lib api resolver bs infs now item (mgrController m) of
        (again, None, _) \<Rightarrow> (again, None, m)
      | (again, Some (outcome, action), c) \<Rightarrow>
          (again, Some action,
           beat beat_at (m\<lparr>mgrController := c, mgrMetrics := ModelClaimReconcile outcome (mgrMetrics m)\<rparr>)))"

datatype 'u manager_event =
  Item "'u informers" int int string
| IdleTick int

fun manager_step ::
  "'u library \<Rightarrow> ('u, 'w) api \<Rightarrow> 'w resolver \<Rightarrow> nvidia_boards \<Rightarrow> 'u manager_event \<Rightarrow>
     ('u, 'w) manager \<Rightarrow> ('u, 'w) manager" where
  "manager_step lib api resolver bs (Item infs now beat_at key) m =
     snd (snd (process_item lib api resolver bs infs now beat_at (Some key) m))"
| "manager_step lib api resolver bs (IdleTick now) m = beat now m"

fun event_time :: "'u manager_event \<Rightarrow> int" where
  "event_time (Item infs now beat_at key) = beat_at"
| "event_time (IdleTick now) = now"

fun is_item :: "'u manager_event \<Rightarrow> bool" where
  "is_item (Item infs now beat_at key) = True"
| "is_item (IdleTick now) = False"

section \<open>What a run counts and when it beats\<close>

definition counted :: "('u, 'w) manager \<Rightarrow> string \<Rightarrow> nat" where
  "counted m outcome = (case modelClaimReconciles (mgrMetrics m) outcome of None \<Rightarrow> 0 | Some n \<Rightarrow> n)"

lemma counted_beat [simp]: "counted (beat t m) = counted m"
  by (simp add: counted_def beat_def fun_eq_iff)

lemma counted_reconcile [simp]:
  "counted (m\<lparr>mgrController := c, mgrMetrics := ModelClaimReconcile o1 (mgrMetrics m)\<rparr>) o2 =
     counted m o2 + (if o1 = o2 then 1 else 0)"
  by (simp add: counted_def ModelClaimReconcile_def inc_def split: option.split)

lemma mgrHealth_beat [simp]: "mgrHealth (beat t m) = map_option (Beat t) (mgrHealth m)"
  by (simp add: beat_def)

lemma process_item_some:
  "\<exists>outcome action c. outcome \<in> {''ok'', ''error''} \<and>
     process_item lib api resolver bs infs now t (Some key) m =
       (True, Some action,
        beat t (m\<lparr>mgrController := c, mgrMetrics := ModelClaimReconcile outcome (mgrMetrics m)\<rparr>))"
  by (cases "reconcile lib api resolver bs infs now key (mgrController m)";
      cases "fst (reconcile lib api resolver bs infs now key (mgrController m))")
    (auto simp: process_item_def processNext_def)

lemma manager_step_health:
  "mgrHealth (manager_step lib api resolver bs e m) = map_option (Beat (event_time e)) (mgrHealth m)"
proof (cases e)
  case (Item infs now t key)
  with process_item_some [of lib api resolver bs infs now t key m] show ?thesis by auto
qed simp

lemma counted_step:
  "counted (manager_step lib api resolver bs e m) ''ok'' +
     counted (manager_step lib api resolver bs e m) ''error'' =
   counted m ''ok'' + counted m ''error'' + (if is_item e then 1 else 0)"
proof (cases e)
  case (Item infs now t key)
  obtain outcome action c where o: "outcome \<in> {''ok'', ''error''}" and
    p: "process_item lib api resolver bs infs now t (Some key) m =
       (True, Some action,
        beat t (m\<lparr>mgrController := c, mgrMetrics := ModelClaimReconcile outcome (mgrMetrics m)\<rparr>))"
    using process_item_some [of lib api resolver bs infs now t key m] by (elim exE conjE) (rule that)
  have step: "counted (manager_step lib api resolver bs e m) k = counted m k + (if outcome = k then 1 else 0)" for k
    unfolding Item manager_step.simps p snd_conv counted_beat counted_reconcile by (rule refl)
  have "is_item e" by (simp add: Item)
  then show ?thesis using o unfolding step by auto
qed simp

section \<open>Properties\<close>

text \<open>
  The controller's liveness rides on the heartbeat alone.  After the start and any further items
  and ticks, \<open>/healthz\<close> answers 200 exactly until two minutes after the last of them, an idle
  tick included, so that a worker stuck in a reconcile never fails it while the ticks go on;
  \<open>/readyz\<close> answers 200; and the two outcome counters sum to the items processed.
\<close>

theorem controller_health:
  assumes "run_manager True t0 (new_manager w start) = Inr m0"
    and "m = fold (manager_step lib api resolver bs) (es @ [e]) m0"
  shows "\<exists>h. mgrHealth m = Some h \<and> readyz h = (200, []) \<and>
      healthz now h = (if now \<le> event_time e + controller_max_stale then (200, [])
                       else (503, ''reconcile loop stalled'')) \<and>
      counted m ''ok'' + counted m ''error'' = length (filter is_item (es @ [e]))"
proof -
  have m0: "mgrHealth m0 = Some \<lparr>lastBeat = t0, ready = True, hMaxStale = controller_max_stale\<rparr>"
    "counted m0 ''ok'' + counted m0 ''error'' = 0"
    using assms(1) by (auto simp: run_manager_def new_manager_def NewHealth_def Ready_def Beat_def
        beat_def counted_def fresh_metrics_def)
  have "(\<exists>t. mgrHealth (fold (manager_step lib api resolver bs) xs m0) =
          Some \<lparr>lastBeat = t, ready = True, hMaxStale = controller_max_stale\<rparr>) \<and>
      counted (fold (manager_step lib api resolver bs) xs m0) ''ok'' +
      counted (fold (manager_step lib api resolver bs) xs m0) ''error'' = length (filter is_item xs)" for xs
    by (induction xs rule: rev_induct)
      (auto simp: m0 manager_step_health counted_step Beat_def)
  from this [of es] this [of "es @ [e]"]
  have "mgrHealth m = Some \<lparr>lastBeat = event_time e, ready = True, hMaxStale = controller_max_stale\<rparr>"
    "counted m ''ok'' + counted m ''error'' = length (filter is_item (es @ [e]))"
    unfolding assms(2) by (auto simp: manager_step_health Beat_def)
  then show ?thesis by (simp add: healthz_def live_def readyz_def)
qed

end
