(* ===== verification/Draining.thy ===== *)
theory Draining
  imports Manager "HOL-Library.Multiset"
begin

text \<open>
  The workers of the controller and its shutdown (\<open>Run\<close> and \<open>processNext\<close> of
  \<open>internal/modelclaim/controller.go\<close>): any number of workers take keys from the work queue while
  event handlers add to it, until the context is cancelled, the queue is shut down and \<open>Run\<close> has
  waited for all of them.  A reconcile runs on a context without the cancellation, so that the
  shutdown has no step that ends it.

  The work queue is library: a record of its operations, of which the properties assume what it
  documents about the keys being processed.
\<close>

section \<open>The queue and the workers\<close>

text \<open>\<open>Get\<close> gives nothing while it blocks, and no key once the queue is shut down and empty.\<close>

record 'q work_queue =
  qGet :: "'q \<Rightarrow> (string option \<times> 'q) option"
  qDone :: "string \<Rightarrow> 'q \<Rightarrow> 'q"
  qAdd :: "string \<Rightarrow> 'q \<Rightarrow> 'q"
  qAnswer :: "queue_action \<Rightarrow> 'q \<Rightarrow> 'q"
  qShutDown :: "'q \<Rightarrow> 'q"

datatype work = AtGet | Busy string | Left

record 'q running =
  runQueue :: 'q
  runWork :: "work list"
  runShut :: bool
  runReturned :: bool
  runTaken :: "string list"
  runFinished :: "string list"

definition run_begin :: "'q \<Rightarrow> nat \<Rightarrow> 'q running" where
  "run_begin q workers =
     \<lparr>runQueue = q, runWork = replicate workers AtGet, runShut = False, runReturned = False,
      runTaken = [], runFinished = []\<rparr>"

inductive run_step :: "'q work_queue \<Rightarrow> 'q running \<Rightarrow> 'q running \<Rightarrow> bool" for wq where
  take: "\<lbrakk>i < length (runWork s); runWork s ! i = AtGet; qGet wq (runQueue s) = Some (Some key, q)\<rbrakk> \<Longrightarrow>
    run_step wq s (s\<lparr>runQueue := q, runWork := (runWork s)[i := Busy key], runTaken := key # runTaken s\<rparr>)"
| leave: "\<lbrakk>i < length (runWork s); runWork s ! i = AtGet; qGet wq (runQueue s) = Some (None, q)\<rbrakk> \<Longrightarrow>
    run_step wq s (s\<lparr>runQueue := q, runWork := (runWork s)[i := Left]\<rparr>)"
| finish: "\<lbrakk>i < length (runWork s); runWork s ! i = Busy key; action \<in> {AddRateLimited key, Forget key}\<rbrakk> \<Longrightarrow>
    run_step wq s (s\<lparr>runQueue := qDone wq key (qAnswer wq action (runQueue s)),
                    runWork := (runWork s)[i := AtGet], runFinished := key # runFinished s\<rparr>)"
| handler: "run_step wq s (s\<lparr>runQueue := qAdd wq key (runQueue s)\<rparr>)"
| shut_down: "\<not> runShut s \<Longrightarrow> run_step wq s (s\<lparr>runQueue := qShutDown wq (runQueue s), runShut := True\<rparr>)"
| return: "runShut s \<Longrightarrow> \<forall>w \<in> set (runWork s). w = Left \<Longrightarrow> run_step wq s (s\<lparr>runReturned := True\<rparr>)"

section \<open>The keys in progress\<close>

fun busy_key :: "work \<Rightarrow> string list" where
  "busy_key (Busy key) = [key]"
| "busy_key _ = []"

definition in_progress :: "'q running \<Rightarrow> string list" where
  "in_progress s = concat (map busy_key (runWork s))"

text \<open>
  What the queue documents: a key that is processed, taken and not done, is not given out again,
  and no other operation changes which keys are.
\<close>

definition queue_law :: "'q work_queue \<Rightarrow> ('q \<Rightarrow> string set) \<Rightarrow> bool" where
  "queue_law wq processing \<longleftrightarrow>
     (\<forall>q q' key. qGet wq q = Some (Some key, q') \<longrightarrow> key \<notin> processing q \<and> processing q' = insert key (processing q)) \<and>
     (\<forall>q q'. qGet wq q = Some (None, q') \<longrightarrow> processing q' = processing q) \<and>
     (\<forall>q key. processing (qDone wq key q) = processing q - {key}) \<and>
     (\<forall>q key. processing (qAdd wq key q) = processing q) \<and>
     (\<forall>q action. processing (qAnswer wq action q) = processing q) \<and>
     (\<forall>q. processing (qShutDown wq q) = processing q)"

lemma mset_concat_update:
  "i < length xs \<Longrightarrow>
     mset (concat (map f (xs[i := y]))) + mset (f (xs ! i)) = mset (concat (map f xs)) + mset (f y)"
proof (induction xs arbitrary: i)
  case (Cons x xs)
  then show ?case by (cases i) (auto simp: ac_simps)
qed simp

lemma progress_update:
  assumes "i < length ws"
  shows "mset (concat (map busy_key (ws[i := Busy key]))) + mset (busy_key (ws ! i)) =
      mset (concat (map busy_key ws)) + {#key#}"
    and "mset (concat (map busy_key (ws[i := AtGet]))) + mset (busy_key (ws ! i)) = mset (concat (map busy_key ws))"
    and "mset (concat (map busy_key (ws[i := Left]))) + mset (busy_key (ws ! i)) = mset (concat (map busy_key ws))"
  using mset_concat_update [OF assms, of busy_key] by simp_all

definition run_inv :: "('q \<Rightarrow> string set) \<Rightarrow> 'q running \<Rightarrow> bool" where
  "run_inv processing s \<longleftrightarrow>
     processing (runQueue s) = set (in_progress s) \<and> distinct (in_progress s) \<and>
     mset (runTaken s) = mset (runFinished s) + mset (in_progress s) \<and>
     (runReturned s \<longrightarrow> (\<forall>w \<in> set (runWork s). w = Left))"

lemma distinct_mset_eq: "mset xs = mset ys \<Longrightarrow> distinct xs = distinct ys \<and> set xs = set ys"
  by (metis mset_eq_imp_distinct_iff set_mset_mset)

lemma run_step_inv:
  assumes law: "queue_law wq processing"
  shows "run_step wq s s' \<Longrightarrow> run_inv processing s \<Longrightarrow> run_inv processing s'"
proof (induction rule: run_step.induct)
  case (take i s key q)
  let ?s = "s\<lparr>runQueue := q, runWork := (runWork s)[i := Busy key], runTaken := key # runTaken s\<rparr>"
  have m: "mset (in_progress ?s) = mset (key # in_progress s)"
    using progress_update(1) [OF take(1), of key] take(2) by (simp add: in_progress_def)
  have p: "key \<notin> processing (runQueue s)" "processing q = insert key (processing (runQueue s))"
    using law take(3) by (auto simp: queue_law_def)
  have "runWork s ! i \<in> set (runWork s)" using take(1) by simp
  then have "\<not> runReturned s" using take(2,4) by (auto simp: run_inv_def)
  moreover have "distinct (in_progress ?s)" "set (in_progress ?s) = processing q"
    using distinct_mset_eq [OF m] p take(4) by (auto simp: run_inv_def)
  ultimately show ?case using m take(4) by (simp add: run_inv_def)
next
  case (leave i s q)
  let ?s = "s\<lparr>runQueue := q, runWork := (runWork s)[i := Left]\<rparr>"
  have m: "mset (in_progress ?s) = mset (in_progress s)"
    using progress_update(3) [OF leave(1)] leave(2) by (simp add: in_progress_def)
  have "processing q = processing (runQueue s)" using law leave(3) by (auto simp: queue_law_def)
  moreover have "w = Left" if "runReturned s" "w \<in> set ((runWork s)[i := Left])" for w
    using that leave(4) set_update_subset_insert [of "runWork s" i Left] by (auto simp: run_inv_def)
  ultimately show ?case using m distinct_mset_eq [OF m] leave(4) by (simp add: run_inv_def)
next
  case (finish i s key action)
  let ?s = "s\<lparr>runQueue := qDone wq key (qAnswer wq action (runQueue s)),
      runWork := (runWork s)[i := AtGet], runFinished := key # runFinished s\<rparr>"
  have m: "mset (in_progress s) = mset (key # in_progress ?s)"
    using progress_update(2) [OF finish(1)] finish(2) by (simp add: in_progress_def)
  have d: "distinct (key # in_progress ?s)" "set (in_progress s) = insert key (set (in_progress ?s))"
    using distinct_mset_eq [OF m] finish(4) by (auto simp: run_inv_def)
  have "processing (runQueue ?s) = processing (runQueue s) - {key}" using law by (simp add: queue_law_def)
  then have "processing (runQueue ?s) = set (in_progress ?s)" using d finish(4) by (auto simp: run_inv_def)
  moreover have "runWork s ! i \<in> set (runWork s)" using finish(1) by simp
  then have "\<not> runReturned s" using finish(2,4) by (auto simp: run_inv_def)
  ultimately show ?case using m d(1) finish(4) by (simp add: run_inv_def)
qed (use law in \<open>simp_all add: run_inv_def in_progress_def queue_law_def\<close>)

lemma run_begin_inv: "processing q = {} \<Longrightarrow> run_inv processing (run_begin q n)"
  by (induction n) (simp_all add: run_inv_def run_begin_def in_progress_def)

lemma run_reaches_inv:
  assumes "queue_law wq processing" "processing q = {}" "(run_step wq)\<^sup>*\<^sup>* (run_begin q n) s"
  shows "run_inv processing s"
  using assms(3)
proof (induction rule: rtranclp_induct)
  case base
  show ?case using assms(2) by (rule run_begin_inv)
next
  case (step s s')
  show ?case by (rule run_step_inv [OF assms(1) step(2,3)])
qed

section \<open>Properties\<close>

text \<open>
  C40: the shutdown drains the workers.  With any number of workers and whatever the handlers add,
  no two workers are ever on the same key; and when \<open>Run\<close> has returned every worker has left,
  every reconcile that was begun has ended and been answered, and no further one can begin.
\<close>

theorem shutdown_drains:
  assumes "queue_law wq processing" "processing q = {}" "(run_step wq)\<^sup>*\<^sup>* (run_begin q n) s"
  shows "distinct (in_progress s) \<and>
    (runReturned s \<longrightarrow> in_progress s = [] \<and> mset (runTaken s) = mset (runFinished s) \<and>
      (\<forall>s'. run_step wq s s' \<longrightarrow> runTaken s' = runTaken s \<and> runReturned s'))"
proof (intro conjI impI allI)
  have inv_s: "run_inv processing s" using assms by (rule run_reaches_inv)
  then show "distinct (in_progress s)" by (simp add: run_inv_def)
  assume r: "runReturned s"
  then have gone: "\<forall>w \<in> set (runWork s). w = Left" using inv_s by (simp add: run_inv_def)
  then show none: "in_progress s = []" by (auto simp: in_progress_def)
  then show "mset (runTaken s) = mset (runFinished s)" using inv_s by (simp add: run_inv_def)
  fix s' assume "run_step wq s s'"
  then show "runTaken s' = runTaken s" "runReturned s'"
    using gone r by (cases; force dest: nth_mem)+
qed

text \<open>A queue as a list of waiting keys, the keys being processed, and whether it is shut down.\<close>

type_synonym list_queue = "string list \<times> string set \<times> bool"

definition list_queue :: "list_queue work_queue" where
  "list_queue =
     \<lparr>qGet = (\<lambda>(ks, ps, shut). case dropWhile (\<lambda>k. k \<in> ps) ks of
                [] \<Rightarrow> if shut then Some (None, ks, ps, shut) else None
              | k # _ \<Rightarrow> Some (Some k, remove1 k ks, insert k ps, shut)),
      qDone = (\<lambda>k (ks, ps, shut). (ks, ps - {k}, shut)),
      qAdd = (\<lambda>k (ks, ps, shut). (if k \<in> set ks \<or> shut then ks else ks @ [k], ps, shut)),
      qAnswer = (\<lambda>_ q. q),
      qShutDown = (\<lambda>(ks, ps, shut). (ks, ps, True))\<rparr>"

lemma list_queue_law: "queue_law list_queue (\<lambda>(ks, ps, shut). ps)"
  by (auto simp: queue_law_def list_queue_def split: list.splits if_splits
      dest!: dropWhile_eq_Cons_conv [THEN iffD1])

theorem shutdown_drains_witness:
  "\<exists>s. (run_step list_queue)\<^sup>*\<^sup>* (run_begin ([''ns/a''], {}, False) 1) s \<and> runReturned s \<and>
     mset (runTaken s) = mset (runFinished s) \<and> runTaken s = [''ns/a'']"
proof -
  let ?b = "run_begin ([''ns/a''], {}, False) 1"
  let ?s1 = "?b\<lparr>runQueue := ([], {''ns/a''}, False), runWork := [Busy ''ns/a''], runTaken := [''ns/a'']\<rparr>"
  let ?s2 = "?s1\<lparr>runQueue := ([], {''ns/a''}, True), runShut := True\<rparr>"
  let ?s3 = "?s2\<lparr>runQueue := ([], {}, True), runWork := [AtGet], runFinished := [''ns/a'']\<rparr>"
  let ?s4 = "?s3\<lparr>runQueue := ([], {}, True), runWork := [Left]\<rparr>"
  let ?s5 = "?s4\<lparr>runReturned := True\<rparr>"
  have "run_step list_queue ?b ?s1"
    using run_step.take [of 0 ?b list_queue "''ns/a''" "([], {''ns/a''}, False)"]
    by (simp add: run_begin_def list_queue_def)
  moreover have "run_step list_queue ?s1 ?s2"
    using run_step.shut_down [of ?s1 list_queue] by (simp add: run_begin_def list_queue_def)
  moreover have "run_step list_queue ?s2 ?s3"
    using run_step.finish [of 0 ?s2 "''ns/a''" "Forget ''ns/a''" list_queue] by (simp add: run_begin_def list_queue_def)
  moreover have "run_step list_queue ?s3 ?s4"
    using run_step.leave [of 0 ?s3 list_queue "([], {}, True)"] by (simp add: run_begin_def list_queue_def)
  moreover have "run_step list_queue ?s4 ?s5"
    by (rule run_step.return) (simp_all add: run_begin_def)
  ultimately have run: "(run_step list_queue)\<^sup>*\<^sup>* ?b ?s5"
    by (meson converse_rtranclp_into_rtranclp rtranclp.rtrancl_refl)
  have "mset (runTaken ?s5) = mset (runFinished ?s5)"
    using shutdown_drains [OF list_queue_law _ run] by simp
  with run show ?thesis by (intro exI [of _ ?s5]) simp
qed

end
