(* ===== verification/LLMFit.thy ===== *)
theory LLMFit
  imports GoStrings
begin

text \<open>
  The capability source (\<open>internal/llmfit/llmfit.go\<close>, \<open>detector.go\<close>): the report of the
  llmfit binary, the vendor its names suggest, and the detector that prefers the serve API,
  falls back to running the binary, then to the last good report within a bound, and carries
  bandwidths forward.  What a transport call returns is a parameter of each operation; time
  is nanoseconds.
\<close>

section \<open>The report\<close>

record gpu =
  gName :: string
  VRAMGB :: "rat option"
  gBackend :: string
  gCount :: nat
  gUnifiedMemory :: bool
  MemoryBandwidthGBps :: "rat option"

record system =
  TotalRAMGB :: rat
  CPUCores :: int
  CPUName :: string
  HasGPU :: bool
  sUnifiedMemory :: bool
  sBackend :: string
  GPUs :: "gpu list"

definition Parse :: "(string \<Rightarrow> system result) \<Rightarrow> string \<Rightarrow> system result" where
  "Parse decode data =
     (case decode data of
        Inl err \<Rightarrow> Inl (''parsing llmfit system JSON: '' @ err)
      | Inr s \<Rightarrow> if CPUName s = [] \<and> GPUs s = []
                 then Inl ''llmfit system JSON contained no hardware'' else Inr s)"

text \<open>Running the binary returns its output, or the error text and, if it exited, its stderr.\<close>

definition ExecDetect ::
  "(string \<Rightarrow> system result) \<Rightarrow> string \<Rightarrow> (string \<times> string option) + string \<Rightarrow> system result" where
  "ExecDetect decode bin outcome =
     (case outcome of
        Inl (err, stderr) \<Rightarrow>
          Inl (''running '' @ go_quote bin @ '' --json system: '' @ err @
               (case stderr of None \<Rightarrow> [] | Some s \<Rightarrow> '': '' @ trim_space s))
      | Inr out \<Rightarrow> Parse decode out)"

text \<open>
  The client of the serve API (\<open>client.go\<close>): the address it accepts, and what it makes of the
  outcome of the GET request, which is a parameter.
\<close>

datatype api_base = UnixSocket string | HttpBase string

definition NewClient :: "string \<Rightarrow> api_base result" where
  "NewClient rawURL =
     (case cut_prefix rawURL ''unix://'' of
        Some p \<Rightarrow> if p = [] then Inl (''empty unix socket path in '' @ go_quote rawURL)
                  else Inr (UnixSocket p)
      | None \<Rightarrow>
          if has_prefix rawURL ''http://'' \<or> has_prefix rawURL ''https://''
          then Inr (HttpBase (rev (dropWhile (\<lambda>c. c = CHR ''/'') (rev rawURL))))
          else Inl (''unsupported llmfit URL '' @ go_quote rawURL @ '' (want unix:// or http://)''))"

datatype http_outcome =
    BadRequest string
  | NoResponse string
  | BadStatus string string
  | BodyError string
  | Body string

definition ClientDetect :: "(string \<Rightarrow> system result) \<Rightarrow> http_outcome \<Rightarrow> system result" where
  "ClientDetect decode outcome =
     (case outcome of
        BadRequest err \<Rightarrow> Inl err
      | NoResponse err \<Rightarrow> Inl (''llmfit API: '' @ err)
      | BadStatus status body \<Rightarrow> Inl (''llmfit API: '' @ status @ '': '' @ trim_space (take 512 body))
      | BodyError err \<Rightarrow> Inl (''llmfit API read: '' @ err)
      | Body data \<Rightarrow> Parse decode (take (2 ^ 20) data))"

definition vendor_of_name :: "string \<Rightarrow> string" where
  "vendor_of_name n =
     (if contains n ''nvidia'' \<or> contains n ''geforce'' \<or> contains n ''cuda'' then ''nvidia''
      else if contains n ''amd'' \<or> contains n ''radeon'' \<or> contains n ''rocm'' \<or> contains n ''instinct''
      then ''amd''
      else if contains n ''intel'' \<or> contains n ''arc'' \<or> contains n ''sycl'' then ''intel''
      else if contains n ''apple'' \<or> contains n ''metal'' then ''apple''
      else [])"

definition VendorOf :: "gpu \<Rightarrow> string" where
  "VendorOf g = vendor_of_name (to_lower (gName g @ '' '' @ gBackend g))"

section \<open>Carrying bandwidths forward\<close>

definition known_bandwidth :: "gpu \<Rightarrow> bool" where
  "known_bandwidth g \<longleftrightarrow> (case MemoryBandwidthGBps g of None \<Rightarrow> False | Some b \<Rightarrow> b > 0)"

definition bandwidth_by_name :: "gpu list \<Rightarrow> (string \<Rightarrow> rat option)" where
  "bandwidth_by_name prev =
     fold (\<lambda>g m. case MemoryBandwidthGBps g of
                    None \<Rightarrow> m
                  | Some b \<Rightarrow> if b > 0 then m(gName g \<mapsto> b) else m) prev Map.empty"

definition fill_bandwidth :: "(string \<Rightarrow> rat option) \<Rightarrow> gpu \<Rightarrow> gpu" where
  "fill_bandwidth byName g =
     (if \<not> known_bandwidth g
      then case byName (gName g) of None \<Rightarrow> g | Some b \<Rightarrow> g\<lparr>MemoryBandwidthGBps := Some b\<rparr>
      else g)"

definition backfillBandwidth :: "system \<Rightarrow> system option \<Rightarrow> system" where
  "backfillBandwidth fresh prev =
     (case prev of
        None \<Rightarrow> fresh
      | Some p \<Rightarrow> fresh\<lparr>GPUs := map (fill_bandwidth (bandwidth_by_name (GPUs p))) (GPUs fresh)\<rparr>)"

section \<open>The detector\<close>

record detector =
  maxStale :: int
  lastReport :: "system option"
  lastAt :: int
  transport :: string

definition accept :: "string \<Rightarrow> system \<Rightarrow> int \<Rightarrow> detector \<Rightarrow> system result \<times> detector" where
  "accept name sys now d =
     (Inr (backfillBandwidth sys (lastReport d)),
      d\<lparr>transport := name, lastReport := Some (backfillBandwidth sys (lastReport d)), lastAt := now\<rparr>)"

definition serve_cached :: "string option \<Rightarrow> int \<Rightarrow> detector \<Rightarrow> system result \<times> detector" where
  "serve_cached firstErr now d =
     (case lastReport d of
        Some s \<Rightarrow>
          if now - lastAt d \<le> maxStale d then (Inr s, d\<lparr>transport := ''cache''\<rparr>)
          else (Inl (case firstErr of None \<Rightarrow> ''no llmfit transport configured'' | Some e \<Rightarrow> e), d)
      | None \<Rightarrow> (Inl (case firstErr of None \<Rightarrow> ''no llmfit transport configured'' | Some e \<Rightarrow> e), d))"

fun try_transports ::
  "(string \<times> system result option) list \<Rightarrow> string option \<Rightarrow> int \<Rightarrow> detector \<Rightarrow> system result \<times> detector" where
  "try_transports [] firstErr now d = serve_cached firstErr now d"
| "try_transports ((name, None) # ts) firstErr now d = try_transports ts firstErr now d"
| "try_transports ((name, Some (Inl err)) # ts) firstErr now d =
     try_transports ts (case firstErr of None \<Rightarrow> Some err | Some e \<Rightarrow> Some e) now d"
| "try_transports ((name, Some (Inr sys)) # ts) firstErr now d = accept name sys now d"

text \<open>\<open>None\<close> is a transport that is not configured, \<open>Some r\<close> the result of calling it.\<close>

definition Detect ::
  "system result option \<Rightarrow> system result option \<Rightarrow> int \<Rightarrow> detector \<Rightarrow> system result \<times> detector" where
  "Detect api exec now d = try_transports [(''api'', api), (''exec'', exec)] None now d"

text \<open>The configured transports (the API's address, whether there is a binary) and the detector.\<close>

definition new_detector :: "int \<Rightarrow> detector" where
  "new_detector stale = \<lparr>maxStale = stale, lastReport = None, lastAt = 0, transport = []\<rparr>"

definition NewDetector :: "string \<Rightarrow> string \<Rightarrow> int \<Rightarrow> (api_base option \<times> bool \<times> detector) result" where
  "NewDetector url bin stale =
     (if url = [] then Inr (None, bin \<noteq> [], new_detector stale)
      else case NewClient url of
             Inl err \<Rightarrow> Inl err
           | Inr c \<Rightarrow> Inr (Some c, bin \<noteq> [], new_detector stale))"

section \<open>Facts\<close>

lemma bandwidth_by_name_Some:
  "bandwidth_by_name prev n = Some b \<Longrightarrow>
     0 < b \<and> (\<exists>g \<in> set prev. gName g = n \<and> MemoryBandwidthGBps g = Some b)"
proof (induction prev arbitrary: b rule: rev_induct)
  case (snoc g prev)
  then show ?case
    by (auto simp: bandwidth_by_name_def split: option.splits if_splits)
qed (simp add: bandwidth_by_name_def)

lemma bandwidth_by_name_known:
  "g \<in> set prev \<Longrightarrow> known_bandwidth g \<Longrightarrow> bandwidth_by_name prev (gName g) \<noteq> None"
proof (induction prev rule: rev_induct)
  case (snoc x prev)
  then show ?case
    by (auto simp: bandwidth_by_name_def known_bandwidth_def split: option.splits if_splits)
qed simp

lemma fill_keeps [simp]:
  "gName (fill_bandwidth m g) = gName g" "VRAMGB (fill_bandwidth m g) = VRAMGB g"
  "gBackend (fill_bandwidth m g) = gBackend g" "gCount (fill_bandwidth m g) = gCount g"
  "gUnifiedMemory (fill_bandwidth m g) = gUnifiedMemory g"
  by (simp_all add: fill_bandwidth_def split: option.splits)

text \<open>
  One cycle: what the configured transports would answer, and the time.  The detector's
  state over a history of cycles.
\<close>

record cycle =
  cApi :: "system result option"
  cExec :: "system result option"
  cNow :: int

definition answered :: "cycle \<Rightarrow> bool" where
  "answered c \<longleftrightarrow> (\<exists>s. cApi c = Some (Inr s)) \<or> (\<exists>s. cExec c = Some (Inr s))"

definition detect_cycle :: "cycle \<Rightarrow> detector \<Rightarrow> system result \<times> detector" where
  "detect_cycle c d = Detect (cApi c) (cExec c) (cNow c) d"

definition detector_after :: "int \<Rightarrow> cycle list \<Rightarrow> detector" where
  "detector_after stale cs = fold (\<lambda>c d. snd (detect_cycle c d)) cs (new_detector stale)"

lemma answer_cases:
  obtains "t = None" | e where "t = Some (Inl e)" | s where "t = Some (Inr s)"
  by (cases t; metis sum.exhaust)

lemma detect_state:
  "lastAt (snd (detect_cycle c d)) = (if answered c then cNow c else lastAt d)"
  "lastReport (snd (detect_cycle c d)) \<noteq> None \<longleftrightarrow> answered c \<or> lastReport d \<noteq> None"
  "maxStale (snd (detect_cycle c d)) = maxStale d"
  by (cases "cApi c" rule: answer_cases; cases "cExec c" rule: answer_cases;
      auto simp: detect_cycle_def Detect_def accept_def serve_cached_def answered_def
        split: option.splits)+

lemma detector_after_facts:
  "maxStale (detector_after stale cs) = stale \<and>
   (lastReport (detector_after stale cs) \<noteq> None \<longrightarrow>
      (\<exists>c \<in> set cs. answered c \<and> cNow c = lastAt (detector_after stale cs)))"
proof (induction cs rule: rev_induct)
  case Nil
  then show ?case by (simp add: detector_after_def new_detector_def)
next
  case (snoc c cs)
  have "detector_after stale (cs @ [c]) = snd (detect_cycle c (detector_after stale cs))"
    by (simp add: detector_after_def)
  with snoc detect_state [of c "detector_after stale cs"] show ?case by auto
qed

section \<open>Properties\<close>

text \<open>
  A report is fresh or recent.  A successful detection returns the report of the API when
  the API answers, else that of the binary when it runs, else the last good one no older than
  the bound, and the transport names the one used.  A failed detection changes nothing, and
  happens only when no transport answered and there is no recent report.
\<close>

theorem detection_fresh_or_recent:
  assumes "Detect api exec now d = (r, d')"
  shows "case r of
      Inr s \<Rightarrow>
        (transport d' = ''api'' \<and> (\<exists>sys. api = Some (Inr sys) \<and> s = backfillBandwidth sys (lastReport d)) \<and>
           lastReport d' = Some s \<and> lastAt d' = now) \<or>
        (transport d' = ''exec'' \<and> (\<forall>sys. api \<noteq> Some (Inr sys)) \<and>
           (\<exists>sys. exec = Some (Inr sys) \<and> s = backfillBandwidth sys (lastReport d)) \<and>
           lastReport d' = Some s \<and> lastAt d' = now) \<or>
        (transport d' = ''cache'' \<and> (\<forall>sys. api \<noteq> Some (Inr sys)) \<and> (\<forall>sys. exec \<noteq> Some (Inr sys)) \<and>
           lastReport d = Some s \<and> now - lastAt d \<le> maxStale d \<and> lastReport d' = Some s \<and>
           lastAt d' = lastAt d)
    | Inl err \<Rightarrow>
        d' = d \<and> (\<forall>sys. api \<noteq> Some (Inr sys)) \<and> (\<forall>sys. exec \<noteq> Some (Inr sys)) \<and>
        (lastReport d = None \<or> maxStale d < now - lastAt d) \<and>
        (err = ''no llmfit transport configured'' \<or> api = Some (Inl err) \<or> exec = Some (Inl err))"
  using assms
  by (cases api rule: answer_cases; cases exec rule: answer_cases)
    (auto simp: Detect_def serve_cached_def accept_def split: option.splits if_splits)

definition sample_report :: system where
  "sample_report =
     \<lparr>TotalRAMGB = 64, CPUCores = 16, CPUName = ''Ryzen'', HasGPU = True, sUnifiedMemory = True,
      sBackend = ''rocm'',
      GPUs = [\<lparr>gName = ''AMD Radeon 8060S'', VRAMGB = Some 96, gBackend = ''ROCm'', gCount = 1,
               gUnifiedMemory = True, MemoryBandwidthGBps = Some 256\<rparr>]\<rparr>"

definition sample_partial :: system where
  "sample_partial =
     sample_report\<lparr>GPUs := map (\<lambda>g. g\<lparr>MemoryBandwidthGBps := None\<rparr>) (GPUs sample_report)\<rparr>"

theorem detection_fresh_or_recent_witness:
  "\<exists>d'. Detect None (Some (Inl ''exit status 1'')) 5
        \<lparr>maxStale = 10, lastReport = Some sample_report, lastAt = 0, transport = ''exec''\<rparr> =
      (Inr sample_report, d') \<and> transport d' = ''cache''"
proof -
  let ?d = "\<lparr>maxStale = 10, lastReport = Some sample_report, lastAt = 0, transport = ''exec''\<rparr>"
  let ?d' = "?d\<lparr>transport := ''cache''\<rparr>"
  have "Detect None (Some (Inl ''exit status 1'')) 5 ?d = (Inr sample_report, ?d')"
    by (simp add: Detect_def serve_cached_def)
  from detection_fresh_or_recent [OF this] this show ?thesis by auto
qed

text \<open>
  Over any history of cycles the published capability never rests on an old report.  If a
  cycle succeeds, some cycle of the history, the present one included, was answered by a
  transport no longer ago than the staleness bound.
\<close>

theorem served_report_is_recent:
  assumes "fst (detect_cycle c (detector_after stale cs)) = Inr s" "0 \<le> stale"
  shows "\<exists>c' \<in> set (cs @ [c]). answered c' \<and> cNow c - cNow c' \<le> stale"
proof -
  let ?d = "detector_after stale cs"
  obtain d' where "Detect (cApi c) (cExec c) (cNow c) ?d = (Inr s, d')"
    using assms(1) by (cases "detect_cycle c ?d") (auto simp: detect_cycle_def)
  then consider "answered c" | "lastReport ?d = Some s" "cNow c - lastAt ?d \<le> maxStale ?d"
    by (cases "cApi c" rule: answer_cases; cases "cExec c" rule: answer_cases)
      (auto simp: Detect_def serve_cached_def accept_def answered_def split: option.splits if_splits)
  then show ?thesis
    using detector_after_facts [of stale cs] assms(2) by cases auto
qed

theorem served_report_is_recent_witness:
  "\<exists>c' \<in> {\<lparr>cApi = Some (Inr sample_report), cExec = None, cNow = 0\<rparr>,
            \<lparr>cApi = Some (Inl ''refused''), cExec = None, cNow = 7\<rparr>}. answered c' \<and> 7 - cNow c' \<le> 10"
proof -
  let ?c0 = "\<lparr>cApi = Some (Inr sample_report), cExec = None, cNow = 0\<rparr>"
  let ?c1 = "\<lparr>cApi = Some (Inl ''refused''), cExec = None, cNow = 7\<rparr>"
  have "fst (detect_cycle ?c1 (detector_after 10 [?c0])) = Inr sample_report"
    by (simp add: detect_cycle_def detector_after_def Detect_def accept_def serve_cached_def
        new_detector_def backfillBandwidth_def)
  from served_report_is_recent [OF this] show ?thesis by auto
qed

text \<open>
  Bandwidths are carried forward, never invented or overwritten.  In a fresh report, a GPU
  with a known bandwidth keeps it; one without gets the last known bandwidth of a GPU of its
  name if the previous report had one, and is left alone otherwise; nothing else changes.
\<close>

theorem bandwidth_carried_forward:
  assumes "g \<in> set (GPUs fresh)"
    and g'_eq: "g' = fill_bandwidth (bandwidth_by_name (GPUs prev)) g"
  shows "g' \<in> set (GPUs (backfillBandwidth fresh (Some prev))) \<and>
    gName g' = gName g \<and> VRAMGB g' = VRAMGB g \<and> gCount g' = gCount g \<and>
    (known_bandwidth g \<longrightarrow> g' = g) \<and>
    (\<not> known_bandwidth g \<longrightarrow>
       (if \<exists>p \<in> set (GPUs prev). gName p = gName g \<and> known_bandwidth p
        then known_bandwidth g' \<and> (\<exists>p \<in> set (GPUs prev). gName p = gName g \<and> known_bandwidth p \<and>
               MemoryBandwidthGBps p = MemoryBandwidthGBps g')
        else g' = g))"
proof -
  have "g' \<in> set (GPUs (backfillBandwidth fresh (Some prev)))"
    using assms by (simp add: backfillBandwidth_def)
  moreover have "if \<exists>p \<in> set (GPUs prev). gName p = gName g \<and> known_bandwidth p
        then known_bandwidth g' \<and> (\<exists>p \<in> set (GPUs prev). gName p = gName g \<and> known_bandwidth p \<and>
               MemoryBandwidthGBps p = MemoryBandwidthGBps g')
        else g' = g" if unknown: "\<not> known_bandwidth g"
  proof (cases "bandwidth_by_name (GPUs prev) (gName g)")
    case None
    then have "\<not> (\<exists>p \<in> set (GPUs prev). gName p = gName g \<and> known_bandwidth p)"
      using bandwidth_by_name_known by metis
    with None unknown show ?thesis by (auto simp: g'_eq fill_bandwidth_def)
  next
    case (Some b)
    from bandwidth_by_name_Some [OF this] obtain p where
      p: "0 < b" "p \<in> set (GPUs prev)" "gName p = gName g" "MemoryBandwidthGBps p = Some b" by blast
    have "g' = g\<lparr>MemoryBandwidthGBps := Some b\<rparr>" using Some unknown by (simp add: g'_eq fill_bandwidth_def)
    with p show ?thesis by (auto simp: known_bandwidth_def)
  qed
  moreover have "gName g' = gName g" "VRAMGB g' = VRAMGB g" "gCount g' = gCount g" by (simp_all add: g'_eq)
  moreover have "known_bandwidth g \<Longrightarrow> g' = g" by (simp add: g'_eq fill_bandwidth_def)
  ultimately show ?thesis by blast
qed

theorem bandwidth_carried_forward_witness:
  "\<exists>g \<in> set (GPUs (backfillBandwidth sample_partial (Some sample_report))). known_bandwidth g"
proof -
  let ?g = "(hd (GPUs sample_report))\<lparr>MemoryBandwidthGBps := None\<rparr>"
  have "?g \<in> set (GPUs sample_partial)"
    by (simp add: sample_partial_def sample_report_def)
  note * = bandwidth_carried_forward [OF this refl, of sample_report]
  have "\<not> known_bandwidth ?g" by (simp add: known_bandwidth_def)
  moreover have "\<exists>p \<in> set (GPUs sample_report). gName p = gName ?g \<and> known_bandwidth p"
    by (simp add: sample_report_def known_bandwidth_def)
  ultimately show ?thesis using * by (metis (no_types, lifting))
qed

end
