(* ===== verification/Utf8.thy ===== *)
theory Utf8
  imports GoStrings
begin

text \<open>
  UTF-8 on byte strings, as package \<open>unicode/utf8\<close> reads it: the size of the encoding at the
  head of a string, and whether a whole string is a sequence of encodings.
\<close>

text \<open>The size of the UTF-8 encoding at the head of a byte string, 0 if there is none.\<close>

definition byte :: "char \<Rightarrow> nat" where
  "byte c = of_char c"

definition continues :: "string \<Rightarrow> nat \<Rightarrow> nat \<Rightarrow> nat \<Rightarrow> bool" where
  "continues s i lo hi \<longleftrightarrow> i < length s \<and> lo \<le> byte (s ! i) \<and> byte (s ! i) \<le> hi"

definition rune_size_at :: "nat \<Rightarrow> string \<Rightarrow> nat" where
  "rune_size_at b s =
     (if b < 128 then 1
      else if 194 \<le> b \<and> b \<le> 223 then (if continues s 1 128 191 then 2 else 0)
      else if 224 \<le> b \<and> b \<le> 239 then
        (if continues s 1 (if b = 224 then 160 else 128) (if b = 237 then 159 else 191) \<and>
            continues s 2 128 191 then 3 else 0)
      else if 240 \<le> b \<and> b \<le> 244 then
        (if continues s 1 (if b = 240 then 144 else 128) (if b = 244 then 143 else 191) \<and>
            continues s 2 128 191 \<and> continues s 3 128 191 then 4 else 0)
      else 0)"

definition rune_size :: "string \<Rightarrow> nat" where
  "rune_size s = (case s of [] \<Rightarrow> 0 | c # _ \<Rightarrow> rune_size_at (byte c) s)"

lemma continues_length: "continues s i lo hi \<Longrightarrow> Suc i \<le> length s"
  by (simp add: continues_def)

lemma rune_size_le: "rune_size s \<le> length s" "rune_size s \<le> 4"
proof -
  have "s \<noteq> [] \<Longrightarrow> rune_size_at b s \<le> length s" for b
    by (auto simp: rune_size_at_def Suc_le_eq dest: continues_length)
  then show "rune_size s \<le> length s" by (cases s) (simp_all add: rune_size_def)
  show "rune_size s \<le> 4" by (simp add: rune_size_def rune_size_at_def split: list.splits)
qed

function valid_utf8 :: "string \<Rightarrow> bool" where
  "valid_utf8 s =
     (if s = [] then True
      else if rune_size s = 0 then False else valid_utf8 (drop (rune_size s) s))"
  by pat_completeness auto
termination
  by (relation "measure length") auto

declare valid_utf8.simps [simp del]

lemma continues_take: "continues (take j s) i lo hi \<longleftrightarrow> i < j \<and> continues s i lo hi"
  by (auto simp: continues_def)

lemma rune_size_take:
  assumes "rune_size s \<noteq> 0" "rune_size s \<le> j"
  shows "rune_size (take j s) = rune_size s"
proof (cases s)
  case (Cons c t)
  have "rune_size_at (byte c) s \<noteq> 0" "rune_size_at (byte c) s \<le> j"
    using assms by (simp_all add: rune_size_def Cons)
  then have "rune_size_at (byte c) (take j s) = rune_size_at (byte c) s"
    unfolding rune_size_at_def continues_take by (simp split: if_split_asm)
  moreover have "0 < j" using assms by simp
  ultimately show ?thesis by (simp add: rune_size_def Cons take_Cons' split: if_splits)
qed (use assms in \<open>simp add: rune_size_def\<close>)

end
