(* ===== verification/Json.thy ===== *)
theory Json
  imports Utf8
begin

text \<open>
  Package \<open>encoding/json\<close> as the driver uses it: the indented text of strings, arrays and
  objects (\<open>MarshalIndent\<close>), the reader (\<open>Unmarshal\<close>) with its escapes, its nesting limit and
  its replacement of invalid UTF-8, and the decoding of a value into the fields of a struct.
  The text of an error is not modelled; where it is shown, it is a parameter.
\<close>

section \<open>Writing\<close>

text \<open>A string with its escapes, and the indented layout.\<close>

definition json_escape :: "string \<Rightarrow> string" where
  \<comment> \<open>the encoding of the rune or invalid byte at the head\<close>
  "json_escape s =
     (let n = byte (hd s); bs = CHR 0x5C in
      if rune_size s = 0 then bs # ''ufffd''
      else if n = 34 \<or> n = 92 then [bs, hd s]
      else if n = 8 then [bs, CHR ''b''] else if n = 12 then [bs, CHR ''f'']
      else if n = 10 then [bs, CHR ''n''] else if n = 13 then [bs, CHR ''r'']
      else if n = 9 then [bs, CHR ''t'']
      else if n < 32 \<or> n = 60 \<or> n = 62 \<or> n = 38 then
        bs # ''u00'' @ [hex_char (n div 16), hex_char (n mod 16)]
      else if take 3 s = [CHR 0xE2, CHR 0x80, CHR 0xA8] then bs # ''u2028''
      else if take 3 s = [CHR 0xE2, CHR 0x80, CHR 0xA9] then bs # ''u2029''
      else take (rune_size s) s)"

function json_chars :: "string \<Rightarrow> string" where
  "json_chars s = (if s = [] then [] else json_escape s @ json_chars (drop (max 1 (rune_size s)) s))"
  by pat_completeness auto
termination
  by (relation "measure length") auto

declare json_chars.simps [simp del]

definition json_string :: "string \<Rightarrow> string" where
  "json_string s = [CHR 0x22] @ json_chars s @ [CHR 0x22]"

definition new_line :: "nat \<Rightarrow> string" where
  "new_line n = CHR 0x0A # replicate (2 * n) (CHR '' '')"

definition json_block :: "char \<Rightarrow> char \<Rightarrow> nat \<Rightarrow> string list \<Rightarrow> string" where
  \<comment> \<open>an array or an object of already encoded members, at an indentation\<close>
  "json_block opening closing n members =
     (if members = [] then [opening, closing]
      else opening # new_line (Suc n) @ join_with (CHR '','' # new_line (Suc n)) members @
           new_line n @ [closing])"

definition json_array :: "nat \<Rightarrow> string list \<Rightarrow> string" where
  "json_array = json_block (CHR ''['') (CHR '']'')"

definition json_object :: "nat \<Rightarrow> string list \<Rightarrow> string" where
  "json_object = json_block (CHR ''{'') (CHR ''}'')"

definition json_member :: "string \<Rightarrow> string \<Rightarrow> string" where
  "json_member k v = json_string k @ '': '' @ v"

section \<open>Reading\<close>

text \<open>A number keeps its literal; the target of a decoding says what it means.\<close>

datatype json =
    JNull
  | JBool bool
  | JNumber string
  | JString string
  | JArray "json list"
  | JObject "(string \<times> json) list"

definition json_space :: "char \<Rightarrow> bool" where
  "json_space c \<longleftrightarrow> c = CHR '' '' \<or> c = CHR 0x0A \<or> c = CHR 0x0D \<or> c = CHR 0x09"

definition skip_space :: "string \<Rightarrow> string" where
  "skip_space s = dropWhile json_space s"

definition utf8_encode :: "nat \<Rightarrow> string" where
  "utf8_encode r =
     (if r < 128 then [char_of r]
      else if r < 2048 then [char_of (192 + r div 64), char_of (128 + r mod 64)]
      else if r < 65536 then
        [char_of (224 + r div 4096), char_of (128 + r div 64 mod 64), char_of (128 + r mod 64)]
      else [char_of (240 + r div 262144), char_of (128 + r div 4096 mod 64),
            char_of (128 + r div 64 mod 64), char_of (128 + r mod 64)])"

definition replacement :: string where
  \<comment> \<open>\<open>unicode.ReplacementChar\<close>\<close>
  "replacement = [CHR 0xEF, CHR 0xBF, CHR 0xBD]"

definition hex_value :: "char \<Rightarrow> nat option" where
  "hex_value c =
     (let n = byte c in
      if is_digit c then Some (n - 48)
      else if 97 \<le> n \<and> n \<le> 102 then Some (n - 87)
      else if 65 \<le> n \<and> n \<le> 70 then Some (n - 55) else None)"

fun hex4 :: "string \<Rightarrow> nat option" where
  "hex4 (a # b # c # d # s) =
     (case (hex_value a, hex_value b, hex_value c, hex_value d) of
        (Some i, Some j, Some k, Some l) \<Rightarrow> Some (4096 * i + 256 * j + 16 * k + l)
      | _ \<Rightarrow> None)"
| "hex4 _ = None"

definition getu4 :: "string \<Rightarrow> nat option" where
  "getu4 s = (case cut_prefix s [CHR 0x5C, CHR ''u''] of None \<Rightarrow> None | Some t \<Rightarrow> hex4 t)"

definition is_surrogate :: "nat \<Rightarrow> bool" where
  "is_surrogate r \<longleftrightarrow> 0xD800 \<le> r \<and> r < 0xE000"

definition utf16_decode :: "nat \<Rightarrow> nat \<Rightarrow> nat option" where
  \<comment> \<open>the rune of a surrogate pair\<close>
  "utf16_decode hi lo =
     (if 0xD800 \<le> hi \<and> hi < 0xDC00 \<and> 0xDC00 \<le> lo \<and> lo < 0xE000
      then Some (0x10000 + 1024 * (hi - 0xD800) + (lo - 0xDC00)) else None)"

definition read_unicode :: "nat \<Rightarrow> string \<Rightarrow> string \<times> string" where
  \<comment> \<open>a surrogate without its partner is replaced, and what follows it is read on its own\<close>
  "read_unicode r s =
     (if is_surrogate r then
        (case getu4 s of
           None \<Rightarrow> (replacement, s)
         | Some lo \<Rightarrow> (case utf16_decode r lo of
                         None \<Rightarrow> (replacement, s)
                       | Some x \<Rightarrow> (utf8_encode x, drop 6 s)))
      else (utf8_encode r, s))"

definition read_escape :: "string \<Rightarrow> (string \<times> string) option" where
  \<comment> \<open>after a backslash\<close>
  "read_escape s =
     (case s of
        [] \<Rightarrow> None
      | c # t \<Rightarrow>
          if c = CHR 0x22 \<or> c = CHR 0x5C \<or> c = CHR ''/'' then Some ([c], t)
          else if c = CHR ''b'' then Some ([CHR 0x08], t)
          else if c = CHR ''f'' then Some ([CHR 0x0C], t)
          else if c = CHR ''n'' then Some ([CHR 0x0A], t)
          else if c = CHR ''r'' then Some ([CHR 0x0D], t)
          else if c = CHR ''t'' then Some ([CHR 0x09], t)
          else if c = CHR ''u'' then
            (case hex4 t of None \<Rightarrow> None | Some r \<Rightarrow> Some (read_unicode r (drop 4 t)))
          else None)"

lemma hex4_length: "hex4 s = Some r \<Longrightarrow> 4 \<le> length s"
  by (cases s rule: hex4.cases) simp_all

lemma read_unicode_le: "length (snd (read_unicode r s)) \<le> length s"
  by (simp add: read_unicode_def split: option.splits)

lemma read_escape_shorter: "read_escape s = Some (x, t) \<Longrightarrow> length t < length s"
proof (cases s)
  case (Cons c u)
  assume e: "read_escape s = Some (x, t)"
  show ?thesis
  proof (cases "\<exists>r. hex4 u = Some r \<and> read_unicode r (drop 4 u) = (x, t)")
    case True
    then obtain r where r: "hex4 u = Some r" "read_unicode r (drop 4 u) = (x, t)" by blast
    then show ?thesis
      using read_unicode_le [of r "drop 4 u"] hex4_length [OF r(1)] Cons by simp
  next
    case False
    with e show ?thesis by (auto simp: Cons read_escape_def split: if_splits option.splits)
  qed
qed (simp add: read_escape_def)

text \<open>
  The rest of a string literal, after its opening quote: the string it denotes and what
  follows the closing quote.
\<close>

definition prepend :: "'a list \<Rightarrow> ('a list \<times> 'b) option \<Rightarrow> ('a list \<times> 'b) option" where
  "prepend p r = map_option (\<lambda>(x, t). (p @ x, t)) r"

function read_string :: "string \<Rightarrow> (string \<times> string) option" where
  "read_string s =
     (case s of
        [] \<Rightarrow> None
      | c # t \<Rightarrow>
          if c = CHR 0x22 then Some ([], t)
          else if c = CHR 0x5C then
            (case read_escape t of None \<Rightarrow> None | Some (x, u) \<Rightarrow> prepend x (read_string u))
          else if byte c < 32 then None
          else if rune_size s = 0 then prepend replacement (read_string t)
          else prepend (take (rune_size s) s) (read_string (drop (rune_size s) s)))"
  by pat_completeness auto
termination
  by (relation "measure length") (auto dest: read_escape_shorter)

declare read_string.simps [simp del]

definition read_digits :: "string \<Rightarrow> (string \<times> string) option" where
  "read_digits s =
     (if takeWhile is_digit s = [] then None else Some (takeWhile is_digit s, dropWhile is_digit s))"

definition read_sign :: "string \<Rightarrow> char list \<Rightarrow> string \<times> string" where
  "read_sign s signs = (case s of [] \<Rightarrow> ([], []) | c # t \<Rightarrow> if c \<in> set signs then ([c], t) else ([], s))"

definition read_int :: "string \<Rightarrow> (string \<times> string) option" where
  \<comment> \<open>a leading zero stands alone\<close>
  "read_int s = (case s of [] \<Rightarrow> None | c # t \<Rightarrow> if c = CHR ''0'' then Some ([c], t) else read_digits s)"

definition read_frac :: "string \<Rightarrow> (string \<times> string) option" where
  "read_frac s =
     (case s of [] \<Rightarrow> Some ([], [])
      | c # t \<Rightarrow> if c = CHR ''.'' then prepend [c] (read_digits t) else Some ([], s))"

definition read_exp :: "string \<Rightarrow> (string \<times> string) option" where
  "read_exp s =
     (case s of [] \<Rightarrow> Some ([], [])
      | c # t \<Rightarrow>
          if c = CHR ''e'' \<or> c = CHR ''E'' then
            (case read_sign t ''+-'' of (sg, u) \<Rightarrow> prepend (c # sg) (read_digits u))
          else Some ([], s))"

definition read_number :: "string \<Rightarrow> (string \<times> string) option" where
  "read_number s =
     (case read_sign s ''-'' of (sg, s1) \<Rightarrow>
      (case read_int s1 of None \<Rightarrow> None | Some (i, s2) \<Rightarrow>
       (case read_frac s2 of None \<Rightarrow> None | Some (f, s3) \<Rightarrow>
        prepend (sg @ i @ f) (read_exp s3))))"

text \<open>
  Values.  The fuel is the recursion measure, the depth the number of arrays and objects that
  may still be opened: the reader gives up on a nesting deeper than 10000.
\<close>

definition read_literal :: "string \<Rightarrow> (json \<times> string) option" where
  "read_literal s =
     (if has_prefix s ''null'' then Some (JNull, drop 4 s)
      else if has_prefix s ''true'' then Some (JBool True, drop 4 s)
      else if has_prefix s ''false'' then Some (JBool False, drop 5 s)
      else map_option (\<lambda>(x, t). (JNumber x, t)) (read_number s))"

definition read_key :: "string \<Rightarrow> (string \<times> string) option" where
  \<comment> \<open>a member's name and its colon\<close>
  "read_key s =
     (case skip_space s of
        [] \<Rightarrow> None
      | c # t \<Rightarrow>
          if c = CHR 0x22 then
            (case read_string t of
               None \<Rightarrow> None
             | Some (k, u) \<Rightarrow>
                 (case skip_space u of [] \<Rightarrow> None | c' # v \<Rightarrow> if c' = CHR '':'' then Some (k, v) else None))
          else None)"

definition close_with :: "char \<Rightarrow> string \<Rightarrow> string option" where
  "close_with c s = (case skip_space s of [] \<Rightarrow> None | d # t \<Rightarrow> if d = c then Some t else None)"

fun read_value :: "nat \<Rightarrow> nat \<Rightarrow> string \<Rightarrow> (json \<times> string) option"
and read_elems :: "nat \<Rightarrow> nat \<Rightarrow> string \<Rightarrow> (json list \<times> string) option"
and read_members :: "nat \<Rightarrow> nat \<Rightarrow> string \<Rightarrow> ((string \<times> json) list \<times> string) option" where
  "read_value 0 d s = None"
| "read_value (Suc n) d s =
     (case skip_space s of
        [] \<Rightarrow> None
      | c # t \<Rightarrow>
          if c = CHR ''{'' then
            (if d = 0 then None
             else case close_with (CHR ''}'') t of
                 Some u \<Rightarrow> Some (JObject [], u)
               | None \<Rightarrow> map_option (\<lambda>(x, u). (JObject x, u)) (read_members n (d - 1) t))
          else if c = CHR ''['' then
            (if d = 0 then None
             else case close_with (CHR '']'') t of
                 Some u \<Rightarrow> Some (JArray [], u)
               | None \<Rightarrow> map_option (\<lambda>(x, u). (JArray x, u)) (read_elems n (d - 1) t))
          else if c = CHR 0x22 then map_option (\<lambda>(x, u). (JString x, u)) (read_string t)
          else read_literal (c # t))"
| "read_elems 0 d s = None"
| "read_elems (Suc n) d s =
     (case read_value n d s of
        None \<Rightarrow> None
      | Some (x, t) \<Rightarrow>
          (case close_with (CHR '']'') t of
             Some u \<Rightarrow> Some ([x], u)
           | None \<Rightarrow> (case close_with (CHR '','') t of
                        None \<Rightarrow> None
                      | Some u \<Rightarrow> prepend [x] (read_elems n d u))))"
| "read_members 0 d s = None"
| "read_members (Suc n) d s =
     (case read_key s of
        None \<Rightarrow> None
      | Some (k, s1) \<Rightarrow>
          (case read_value n d s1 of
             None \<Rightarrow> None
           | Some (x, t) \<Rightarrow>
               (case close_with (CHR ''}'') t of
                  Some u \<Rightarrow> Some ([(k, x)], u)
                | None \<Rightarrow> (case close_with (CHR '','') t of
                             None \<Rightarrow> None
                           | Some u \<Rightarrow> prepend [(k, x)] (read_members n d u)))))"

definition max_depth :: nat where "max_depth = 10000"

definition json_parse :: "string \<Rightarrow> json option" where
  "json_parse s =
     (case read_value (2 * length s + 2) max_depth s of
        None \<Rightarrow> None
      | Some (x, t) \<Rightarrow> if skip_space t = [] then Some x else None)"

section \<open>Every step of the reader consumes input\<close>

lemma skip_space_le: "length (skip_space s) \<le> length s"
  by (simp add: skip_space_def length_dropWhile_le)

lemma prepend_Some: "prepend p r = Some (x, t) \<longleftrightarrow> (\<exists>y. r = Some (y, t) \<and> x = p @ y)"
  by (auto simp: prepend_def)

lemma prepend_simps [simp]:
  "prepend p None = None" "prepend p (Some (x, t)) = Some (p @ x, t)"
  by (simp_all add: prepend_def)

lemma close_with_shorter: "close_with c s = Some t \<Longrightarrow> length t < length s"
  using skip_space_le [of s] by (auto simp: close_with_def split: list.splits if_splits)

lemma read_string_Nil [simp]: "read_string [] = None"
  by (simp add: read_string.simps [of "[]"])

lemma read_string_Cons:
  "read_string (c # t) =
     (if c = CHR 0x22 then Some ([], t)
      else if c = CHR 0x5C then
        (case read_escape t of None \<Rightarrow> None | Some (x, u) \<Rightarrow> prepend x (read_string u))
      else if byte c < 32 then None
      else if rune_size (c # t) = 0 then prepend replacement (read_string t)
      else prepend (take (rune_size (c # t)) (c # t)) (read_string (drop (rune_size (c # t)) (c # t))))"
  by (simp add: read_string.simps [of "c # t"])

lemma read_string_shorter: "read_string s = Some (x, t) \<Longrightarrow> length t < length s"
proof (induction s arbitrary: x t rule: read_string.induct)
  case (1 s)
  show ?case
  proof (cases s)
    case Nil
    with 1(4) show ?thesis by simp
  next
    case (Cons c u)
    consider (quote) "c = CHR 0x22" | (escape) "c \<noteq> CHR 0x22" "c = CHR 0x5C"
      | (bad) "c \<noteq> CHR 0x22" "c \<noteq> CHR 0x5C" "\<not> byte c < 32" "rune_size s = 0"
      | (rune) "c \<noteq> CHR 0x22" "c \<noteq> CHR 0x5C" "\<not> byte c < 32" "rune_size s \<noteq> 0"
      | (control) "c \<noteq> CHR 0x22" "c \<noteq> CHR 0x5C" "byte c < 32" by blast
    then show ?thesis
    proof cases
      case quote
      then show ?thesis using 1(4) Cons by (simp add: read_string_Cons)
    next
      case escape
      then obtain y v where e: "read_escape u = Some (y, v)"
        using 1(4) Cons by (auto simp: read_string_Cons split: option.splits)
      then obtain z where "read_string v = Some (z, t)"
        using 1(4) Cons escape by (auto simp: read_string_Cons prepend_Some)
      then have "length t < length v" using 1(1) [OF Cons] escape e by blast
      with read_escape_shorter [OF e] show ?thesis by (simp add: Cons)
    next
      case bad
      then obtain z where "read_string u = Some (z, t)"
        using 1(4) Cons by (auto simp: read_string_Cons prepend_Some)
      then show ?thesis using 1(2) [OF Cons] bad Cons by fastforce
    next
      case rune
      then obtain z where "read_string (drop (rune_size s) s) = Some (z, t)"
        using 1(4) Cons by (auto simp: read_string_Cons prepend_Some)
      then have "length t < length (drop (rune_size s) s)"
        using 1(3) [OF Cons] rune by blast
      then show ?thesis by simp
    next
      case control
      then show ?thesis using 1(4) Cons by (simp add: read_string_Cons)
    qed
  qed
qed

lemma read_digits_shorter: "read_digits s = Some (x, t) \<Longrightarrow> length t < length s"
proof -
  assume r: "read_digits s = Some (x, t)"
  then have "takeWhile is_digit s \<noteq> []" "t = dropWhile is_digit s"
    by (auto simp: read_digits_def split: if_splits)
  moreover have "length (takeWhile is_digit s) + length (dropWhile is_digit s) = length s"
    by (metis length_append takeWhile_dropWhile_id)
  ultimately show ?thesis by (metis add_eq_self_zero add_lessD1 length_greater_0_conv less_add_same_cancel2)
qed

lemma read_int_shorter: "read_int s = Some (x, t) \<Longrightarrow> length t < length s"
  by (auto simp: read_int_def split: list.splits if_splits dest: read_digits_shorter)

lemma read_frac_le: "read_frac s = Some (x, t) \<Longrightarrow> length t \<le> length s"
  by (auto simp: read_frac_def prepend_Some split: list.splits if_splits dest: read_digits_shorter)

lemma read_sign_le: "length (snd (read_sign s cs)) \<le> length s"
  by (simp add: read_sign_def split: list.splits)

lemma read_exp_le: "read_exp s = Some (x, t) \<Longrightarrow> length t \<le> length s"
proof (cases s)
  case (Cons c u)
  assume r: "read_exp s = Some (x, t)"
  show ?thesis
  proof (cases "c = CHR ''e'' \<or> c = CHR ''E''")
    case True
    then obtain z where "read_digits (snd (read_sign u ''+-'')) = Some (z, t)"
      using r by (auto simp: read_exp_def Cons prepend_Some split: prod.splits)
    with read_digits_shorter read_sign_le [of u "''+-''"] show ?thesis by (fastforce simp: Cons)
  next
    case False
    with r show ?thesis by (simp add: read_exp_def Cons)
  qed
qed (simp add: read_exp_def)

lemma read_number_shorter: "read_number s = Some (x, t) \<Longrightarrow> length t < length s"
proof -
  assume r: "read_number s = Some (x, t)"
  obtain sg s1 where s1: "read_sign s ''-'' = (sg, s1)" by fastforce
  obtain i s2 where s2: "read_int s1 = Some (i, s2)"
    using r by (auto simp: read_number_def s1 split: option.splits)
  obtain f s3 where s3: "read_frac s2 = Some (f, s3)"
    using r by (auto simp: read_number_def s1 s2 split: option.splits)
  obtain e where s4: "read_exp s3 = Some (e, t)"
    using r by (auto simp: read_number_def s1 s2 s3 prepend_Some)
  show ?thesis
    using read_sign_le [of s "''-''"] read_int_shorter [OF s2] read_frac_le [OF s3] read_exp_le [OF s4]
    by (simp add: s1)
qed

lemma read_literal_shorter: "read_literal s = Some (x, t) \<Longrightarrow> length t < length s"
  by (auto simp: read_literal_def dest: read_number_shorter has_prefix_length split: if_splits)

lemma read_key_shorter: "read_key s = Some (k, t) \<Longrightarrow> length t < length s"
proof -
  assume r: "read_key s = Some (k, t)"
  obtain u where u: "skip_space s = CHR 0x22 # u"
    using r by (auto simp: read_key_def split: list.splits if_splits)
  obtain v where v: "read_string u = Some (k, v)" "skip_space v = CHR '':'' # t"
    using r by (auto simp: read_key_def u split: option.splits list.splits if_splits)
  show ?thesis
    using skip_space_le [of s] skip_space_le [of v] read_string_shorter [OF v(1)] u v(2) by simp
qed

lemma read_shorter:
  "read_value n d s = Some (x, t) \<Longrightarrow> length t < length s"
  "read_elems n d s = Some (xs, t) \<Longrightarrow> length t < length s"
  "read_members n d s = Some (ms, t) \<Longrightarrow> length t < length s"
proof (induction n d s and n d s and n d s arbitrary: x t and xs t and ms t
    rule: read_value_read_elems_read_members.induct)
  case (2 n d s)
  show ?case
  proof (cases "skip_space s")
    case (Cons c u)
    have u: "length u < length s" using skip_space_le [of s] by (simp add: Cons)
    from 2(3) consider (close) c' where "close_with c' u = Some t"
      | (members) ms where "c = CHR ''{''" "d \<noteq> 0" "close_with (CHR ''}'') u = None"
          "read_members n (d - 1) u = Some (ms, t)"
      | (elems) xs where "c = CHR ''[''" "d \<noteq> 0" "close_with (CHR '']'') u = None"
          "read_elems n (d - 1) u = Some (xs, t)"
      | (str) z where "read_string u = Some (z, t)" | (lit) z where "read_literal (c # u) = Some (z, t)"
      by (auto simp: Cons split: if_splits option.splits)
    then show ?thesis
    proof cases
      case close then show ?thesis using u close_with_shorter by fastforce
    next
      case members
      then show ?thesis using 2(1) [OF Cons members(1-3)] u by fastforce
    next
      case elems
      then show ?thesis using 2(2) [OF Cons _ elems(1-3)] u by fastforce
    next
      case str then show ?thesis using u read_string_shorter by fastforce
    next
      case lit then show ?thesis using skip_space_le [of s] read_literal_shorter Cons by fastforce
    qed
  qed (use 2(3) in simp)
next
  case (4 n d s)
  then obtain y u where y: "read_value n d s = Some (y, u)" by (auto split: option.splits)
  with 4(1) have u: "length u < length s" by blast
  show ?case
  proof (cases "close_with (CHR '']'') u")
    case (Some v)
    then show ?thesis using 4(3) y u close_with_shorter by fastforce
  next
    case None
    then obtain v ys where v: "close_with (CHR '','') u = Some v" "read_elems n d v = Some (ys, t)"
      using 4(3) y by (auto simp: prepend_Some split: option.splits)
    then show ?thesis using 4(2) [OF y refl None v(1)] u close_with_shorter [OF v(1)] by fastforce
  qed
next
  case (6 n d s)
  then obtain k s1 where k: "read_key s = Some (k, s1)" by (auto split: option.splits)
  then obtain y u where y: "read_value n d s1 = Some (y, u)" using 6(3) by (auto split: option.splits)
  have u: "length u < length s" using 6(1) [OF k refl] y read_key_shorter [OF k] by fastforce
  show ?case
  proof (cases "close_with (CHR ''}'') u")
    case (Some v)
    then show ?thesis using 6(3) k y u close_with_shorter by fastforce
  next
    case None
    then obtain v ys where v: "close_with (CHR '','') u = Some v" "read_members n d v = Some (ys, t)"
      using 6(3) k y by (auto simp: prepend_Some split: option.splits)
    then show ?thesis using 6(2) [OF k refl y refl None v(1)] u close_with_shorter [OF v(1)] by fastforce
  qed
qed simp_all

text \<open>More fuel than twice the input's length changes nothing.\<close>

lemma read_fuel:
  "2 * length s < n \<Longrightarrow> 2 * length s < m \<Longrightarrow> read_value n d s = read_value m d s"
  "2 * length s + 1 < n \<Longrightarrow> 2 * length s + 1 < m \<Longrightarrow> read_elems n d s = read_elems m d s"
  "2 * length s + 1 < n \<Longrightarrow> 2 * length s + 1 < m \<Longrightarrow> read_members n d s = read_members m d s"
proof (induction n d s and n d s and n d s arbitrary: m and m and m
    rule: read_value_read_elems_read_members.induct)
  case (2 n d s)
  from 2(4) obtain m' where m: "m = Suc m'" by (cases m) auto
  show ?case
  proof (cases "skip_space s")
    case (Cons c u)
    have u: "length u < length s" using skip_space_le [of s] by (simp add: Cons)
    have "read_members n (d - 1) u = read_members m' (d - 1) u"
      if "c = CHR ''{''" "d \<noteq> 0" "close_with (CHR ''}'') u = None"
      by (rule 2(1) [OF Cons that]) (use 2(3,4) u in \<open>simp_all add: m\<close>)
    moreover have "read_elems n (d - 1) u = read_elems m' (d - 1) u"
      if "c = CHR ''[''" "d \<noteq> 0" "close_with (CHR '']'') u = None"
      by (rule 2(2) [OF Cons _ that]) (use 2(3,4) u that(1) in \<open>simp_all add: m\<close>)
    ultimately show ?thesis by (simp add: m Cons split: option.split)
  qed (simp add: m)
next
  case (4 n d s)
  from 4(4) obtain m' where m: "m = Suc m'" by (cases m) auto
  have v: "read_value n d s = read_value m' d s" by (rule 4(1)) (use 4(3,4) in \<open>simp_all add: m\<close>)
  show ?case
  proof (cases "read_value n d s")
    case (Some p)
    obtain y u where p: "p = (y, u)" by fastforce
    have "read_elems n d w = read_elems m' d w"
      if "close_with (CHR '']'') u = None" "close_with (CHR '','') u = Some w" for w
      using 4(2) [OF Some p [symmetric] that] 4(3,4) read_shorter(1) [OF Some [unfolded p]] close_with_shorter [OF that(2)]
      by (simp add: m)
    then show ?thesis using Some p v [symmetric] by (simp add: m split: option.split)
  qed (simp add: m v [symmetric])
next
  case (6 n d s)
  from 6(4) obtain m' where m: "m = Suc m'" by (cases m) auto
  show ?case
  proof (cases "read_key s")
    case (Some q)
    obtain k s1 where q: "q = (k, s1)" by fastforce
    have k: "length s1 < length s" using Some q read_key_shorter by blast
    have v: "read_value n d s1 = read_value m' d s1" by (rule 6(1) [OF Some q [symmetric]]) (use 6(3,4) k in \<open>simp_all add: m\<close>)
    show ?thesis
    proof (cases "read_value n d s1")
      case R: (Some p)
      obtain y u where p: "p = (y, u)" by fastforce
      have "read_members n d w = read_members m' d w"
        if "close_with (CHR ''}'') u = None" "close_with (CHR '','') u = Some w" for w
        using 6(2) [OF Some q [symmetric] R p [symmetric] that] 6(3,4) k read_shorter(1) [OF R [unfolded p]]
          close_with_shorter [OF that(2)] by (simp add: m)
      then show ?thesis using Some q R p v [symmetric] by (simp add: m split: option.split)
    qed (simp add: m Some q v [symmetric])
  qed (simp add: m)
qed simp_all

end
