(* ===== verification/JsonDecode.thy ===== *)
theory JsonDecode
  imports Json "HOL-Library.AList"
begin

text \<open>
  Decoding a value into a Go variable (\<open>json.Unmarshal\<close>): the variable's old value goes in, and
  \<open>None\<close> stands for the error of a value that does not fit the type.  A null leaves scalars and
  structs as they are.  The fields of a struct are a list of their names and setters; a member
  goes to the field of its exact name, else to the first of the same name up to case, and
  unknown members are skipped.  Members are decoded in order, so a repeated one overrides.
\<close>

section \<open>Scalars\<close>

definition decode_string :: "json \<Rightarrow> string \<Rightarrow> string option" where
  "decode_string v old = (case v of JNull \<Rightarrow> Some old | JString x \<Rightarrow> Some x | _ \<Rightarrow> None)"

definition decode_bool :: "json \<Rightarrow> bool \<Rightarrow> bool option" where
  "decode_bool v old = (case v of JNull \<Rightarrow> Some old | JBool b \<Rightarrow> Some b | _ \<Rightarrow> None)"

definition decode_int64 :: "json \<Rightarrow> int \<Rightarrow> int option" where
  "decode_int64 v old = (case v of JNull \<Rightarrow> Some old | JNumber x \<Rightarrow> atoi x | _ \<Rightarrow> None)"

definition decode_uint :: "nat \<Rightarrow> json \<Rightarrow> nat \<Rightarrow> nat option" where
  \<comment> \<open>an unsigned integer of the given width\<close>
  "decode_uint w v old =
     (case v of
        JNull \<Rightarrow> Some old
      | JNumber x \<Rightarrow> (case parse_uint x of None \<Rightarrow> None | Some n \<Rightarrow> if n < 2 ^ w then Some n else None)
      | _ \<Rightarrow> None)"

text \<open>
  A float64: the exact value of the literal, rounded to 53 bits, or to a multiple of
  \<open>2 ^ -1074\<close> when it is smaller; the literal is rejected when the result is infinite.
\<close>

definition literal_exponent :: "string \<Rightarrow> int" where
  "literal_exponent s =
     (case dropWhile (\<lambda>c. c \<noteq> CHR ''e'' \<and> c \<noteq> CHR ''E'') s of
        [] \<Rightarrow> 0
      | _ # t \<Rightarrow> (case read_sign t ''+-'' of (sg, ds) \<Rightarrow>
                    if sg = ''-'' then - int (digits_value ds) else int (digits_value ds)))"

definition literal_fraction :: "string \<Rightarrow> string" where
  "literal_fraction s =
     (case dropWhile (\<lambda>c. is_digit c \<or> c = CHR ''-'') s of
        [] \<Rightarrow> []
      | c # t \<Rightarrow> if c = CHR ''.'' then takeWhile is_digit t else [])"

definition literal_value :: "string \<Rightarrow> rat" where
  "literal_value s =
     (let f = literal_fraction s;
          i = takeWhile is_digit (snd (read_sign s ''-''))
      in (if has_prefix s ''-'' then -1 else 1) * of_nat (digits_value (i @ f)) *
         pow10 (literal_exponent s - int (length f)))"

definition round_float :: "rat \<Rightarrow> rat" where
  "round_float x =
     sgn x * f64_at \<bar>x\<bar> (max (-1074) (exponent_fix \<bar>x\<bar> (exponent_guess (quotient_of \<bar>x\<bar>))))"

definition finite_float :: "rat \<Rightarrow> rat option" where
  \<comment> \<open>below \<open>2 ^ 1024\<close>\<close>
  "finite_float y = (if bitlen \<lfloor>\<bar>y\<bar>\<rfloor> \<le> 1024 then Some y else None)"

definition parse_float :: "string \<Rightarrow> rat option" where
  \<comment> \<open>\<open>strconv.ParseFloat(s, 64)\<close> on a number of the grammar\<close>
  "parse_float s = finite_float (round_float (literal_value s))"

definition decode_float :: "json \<Rightarrow> rat \<Rightarrow> rat option" where
  "decode_float v old = (case v of JNull \<Rightarrow> Some old | JNumber x \<Rightarrow> parse_float x | _ \<Rightarrow> None)"

section \<open>Pointers, slices, maps and structs\<close>

definition decode_pointer :: "(json \<Rightarrow> 'a \<Rightarrow> 'a option) \<Rightarrow> 'a \<Rightarrow> json \<Rightarrow> 'a option \<Rightarrow> 'a option option" where
  \<comment> \<open>a null makes it nil, any other value goes to the target, a new zero one if it was nil\<close>
  "decode_pointer dec zero v old =
     (if v = JNull then Some None
      else map_option Some (dec v (case old of None \<Rightarrow> zero | Some x \<Rightarrow> x)))"

text \<open>
  An array is decoded over the elements the slice's memory already holds, also those past its
  length: the slice is its length and that memory, zero where the list ends.
\<close>

fun decode_elems :: "(json \<Rightarrow> 'a \<Rightarrow> 'a option) \<Rightarrow> 'a \<Rightarrow> json list \<Rightarrow> 'a list \<Rightarrow> 'a list option" where
  "decode_elems dec zero [] old = Some old"
| "decode_elems dec zero (v # vs) old =
     (case dec v (case old of [] \<Rightarrow> zero | y # _ \<Rightarrow> y) of
        None \<Rightarrow> None
      | Some x \<Rightarrow> map_option ((#) x) (decode_elems dec zero vs (tl old)))"

definition decode_slice ::
  "(json \<Rightarrow> 'a \<Rightarrow> 'a option) \<Rightarrow> 'a \<Rightarrow> json \<Rightarrow> nat \<times> 'a list \<Rightarrow> (nat \<times> 'a list) option" where
  "decode_slice dec zero v old =
     (case v of
        JNull \<Rightarrow> Some (0, [])
      | JArray vs \<Rightarrow> if vs = [] then Some (0, [])
                     else map_option (Pair (length vs)) (decode_elems dec zero vs (snd old))
      | _ \<Rightarrow> None)"

fun decode_entries ::
  "(json \<Rightarrow> 'a \<Rightarrow> 'a option) \<Rightarrow> 'a \<Rightarrow> (string \<times> json) list \<Rightarrow> (string \<times> 'a) list \<Rightarrow> (string \<times> 'a) list option" where
  "decode_entries dec zero [] m = Some m"
| "decode_entries dec zero ((k, v) # ms) m =
     (case dec v zero of None \<Rightarrow> None | Some x \<Rightarrow> decode_entries dec zero ms (AList.update k x m))"

definition decode_map ::
  "(json \<Rightarrow> 'a \<Rightarrow> 'a option) \<Rightarrow> 'a \<Rightarrow> json \<Rightarrow> (string \<times> 'a) list \<Rightarrow> (string \<times> 'a) list option" where
  "decode_map dec zero v old =
     (case v of JNull \<Rightarrow> Some [] | JObject ms \<Rightarrow> decode_entries dec zero ms old | _ \<Rightarrow> None)"

text \<open>
  Names up to case: the only runes outside ASCII that fold to an ASCII letter are the Kelvin
  sign and the long s.
\<close>

fun fold_name :: "string \<Rightarrow> string" where
  "fold_name [] = []"
| "fold_name (c # s) =
     (if c = CHR 0xE2 \<and> take 2 s = [CHR 0x84, CHR 0xAA] then CHR ''K'' # fold_name (drop 2 s)
      else if c = CHR 0xC5 \<and> take 1 s = [CHR 0xBF] then CHR ''S'' # fold_name (drop 1 s)
      else upper_char c # fold_name s)"

type_synonym 'r fields = "(string \<times> (json \<Rightarrow> 'r \<Rightarrow> 'r option)) list"

definition field ::
  "string \<Rightarrow> ('r \<Rightarrow> 'a) \<Rightarrow> (('a \<Rightarrow> 'a) \<Rightarrow> 'r \<Rightarrow> 'r) \<Rightarrow> (json \<Rightarrow> 'a \<Rightarrow> 'a option) \<Rightarrow>
   string \<times> (json \<Rightarrow> 'r \<Rightarrow> 'r option)" where
  "field name get upd dec = (name, \<lambda>v r. map_option (\<lambda>x. upd (\<lambda>_. x) r) (dec v (get r)))"

definition find_field :: "'r fields \<Rightarrow> string \<Rightarrow> (json \<Rightarrow> 'r \<Rightarrow> 'r option) option" where
  "find_field fs name =
     (case map_of fs name of
        Some f \<Rightarrow> Some f
      | None \<Rightarrow> map_option snd (find (\<lambda>p. fold_name (fst p) = fold_name name) fs))"

fun decode_members :: "'r fields \<Rightarrow> (string \<times> json) list \<Rightarrow> 'r \<Rightarrow> 'r option" where
  "decode_members fs [] r = Some r"
| "decode_members fs ((k, v) # ms) r =
     (case (case find_field fs k of None \<Rightarrow> Some r | Some f \<Rightarrow> f v r) of
        None \<Rightarrow> None
      | Some r' \<Rightarrow> decode_members fs ms r')"

definition decode_struct :: "'r fields \<Rightarrow> json \<Rightarrow> 'r \<Rightarrow> 'r option" where
  "decode_struct fs v r =
     (case v of JNull \<Rightarrow> Some r | JObject ms \<Rightarrow> decode_members fs ms r | _ \<Rightarrow> None)"

section \<open>Unmarshalling\<close>

text \<open>
  The whole text is checked before anything is decoded.  The error's text, which depends on the
  place of the mistake, is the parameter \<open>err\<close>.
\<close>

definition unmarshal :: "(json \<Rightarrow> 'a \<Rightarrow> 'a option) \<Rightarrow> 'a \<Rightarrow> (string \<Rightarrow> string) \<Rightarrow> string \<Rightarrow> 'a result" where
  "unmarshal dec zero err raw =
     (case json_parse raw of
        None \<Rightarrow> Inl (err raw)
      | Some v \<Rightarrow> (case dec v zero of None \<Rightarrow> Inl (err raw) | Some x \<Rightarrow> Inr x))"

lemma unmarshal_Inr:
  "unmarshal dec zero err raw = Inr x \<longleftrightarrow> (\<exists>v. json_parse raw = Some v \<and> dec v zero = Some x)"
  by (auto simp: unmarshal_def split: option.splits)

definition in_uint :: "nat \<Rightarrow> nat \<Rightarrow> bool" where
  "in_uint w n \<longleftrightarrow> n < 2 ^ w"

definition in_f64 :: "rat \<Rightarrow> bool" where
  "in_f64 x \<longleftrightarrow> \<bar>x\<bar> < 2 ^ 1024"

lemma zero_in_range [simp]: "in_uint w 0" "in_f64 0" "in_i64 0"
  by (simp_all add: in_uint_def in_f64_def in_i64_def)

lemma decode_uint_bound: "decode_uint w v old = Some n \<Longrightarrow> in_uint w old \<Longrightarrow> in_uint w n"
  by (auto simp: decode_uint_def in_uint_def split: json.splits option.splits if_splits)

lemma decode_int64_bound: "decode_int64 v old = Some i \<Longrightarrow> in_i64 old \<Longrightarrow> in_i64 i"
  by (auto simp: decode_int64_def atoi_def Let_def split: json.splits if_splits)

lemma bitlen_bound: "0 \<le> n \<Longrightarrow> n < 2 ^ nat (bitlen n)" "0 \<le> bitlen n"
proof (induction n rule: bitlen.induct)
  case (1 n)
  {
    case 2
    then show ?case using 1(2) by (cases "n \<le> 0") (simp_all add: bitlen.simps [of n])
  next
    case 1
    show ?case
    proof (cases "n = 0")
      case False
      with 1 have "n div 2 < 2 ^ nat (bitlen (n div 2))" "0 \<le> bitlen (n div 2)"
        using "1.IH" by simp_all
      then have "n < 2 * 2 ^ nat (bitlen (n div 2))" "nat (bitlen n) = Suc (nat (bitlen (n div 2)))"
        using False 1 by (simp_all add: bitlen.simps [of n] nat_add_distrib)
      then show ?thesis by simp
    qed (simp add: bitlen.simps [of 0])
  }
qed

lemma finite_float_bound: "finite_float y = Some x \<Longrightarrow> in_f64 x"
proof -
  assume f: "finite_float y = Some x"
  then have b: "bitlen \<lfloor>\<bar>x\<bar>\<rfloor> \<le> 1024" by (auto simp: finite_float_def split: if_splits)
  have "\<lfloor>\<bar>x\<bar>\<rfloor> < 2 ^ nat (bitlen \<lfloor>\<bar>x\<bar>\<rfloor>)" by (rule bitlen_bound) simp
  also have "(2::int) ^ nat (bitlen \<lfloor>\<bar>x\<bar>\<rfloor>) \<le> 2 ^ 1024" using b by (intro power_increasing) auto
  finally have "\<lfloor>\<bar>x\<bar>\<rfloor> < (2 ^ 1024 :: int)" .
  then have "\<bar>x\<bar> < of_int (2 ^ 1024)" by (simp add: floor_less_iff del: of_int_power of_int_numeral)
  then show ?thesis by (simp add: in_f64_def)
qed

lemma decode_float_bound: "decode_float v old = Some x \<Longrightarrow> in_f64 old \<Longrightarrow> in_f64 x"
  by (auto simp: decode_float_def parse_float_def split: json.splits dest: finite_float_bound)

text \<open>An invariant of the variable that every setter keeps is kept by the whole decoding.\<close>

definition keeps :: "('r \<Rightarrow> bool) \<Rightarrow> string \<times> (json \<Rightarrow> 'r \<Rightarrow> 'r option) \<Rightarrow> bool" where
  "keeps I p \<longleftrightarrow> (\<forall>v r r'. I r \<longrightarrow> snd p v r = Some r' \<longrightarrow> I r')"

lemma keeps_field:
  assumes "\<And>r x. I r \<Longrightarrow> Q x \<Longrightarrow> I (upd (\<lambda>_. x) r)" "\<And>v r x. I r \<Longrightarrow> dec v (get r) = Some x \<Longrightarrow> Q x"
  shows "keeps I (field name get upd dec)"
  using assms by (auto simp: keeps_def field_def)

lemma keeps_any:
  assumes "\<And>r x. I r \<Longrightarrow> I (upd (\<lambda>_. x) r)"
  shows "keeps I (field name get upd dec)"
  by (rule keeps_field [where Q = "\<lambda>_. True"]) (use assms in auto)

lemma keeps_uint:
  assumes "\<And>r x. I r \<Longrightarrow> in_uint w x \<Longrightarrow> I (upd (\<lambda>_. x) r)" "\<And>r. I r \<Longrightarrow> in_uint w (get r)"
  shows "keeps I (field name get upd (decode_uint w))"
  by (rule keeps_field [where Q = "in_uint w"]) (use assms decode_uint_bound in blast)+

lemma keeps_int64:
  assumes "\<And>r x. I r \<Longrightarrow> in_i64 x \<Longrightarrow> I (upd (\<lambda>_. x) r)" "\<And>r. I r \<Longrightarrow> in_i64 (get r)"
  shows "keeps I (field name get upd decode_int64)"
  by (rule keeps_field [where Q = in_i64]) (use assms decode_int64_bound in blast)+

lemma keeps_float:
  assumes "\<And>r x. I r \<Longrightarrow> in_f64 x \<Longrightarrow> I (upd (\<lambda>_. x) r)" "\<And>r. I r \<Longrightarrow> in_f64 (get r)"
  shows "keeps I (field name get upd decode_float)"
  by (rule keeps_field [where Q = in_f64]) (use assms decode_float_bound in blast)+

lemma find_Some_in: "find P xs = Some x \<Longrightarrow> x \<in> set xs"
  by (metis find_Some_iff nth_mem)

lemma find_field_keeps: "list_all (keeps I) fs \<Longrightarrow> find_field fs k = Some f \<Longrightarrow> I r \<Longrightarrow> f v r = Some r' \<Longrightarrow> I r'"
  by (fastforce simp: find_field_def keeps_def list_all_iff split: option.splits
      dest: map_of_SomeD find_Some_in)

lemma decode_members_invariant:
  assumes "list_all (keeps I) fs"
  shows "I r \<Longrightarrow> decode_members fs ms r = Some r' \<Longrightarrow> I r'"
proof (induction ms arbitrary: r)
  case (Cons m ms)
  obtain k v where m: "m = (k, v)" by fastforce
  from Cons(3) obtain r1 where r1: "(case find_field fs k of None \<Rightarrow> Some r | Some f \<Rightarrow> f v r) = Some r1"
    "decode_members fs ms r1 = Some r'"
    by (auto simp: m split: option.splits)
  have "I r1"
  proof (cases "find_field fs k")
    case (Some f)
    with r1(1) find_field_keeps [OF assms Some Cons(2)] show ?thesis by simp
  qed (use r1(1) Cons(2) in simp)
  with Cons(1) r1(2) show ?case by blast
qed simp

lemma decode_struct_invariant:
  assumes "list_all (keeps I) fs" "I r" "decode_struct fs v r = Some r'"
  shows "I r'"
  using assms(2,3) decode_members_invariant [OF assms(1)]
  by (auto simp: decode_struct_def split: json.splits)

text \<open>The keys of a decoded map are distinct, whatever the text repeats.\<close>

lemma decode_entries_distinct:
  "distinct (map fst m) \<Longrightarrow> decode_entries dec zero ms m = Some m' \<Longrightarrow> distinct (map fst m')"
  by (induction dec zero ms m rule: decode_entries.induct)
    (auto simp: distinct_update split: option.splits)

lemma decode_map_distinct:
  "distinct (map fst old) \<Longrightarrow> decode_map dec zero v old = Some m \<Longrightarrow> distinct (map fst m)"
  by (auto simp: decode_map_def decode_entries_distinct split: json.splits)

text \<open>Every value of a decoded map was decoded from a zero value.\<close>

lemma decode_entries_values:
  "decode_entries dec zero ms m = Some m' \<Longrightarrow> (k, x) \<in> set m' \<Longrightarrow>
   (k, x) \<in> set m \<or> (\<exists>v. dec v zero = Some x)"
proof (induction dec zero ms m rule: decode_entries.induct)
  case (2 dec zero k' v ms m)
  then obtain y where y: "dec v zero = Some y"
    "decode_entries dec zero ms (AList.update k' y m) = Some m'"
    by (auto split: option.splits)
  from 2(1) [OF y(1,2) 2(3)] have "(k, x) \<in> set (AList.update k' y m) \<or> (\<exists>v. dec v zero = Some x)" .
  moreover have "set (AList.update k' y m) \<subseteq> insert (k', y) (set m)"
    by (induction m) auto
  ultimately show ?case using y(1) by auto
qed simp

end
