(* ===== verification/Report.thy ===== *)
theory Report
  imports LLMFit JsonDecode
begin

text \<open>
  The capability report as its JSON is decoded (\<open>internal/llmfit/llmfit.go\<close>): the fields of a
  GPU and of the system, in the object the report is wrapped in.  While the report is decoded
  its GPUs are a slice, whose memory outlives its length.
\<close>

definition zero_gpu :: gpu where
  "zero_gpu = \<lparr>gName = [], VRAMGB = None, gBackend = [], gCount = 0, gUnifiedMemory = False,
     MemoryBandwidthGBps = None\<rparr>"

definition gpu_fields :: "gpu fields" where
  "gpu_fields =
     [field ''name'' gName gName_update decode_string,
      field ''vram_gb'' VRAMGB VRAMGB_update (decode_pointer decode_float 0),
      field ''backend'' gBackend gBackend_update decode_string,
      field ''count'' gCount gCount_update (decode_uint 32),
      field ''unified_memory'' gUnifiedMemory gUnifiedMemory_update decode_bool,
      field ''memory_bandwidth_gbps'' MemoryBandwidthGBps MemoryBandwidthGBps_update
        (decode_pointer decode_float 0)]"

record report =
  rSystem :: system
  rGPUs :: "nat \<times> gpu list"

definition zero_report :: report where
  "zero_report =
     \<lparr>rSystem = \<lparr>TotalRAMGB = 0, CPUCores = 0, CPUName = [], HasGPU = False, sUnifiedMemory = False,
        sBackend = [], GPUs = []\<rparr>, rGPUs = (0, [])\<rparr>"

definition in_system :: "('a \<Rightarrow> 'a) \<Rightarrow> (('a \<Rightarrow> 'a) \<Rightarrow> system \<Rightarrow> system) \<Rightarrow> report \<Rightarrow> report" where
  "in_system f upd r = r\<lparr>rSystem := upd f (rSystem r)\<rparr>"

definition system_field ::
  "string \<Rightarrow> (system \<Rightarrow> 'a) \<Rightarrow> (('a \<Rightarrow> 'a) \<Rightarrow> system \<Rightarrow> system) \<Rightarrow> (json \<Rightarrow> 'a \<Rightarrow> 'a option) \<Rightarrow>
   string \<times> (json \<Rightarrow> report \<Rightarrow> report option)" where
  "system_field name get upd dec =
     field name (\<lambda>r. get (rSystem r)) (\<lambda>f. in_system f upd) dec"

definition system_fields :: "report fields" where
  "system_fields =
     [system_field ''total_ram_gb'' TotalRAMGB TotalRAMGB_update decode_float,
      system_field ''cpu_cores'' CPUCores CPUCores_update decode_int64,
      system_field ''cpu_name'' CPUName CPUName_update decode_string,
      system_field ''has_gpu'' HasGPU HasGPU_update decode_bool,
      system_field ''unified_memory'' sUnifiedMemory sUnifiedMemory_update decode_bool,
      system_field ''backend'' sBackend sBackend_update decode_string,
      field ''gpus'' rGPUs rGPUs_update (decode_slice (decode_struct gpu_fields) zero_gpu)]"

definition output_fields :: "report fields" where
  \<comment> \<open>the wrapper's only field\<close>
  "output_fields = [(''system'', decode_struct system_fields)]"

definition system_of_report :: "report \<Rightarrow> system" where
  "system_of_report r = (rSystem r)\<lparr>GPUs := take (fst (rGPUs r)) (snd (rGPUs r))\<rparr>"

definition decode_system :: "(string \<Rightarrow> string) \<Rightarrow> string \<Rightarrow> system result" where
  "decode_system err raw =
     (case unmarshal (decode_struct output_fields) zero_report err raw of
        Inl e \<Rightarrow> Inl e | Inr r \<Rightarrow> Inr (system_of_report r))"

section \<open>The range of a report\<close>

definition gpu_in_range :: "gpu \<Rightarrow> bool" where
  "gpu_in_range g \<longleftrightarrow> in_uint 32 (gCount g) \<and> pred_option in_f64 (VRAMGB g) \<and>
     pred_option in_f64 (MemoryBandwidthGBps g)"

definition report_in_range :: "report \<Rightarrow> bool" where
  "report_in_range r \<longleftrightarrow> in_f64 (TotalRAMGB (rSystem r)) \<and> in_i64 (CPUCores (rSystem r)) \<and>
     fst (rGPUs r) \<le> length (snd (rGPUs r)) \<and> list_all gpu_in_range (snd (rGPUs r))"

definition system_in_range :: "system \<Rightarrow> bool" where
  "system_in_range s \<longleftrightarrow> in_f64 (TotalRAMGB s) \<and> in_i64 (CPUCores s) \<and> list_all gpu_in_range (GPUs s)"

lemma decode_pointer_bound:
  assumes "decode_pointer decode_float 0 v old = Some x" "pred_option in_f64 old"
  shows "pred_option in_f64 x"
  using assms decode_float_bound
  by (auto simp: decode_pointer_def split: if_splits option.splits)

lemma gpu_fields_in_range: "list_all (keeps gpu_in_range) gpu_fields"
  unfolding gpu_fields_def list.pred_inject gpu_in_range_def
  by (intro conjI TrueI keeps_uint keeps_field [where Q = "pred_option in_f64"] keeps_any)
    (simp_all add: decode_pointer_bound)

lemma decode_elems_range:
  assumes "\<And>v x y. I x \<Longrightarrow> dec v x = Some y \<Longrightarrow> I y" "I zero"
  shows "list_all I old \<Longrightarrow> decode_elems dec zero vs old = Some new \<Longrightarrow>
    list_all I new \<and> length vs \<le> length new"
proof (induction vs arbitrary: old new)
  case (Cons v vs)
  let ?y = "case old of [] \<Rightarrow> zero | y # _ \<Rightarrow> y"
  obtain x rest where x: "dec v ?y = Some x" "decode_elems dec zero vs (tl old) = Some rest" "new = x # rest"
    using Cons(3) by (auto split: option.splits)
  have "I ?y" "list_all I (tl old)" using Cons(2) assms(2) by (cases old; simp)+
  with Cons(1) [OF _ x(2)] assms(1) [OF _ x(1)] show ?case by (simp add: x(3))
qed simp

lemma decode_gpus_range:
  assumes "decode_slice (decode_struct gpu_fields) zero_gpu v old = Some (n, gs)"
    and "list_all gpu_in_range (snd old)"
  shows "n \<le> length gs \<and> list_all gpu_in_range gs"
proof -
  have zero: "gpu_in_range zero_gpu" by (simp add: gpu_in_range_def zero_gpu_def)
  note step = decode_struct_invariant [OF gpu_fields_in_range]
  from assms(1) consider "n = 0" "gs = []"
    | vs where "decode_elems (decode_struct gpu_fields) zero_gpu vs (snd old) = Some gs" "n = length vs"
    by (auto simp: decode_slice_def split: json.splits if_splits)
  then show ?thesis
  proof cases
    case 2
    with decode_elems_range [OF step zero assms(2) 2(1)] show ?thesis by simp
  qed simp
qed

lemma system_fields_in_range: "list_all (keeps report_in_range) system_fields"
proof -
  have gpus: "keeps report_in_range
      (field ''gpus'' rGPUs rGPUs_update (decode_slice (decode_struct gpu_fields) zero_gpu))"
    by (rule keeps_field [where Q = "\<lambda>p. fst p \<le> length (snd p) \<and> list_all gpu_in_range (snd p)"])
      (use decode_gpus_range in \<open>fastforce simp: report_in_range_def\<close>)+
  show ?thesis
    unfolding system_fields_def list.pred_inject system_field_def
    by (intro conjI TrueI keeps_float keeps_int64 keeps_any gpus)
      (simp_all add: report_in_range_def in_system_def)
qed

lemma output_fields_in_range: "list_all (keeps report_in_range) output_fields"
  using decode_struct_invariant [OF system_fields_in_range]
  by (auto simp: output_fields_def keeps_def)

text \<open>
  C35: a report that parses fits the Go types: every memory size and bandwidth is a finite
  float64 and every GPU count a uint32, whatever members the JSON repeats or leaves out, and it
  names a CPU or a GPU.
\<close>

theorem parsed_report_in_range:
  assumes "Parse (decode_system err) raw = Inr s"
  shows "system_in_range s \<and> (CPUName s \<noteq> [] \<or> GPUs s \<noteq> [])"
proof -
  obtain t where t: "decode_system err raw = Inr t" "s = t" "CPUName s \<noteq> [] \<or> GPUs s \<noteq> []"
    using assms by (cases "decode_system err raw") (simp_all add: Parse_def split: if_split_asm)
  then obtain r where u: "unmarshal (decode_struct output_fields) zero_report err raw = Inr r"
    and s: "s = system_of_report r"
    by (cases "unmarshal (decode_struct output_fields) zero_report err raw") (simp_all add: decode_system_def)
  then obtain v where r: "decode_struct output_fields v zero_report = Some r"
    by (auto simp: unmarshal_Inr)
  have "report_in_range zero_report" by (simp add: report_in_range_def zero_report_def)
  then have "report_in_range r" using r by (rule decode_struct_invariant [OF output_fields_in_range])
  then have "system_in_range s"
    by (auto simp: s report_in_range_def system_in_range_def system_of_report_def list_all_iff
        dest: in_set_takeD)
  with t(3) show ?thesis by simp
qed

definition sample_report :: string where
  "sample_report = ''{\"system\":{\"total_ram_gb\":62.5,\"cpu_cores\":16,\"cpu_name\":\"Ryzen\",
    \"gpus\":[{\"name\":\"Radeon\",\"vram_gb\":96,\"count\":1,\"memory_bandwidth_gbps\":null}]}}''"

lemma parse_sample_report:
  "case Parse (decode_system (\<lambda>_. ''bad'')) sample_report of
     Inl _ \<Rightarrow> False
   | Inr s \<Rightarrow> map VRAMGB (GPUs s) = [Some 96] \<and> TotalRAMGB s = 125 / 2 \<and> CPUCores s = 16"
  by code_simp

theorem parsed_report_in_range_witness:
  "\<exists>s. Parse (decode_system (\<lambda>_. ''bad'')) sample_report = Inr s \<and> map VRAMGB (GPUs s) = [Some 96] \<and>
     system_in_range s"
proof -
  obtain s where s: "Parse (decode_system (\<lambda>_. ''bad'')) sample_report = Inr s"
    "map VRAMGB (GPUs s) = [Some 96]"
    using parse_sample_report
    by (cases "Parse (decode_system (\<lambda>_. ''bad'')) sample_report") simp_all
  show ?thesis
    by (intro exI [of _ s] conjI s parsed_report_in_range [OF s(1), THEN conjunct1])
qed

end
