(* ===== verification/Probe.thy ===== *)
theory Probe
  imports GoStrings "HOL-Library.Product_Lexorder"
begin

text \<open>
  The device-tree walk (\<open>pkg/probe/probe.go\<close>): the kinds, the device record with its health
  and name, the readers of single sysfs files, the walks of the drm, accel and infiniband
  classes, and \<open>Walk\<close>.  The host's file system is the parameter \<open>fs\<close>: what reading a file,
  listing a directory (sorted by name, as \<open>os.ReadDir\<close> documents), reading a link, resolving
  symbolic links and \<open>stat\<close> return.  Paths are joined by a slash: the roots are clean and
  the other components are single names.
\<close>

section \<open>Kinds and devices\<close>

datatype kind = KindGPU | KindNPU | KindCPU | KindNIC

fun kind_name :: "kind \<Rightarrow> string" where
  "kind_name KindGPU = ''gpu''"
| "kind_name KindNPU = ''npu''"
| "kind_name KindCPU = ''cpu''"
| "kind_name KindNIC = ''nic''"

lemma kind_name_inject [simp]: "kind_name k = kind_name k' \<longleftrightarrow> k = k'"
  by (cases k; cases k') simp_all

lemma length_kind_name [simp]: "length (kind_name k) = 3"
  by (cases k) simp_all

text \<open>Kinds compare as the strings they are.\<close>

instantiation kind :: linorder
begin

definition less_eq_kind :: "kind \<Rightarrow> kind \<Rightarrow> bool" where
  "less_eq_kind k k' \<longleftrightarrow> kind_name k \<le> kind_name k'"

definition less_kind :: "kind \<Rightarrow> kind \<Rightarrow> bool" where
  "less_kind k k' \<longleftrightarrow> kind_name k < kind_name k'"

instance
proof
  fix x y z :: kind
  show "x < y \<longleftrightarrow> x \<le> y \<and> \<not> y \<le> x" by (simp only: less_eq_kind_def less_kind_def less_le_not_le)
  show "x \<le> x" by (simp add: less_eq_kind_def)
  show "x \<le> y \<Longrightarrow> y \<le> z \<Longrightarrow> x \<le> z" by (simp add: less_eq_kind_def)
  show "x \<le> y \<Longrightarrow> y \<le> x \<Longrightarrow> x = y" by (simp add: less_eq_kind_def)
  show "x \<le> y \<or> y \<le> x" by (auto simp: less_eq_kind_def)
qed

end

record probe_device =
  dKind :: kind
  dIndex :: nat
  PCIVendor :: string
  PCIDevice :: string
  PCIAddr :: string
  PCIeRoot :: string
  dDriver :: string
  VRAMBytes :: nat
  DevNode :: string
  RenderNode :: string
  CPUModel :: string
  SystemRAMBytes :: nat
  RASUncorrectable :: nat
  UniqueID :: string
  IBLinkLayer :: string
  IBRateGbps :: nat
  IBPortActive :: bool
  NetDev :: string

definition blank_device :: "kind \<Rightarrow> nat \<Rightarrow> probe_device" where
  "blank_device k i =
     \<lparr>dKind = k, dIndex = i, PCIVendor = [], PCIDevice = [], PCIAddr = [], PCIeRoot = [],
      dDriver = [], VRAMBytes = 0, DevNode = [], RenderNode = [], CPUModel = [],
      SystemRAMBytes = 0, RASUncorrectable = 0, UniqueID = [], IBLinkLayer = [],
      IBRateGbps = 0, IBPortActive = False, NetDev = []\<rparr>"

definition Healthy :: "probe_device \<Rightarrow> bool \<times> string" where
  "Healthy d =
     (if dKind d = KindCPU then (True, [])
      else if dDriver d = [] then (False, ''driverUnbound'')
      else if RASUncorrectable d > 0 then (False, ''uncorrectableEcc'')
      else if dKind d = KindNIC \<and> \<not> IBPortActive d then (False, ''portDown'')
      else if dKind d = KindNIC \<and> DevNode d = [] then (False, ''noUverbsNode'')
      else (True, []))"

definition dashed :: "string \<Rightarrow> string" where
  "dashed s = map (\<lambda>c. if c = CHR '':'' \<or> c = CHR ''.'' then CHR ''-'' else c) s"

definition Name :: "probe_device \<Rightarrow> string" where
  "Name d =
     (if PCIAddr d \<noteq> [] then kind_name (dKind d) @ ''-'' @ dashed (PCIAddr d)
      else kind_name (dKind d) @ show_nat (dIndex d))"

section \<open>The file system and paths\<close>

datatype dir_listing = DirMissing | DirError string | DirEntries "string list"

record fs =
  fsFile :: "string \<Rightarrow> string result"
  fsDir :: "string \<Rightarrow> dir_listing"
  fsLink :: "string \<Rightarrow> string option"
  fsReal :: "string \<Rightarrow> string option"
  fsStat :: "string \<Rightarrow> bool"

text \<open>The roots of a prober, which default to those of the host.\<close>

definition NewProber :: "string \<Rightarrow> string \<Rightarrow> string \<times> string" where
  "NewProber sysRoot procRoot =
     (if sysRoot = [] then ''/sys'' else sysRoot, if procRoot = [] then ''/proc'' else procRoot)"

definition path :: "string list \<Rightarrow> string" where
  "path parts = join_with ''/'' parts"

definition path_base :: "string \<Rightarrow> string" where
  \<comment> \<open>\<open>filepath.Base\<close>\<close>
  "path_base s =
     (if s = [] then ''.''
      else if list_all (\<lambda>c. c = CHR ''/'') s then ''/''
      else last (split_on (CHR ''/'') (rev (dropWhile (\<lambda>c. c = CHR ''/'') (rev s)))))"

function fields_from :: "string \<Rightarrow> string \<Rightarrow> string list" where
  \<comment> \<open>\<open>strings.Fields\<close>, with the bytes of the current field\<close>
  "fields_from cur [] = (if cur = [] then [] else [cur])"
| "fields_from cur (c # s) =
     (if leading_rune space_runes (c # s) = 0 then fields_from (cur @ [c]) s
      else (if cur = [] then [] else [cur]) @
           fields_from [] (drop (leading_rune space_runes (c # s)) (c # s)))"
  by pat_completeness auto
termination
proof (relation "measure (\<lambda>(cur, s). length s)", goal_cases)
  case (3 cur c s)
  with leading_rune_le [of space_runes "c # s"] show ?case by auto
qed auto

definition fields :: "string \<Rightarrow> string list" where
  "fields s = fields_from [] s"

text \<open>The lines a \<open>bufio.Scanner\<close> yields: it stops at a line that does not fit its buffer.\<close>

definition strip_cr :: "string \<Rightarrow> string" where
  "strip_cr l = (if l \<noteq> [] \<and> last l = CHR 0x0D then butlast l else l)"

definition scan_lines :: "string \<Rightarrow> string list" where
  "scan_lines s =
     (let ls = split_on (CHR 0x0A) s;
          ls' = (if last ls = [] then butlast ls else ls)
      in map strip_cr (takeWhile (\<lambda>l. length l < 65536) ls'))"

section \<open>Readers of single files\<close>

definition readTrimmed :: "fs \<Rightarrow> string \<Rightarrow> string" where
  "readTrimmed fs p = (case fsFile fs p of Inl _ \<Rightarrow> [] | Inr s \<Rightarrow> trim_space s)"

definition readHexID :: "fs \<Rightarrow> string \<Rightarrow> string" where
  "readHexID fs p = (case fsFile fs p of Inl _ \<Rightarrow> [] | Inr s \<Rightarrow> trim_prefix (trim_space s) ''0x'')"

definition readLinkBase :: "fs \<Rightarrow> string \<Rightarrow> string" where
  "readLinkBase fs p = (case fsLink fs p of None \<Rightarrow> [] | Some t \<Rightarrow> path_base t)"

definition readUint :: "fs \<Rightarrow> string \<Rightarrow> nat" where
  "readUint fs p =
     (case fsFile fs p of
        Inl _ \<Rightarrow> 0
      | Inr s \<Rightarrow> (case parse_uint (trim_space s) of None \<Rightarrow> 0 | Some v \<Rightarrow> v))"

definition vramBytes :: "fs \<Rightarrow> string \<Rightarrow> string \<Rightarrow> nat" where
  "vramBytes fs classDir e =
     (case find (\<lambda>p. readUint fs p > 0)
             [path [classDir, e, ''device'', ''mem_info_vram_total''],
              path [classDir, e, ''lmem_total_bytes''],
              path [classDir, e, ''device'', ''tile0'', ''physical_vram_size_bytes'']] of
        None \<Rightarrow> 0 | Some p \<Rightarrow> readUint fs p)"

definition renderNode :: "fs \<Rightarrow> string \<Rightarrow> string" where
  "renderNode fs devDir =
     (case fsDir fs (path [devDir, ''drm'']) of
        DirEntries es \<Rightarrow>
          (case find (\<lambda>e. has_prefix e ''renderD'') es of
             None \<Rightarrow> [] | Some e \<Rightarrow> ''/dev/dri/'' @ e)
      | _ \<Rightarrow> [])"

definition is_pci_address :: "string \<Rightarrow> bool" where
  "is_pci_address p \<longleftrightarrow>
     length p = 12 \<and> p ! 4 = CHR '':'' \<and> p ! 7 = CHR '':'' \<and> p ! 10 = CHR ''.''"

definition pci_parts :: "string list \<Rightarrow> string \<times> string" where
  "pci_parts parts =
     fold (\<lambda>part (addr, root).
            (if is_pci_address part then part else addr,
             if has_prefix part ''pci'' \<and> contains part '':'' then part else root))
       parts ([], [])"

definition pciAddress :: "fs \<Rightarrow> string \<Rightarrow> string \<times> string" where
  "pciAddress fs devDir =
     (case fsReal fs devDir of
        None \<Rightarrow> ([], [])
      | Some resolved \<Rightarrow> pci_parts (split_on (CHR ''/'') resolved))"

section \<open>The drm and accel classes\<close>

definition class_device_at ::
  "fs \<Rightarrow> string \<Rightarrow> kind \<Rightarrow> string \<Rightarrow> nat \<Rightarrow> string \<Rightarrow> string \<times> string \<Rightarrow> probe_device" where
  "class_device_at fs classDir k e idx devDir pci =
     (blank_device k idx)
       \<lparr>PCIVendor := readHexID fs (path [devDir, ''vendor'']),
        PCIDevice := readHexID fs (path [devDir, ''device'']),
        dDriver := readLinkBase fs (path [devDir, ''driver'']),
        VRAMBytes := vramBytes fs classDir e,
        UniqueID := readTrimmed fs (path [devDir, ''unique_id'']),
        RASUncorrectable := readUint fs (path [devDir, ''ras'', ''ue_count'']),
        PCIAddr := fst pci,
        PCIeRoot := snd pci,
        DevNode := (case k of KindGPU \<Rightarrow> ''/dev/dri/'' @ e
                            | KindNPU \<Rightarrow> ''/dev/accel/'' @ e | _ \<Rightarrow> []),
        RenderNode := (if k = KindGPU then renderNode fs devDir else [])\<rparr>"

definition class_dev_dir :: "string \<Rightarrow> string \<Rightarrow> string" where
  "class_dev_dir classDir e = path [classDir, e, ''device'']"

definition class_device :: "fs \<Rightarrow> string \<Rightarrow> kind \<Rightarrow> string \<Rightarrow> nat \<Rightarrow> probe_device" where
  "class_device fs classDir k e idx =
     class_device_at fs classDir k e idx (class_dev_dir classDir e)
       (pciAddress fs (class_dev_dir classDir e))"

definition class_entry :: "string \<Rightarrow> string \<Rightarrow> bool" where
  "class_entry pre e =
     (case cut_prefix e pre of None \<Rightarrow> False | Some suffix \<Rightarrow> atoi suffix \<noteq> None)"

fun class_devices :: "fs \<Rightarrow> string \<Rightarrow> string \<Rightarrow> kind \<Rightarrow> nat \<Rightarrow> string list \<Rightarrow> probe_device list" where
  "class_devices fs classDir pre k idx [] = []"
| "class_devices fs classDir pre k idx (e # es) =
     (if class_entry pre e
      then class_device fs classDir k e idx # class_devices fs classDir pre k (Suc idx) es
      else class_devices fs classDir pre k idx es)"

definition walkClass :: "fs \<Rightarrow> string \<Rightarrow> string \<Rightarrow> kind \<Rightarrow> probe_device list result" where
  "walkClass fs classDir pre k =
     (case fsDir fs classDir of
        DirMissing \<Rightarrow> Inr []
      | DirError err \<Rightarrow> Inl err
      | DirEntries es \<Rightarrow> Inr (class_devices fs classDir pre k 0 es))"

definition dropFabricFunctions :: "probe_device list \<Rightarrow> string set \<Rightarrow> probe_device list" where
  "dropFabricFunctions devices fabricPCI =
     filter (\<lambda>d. \<not> (PCIAddr d \<noteq> [] \<and> PCIAddr d \<in> fabricPCI)) devices"

section \<open>The infiniband class\<close>

definition normalizeLinkLayer :: "string \<Rightarrow> string" where
  "normalizeLinkLayer s = to_lower (trim_space s)"

text \<open>
  \<open>strconv.ParseFloat\<close> on decimal literals; the other literals it accepts (hexadecimal ones,
  infinities and NaN), which the kernel never writes, are rejected here.
\<close>

definition decimal_value :: "string \<Rightarrow> string \<Rightarrow> int \<Rightarrow> rat" where
  "decimal_value ip fp e =
     of_nat (digits_value (ip @ fp)) * pow10 (e - int (length fp))"

definition split_at :: "(char \<Rightarrow> bool) \<Rightarrow> string \<Rightarrow> string \<times> string option" where
  "split_at P s =
     (case dropWhile (\<lambda>c. \<not> P c) s of [] \<Rightarrow> (s, None) | _ # t \<Rightarrow> (takeWhile (\<lambda>c. \<not> P c) s, Some t))"

definition parse_exponent :: "string option \<Rightarrow> int option" where
  "parse_exponent e = (case e of None \<Rightarrow> Some 0 | Some s \<Rightarrow> atoi s)"

definition parse_unsigned_float :: "string \<Rightarrow> rat option" where
  "parse_unsigned_float s =
     (let (mant, ex) = split_at (\<lambda>c. c = CHR ''e'' \<or> c = CHR ''E'') s;
          (ip, fr) = split_at (\<lambda>c. c = CHR ''.'') mant;
          fp = (case fr of None \<Rightarrow> [] | Some f \<Rightarrow> f)
      in if list_all is_digit ip \<and> list_all is_digit fp \<and> ip @ fp \<noteq> []
         then map_option (\<lambda>e. f64 (decimal_value ip fp e)) (parse_exponent ex) else None)"

definition parse_float :: "string \<Rightarrow> rat option" where
  "parse_float s =
     (if has_prefix s ''-'' then map_option uminus (parse_unsigned_float (tl s))
      else if has_prefix s ''+'' then parse_unsigned_float (tl s)
      else parse_unsigned_float s)"

definition parseRateGbps :: "platform \<Rightarrow> string \<Rightarrow> nat" where
  "parseRateGbps plat s =
     (case fields s of
        [] \<Rightarrow> 0
      | f # _ \<Rightarrow>
          (case parse_float f of
             None \<Rightarrow> 0
           | Some v \<Rightarrow> if v < 0 then 0 else f64_to_u64 plat v))"

definition firstDirEntry :: "fs \<Rightarrow> string \<Rightarrow> string" where
  "firstDirEntry fs dir =
     (case fsDir fs dir of DirEntries (e # _) \<Rightarrow> e | _ \<Rightarrow> [])"

definition uverbs_dir :: "string \<Rightarrow> string" where
  "uverbs_dir sysRoot = path [sysRoot, ''class'', ''infiniband_verbs'']"

definition uverbsNode :: "fs \<Rightarrow> string \<Rightarrow> string \<Rightarrow> string" where
  "uverbsNode fs sysRoot ibdev =
     (case fsDir fs (uverbs_dir sysRoot) of
        DirEntries es \<Rightarrow>
          (case find (\<lambda>e. has_prefix e ''uverbs'' \<and>
                          readTrimmed fs (path [uverbs_dir sysRoot, e, ''ibdev'']) = ibdev) es of
             None \<Rightarrow> [] | Some e \<Rightarrow> ''/dev/infiniband/'' @ e)
      | _ \<Rightarrow> [])"

definition ib_dev_dir :: "string \<Rightarrow> string \<Rightarrow> string" where
  "ib_dev_dir sysRoot e = path [sysRoot, ''class'', ''infiniband'', e, ''device'']"

definition ib_port_dir :: "string \<Rightarrow> string \<Rightarrow> string" where
  "ib_port_dir sysRoot e = path [sysRoot, ''class'', ''infiniband'', e, ''ports'', ''1'']"

definition ib_device_at ::
  "platform \<Rightarrow> fs \<Rightarrow> string \<Rightarrow> string \<Rightarrow> nat \<Rightarrow> string \<Rightarrow> string \<Rightarrow> string \<times> string \<Rightarrow> probe_device" where
  "ib_device_at plat fs sysRoot e idx devDir port1 pci =
     (blank_device KindNIC idx)
       \<lparr>PCIVendor := readHexID fs (path [devDir, ''vendor'']),
        PCIDevice := readHexID fs (path [devDir, ''device'']),
        dDriver := readLinkBase fs (path [devDir, ''driver'']),
        IBLinkLayer := normalizeLinkLayer (readTrimmed fs (path [port1, ''link_layer''])),
        IBRateGbps := parseRateGbps plat (readTrimmed fs (path [port1, ''rate''])),
        IBPortActive := contains (readTrimmed fs (path [port1, ''state''])) ''ACTIVE'',
        NetDev := firstDirEntry fs (path [devDir, ''net'']),
        DevNode := uverbsNode fs sysRoot e,
        PCIAddr := fst pci,
        PCIeRoot := snd pci\<rparr>"

definition ib_device :: "platform \<Rightarrow> fs \<Rightarrow> string \<Rightarrow> string \<Rightarrow> nat \<Rightarrow> probe_device" where
  "ib_device plat fs sysRoot e idx =
     ib_device_at plat fs sysRoot e idx (ib_dev_dir sysRoot e) (ib_port_dir sysRoot e)
       (pciAddress fs (ib_dev_dir sysRoot e))"

definition ib_key :: "fs \<Rightarrow> string \<Rightarrow> string \<Rightarrow> string" where
  "ib_key fs sysRoot e =
     (if fst (pciAddress fs (ib_dev_dir sysRoot e)) \<noteq> []
      then fst (pciAddress fs (ib_dev_dir sysRoot e))
      else case fsReal fs (ib_dev_dir sysRoot e) of None \<Rightarrow> [] | Some target \<Rightarrow> target)"

fun ib_devices ::
  "platform \<Rightarrow> fs \<Rightarrow> string \<Rightarrow> string list \<Rightarrow> nat \<Rightarrow> string list \<Rightarrow> probe_device list" where
  "ib_devices plat fs sysRoot seen idx [] = []"
| "ib_devices plat fs sysRoot seen idx (e # es) =
     (if \<not> fsStat fs (ib_dev_dir sysRoot e) then ib_devices plat fs sysRoot seen idx es
      else if ib_key fs sysRoot e \<noteq> [] \<and> ib_key fs sysRoot e \<in> set seen
      then ib_devices plat fs sysRoot seen idx es
      else ib_device plat fs sysRoot e idx #
           ib_devices plat fs sysRoot
             (if ib_key fs sysRoot e \<noteq> [] then ib_key fs sysRoot e # seen else seen) (Suc idx) es)"

definition walkInfiniband :: "platform \<Rightarrow> fs \<Rightarrow> string \<Rightarrow> probe_device list result" where
  "walkInfiniband plat fs sysRoot =
     (case fsDir fs (path [sysRoot, ''class'', ''infiniband'']) of
        DirMissing \<Rightarrow> Inr []
      | DirError err \<Rightarrow> Inl err
      | DirEntries es \<Rightarrow> Inr (ib_devices plat fs sysRoot [] 0 es))"

section \<open>The CPU and the whole walk\<close>

definition parse_uint_error :: "string \<Rightarrow> string" where
  "parse_uint_error s =
     ''strconv.ParseUint: parsing '' @ go_quote s @
     (if s \<noteq> [] \<and> list_all is_digit s then '': value out of range'' else '': invalid syntax'')"

fun meminfo_total :: "string \<Rightarrow> string list \<Rightarrow> nat result" where
  "meminfo_total p [] = Inl (''MemTotal not found in '' @ p)"
| "meminfo_total p (l # ls) =
     (case fields l of
        a # b # _ \<Rightarrow>
          (if a = ''MemTotal:''
           then case parse_uint b of
                  None \<Rightarrow> Inl (parse_uint_error b)
                | Some kb \<Rightarrow> Inr ((kb * 1024) mod 2 ^ 64)
           else meminfo_total p ls)
      | _ \<Rightarrow> meminfo_total p ls)"

definition memTotalBytes :: "fs \<Rightarrow> string \<Rightarrow> nat result" where
  "memTotalBytes fs p =
     (case fsFile fs p of Inl err \<Rightarrow> Inl err | Inr s \<Rightarrow> meminfo_total p (scan_lines s))"

fun model_name :: "string list \<Rightarrow> string" where
  "model_name [] = []"
| "model_name (l # ls) =
     (if has_prefix l ''model name''
      then case split_at (\<lambda>c. c = CHR '':'') l of
             (_, Some val) \<Rightarrow> trim_space val
           | (_, None) \<Rightarrow> model_name ls
      else model_name ls)"

definition cpuModel :: "fs \<Rightarrow> string \<Rightarrow> string" where
  "cpuModel fs p = (case fsFile fs p of Inl _ \<Rightarrow> [] | Inr s \<Rightarrow> model_name (scan_lines s))"

definition MemTotalBytes :: "fs \<Rightarrow> string \<Rightarrow> nat result" where
  "MemTotalBytes fs procRoot = memTotalBytes fs (path [procRoot, ''meminfo''])"

definition cpuDevice :: "fs \<Rightarrow> string \<Rightarrow> probe_device result" where
  "cpuDevice fs procRoot =
     (case memTotalBytes fs (path [procRoot, ''meminfo'']) of
        Inl err \<Rightarrow> Inl err
      | Inr ram \<Rightarrow> Inr ((blank_device KindCPU 0)
                         \<lparr>CPUModel := cpuModel fs (path [procRoot, ''cpuinfo'']),
                          SystemRAMBytes := ram\<rparr>))"

definition walk_key :: "probe_device \<Rightarrow> kind \<times> nat" where
  "walk_key d = (dKind d, dIndex d)"

definition fabric_of :: "probe_device list \<Rightarrow> string set" where
  "fabric_of nics = set (filter (\<lambda>a. a \<noteq> []) (map PCIAddr nics))"

text \<open>
  Go sorts with an unstable sort; the walk gives no two devices the same kind and index, so
  the stable sort of the model returns the same list.
\<close>

definition join_walks ::
  "probe_device list \<Rightarrow> probe_device list \<Rightarrow> probe_device list \<Rightarrow> probe_device \<Rightarrow> probe_device list" where
  "join_walks nics gpus npus cpu =
     sort_key walk_key
       (dropFabricFunctions gpus (fabric_of nics) @ dropFabricFunctions npus (fabric_of nics) @
        nics @ [cpu])"

definition Walk :: "platform \<Rightarrow> fs \<Rightarrow> string \<Rightarrow> string \<Rightarrow> probe_device list result" where
  "Walk plat fs sysRoot procRoot =
     (case walkInfiniband plat fs sysRoot of
        Inl err \<Rightarrow> Inl (''walking infiniband class: '' @ err)
      | Inr nics \<Rightarrow>
          (case walkClass fs (path [sysRoot, ''class'', ''drm'']) ''card'' KindGPU of
             Inl err \<Rightarrow> Inl (''walking drm class: '' @ err)
           | Inr gpus \<Rightarrow>
               (case walkClass fs (path [sysRoot, ''class'', ''accel'']) ''accel'' KindNPU of
                  Inl err \<Rightarrow> Inl (''walking accel class: '' @ err)
                | Inr npus \<Rightarrow>
                    (case cpuDevice fs procRoot of
                       Inl err \<Rightarrow> Inl (''probing cpu: '' @ err)
                     | Inr cpu \<Rightarrow> Inr (join_walks nics gpus npus cpu)))))"

section \<open>Facts about the walks\<close>

lemma pci_parts_snoc:
  "pci_parts (ps @ [p]) =
     (if is_pci_address p then p else fst (pci_parts ps),
      if has_prefix p ''pci'' \<and> contains p '':'' then p else snd (pci_parts ps))"
  by (simp add: pci_parts_def case_prod_unfold)

lemma pciAddress_shape: "fst (pciAddress fs p) = [] \<or> is_pci_address (fst (pciAddress fs p))"
proof -
  have "fst (pci_parts ps) = [] \<or> is_pci_address (fst (pci_parts ps))" for ps
  proof (induction ps rule: rev_induct)
    case Nil
    then show ?case by (simp add: pci_parts_def)
  qed (simp add: pci_parts_snoc)
  then show ?thesis by (simp add: pciAddress_def split: option.splits)
qed

lemma blank_device_key [simp]: "dKind (blank_device k i) = k" "dIndex (blank_device k i) = i"
  by (simp_all add: blank_device_def)

lemma class_device_key [simp]:
  "dKind (class_device fs cd k e i) = k" "dIndex (class_device fs cd k e i) = i"
  by (simp_all add: class_device_def class_device_at_def)

text \<open>The devices of one walk carry one kind and strictly increasing indices.\<close>

definition numbered :: "kind \<Rightarrow> nat \<Rightarrow> probe_device list \<Rightarrow> bool" where
  "numbered k i ds \<longleftrightarrow>
     (\<forall>d \<in> set ds. dKind d = k \<and> i \<le> dIndex d) \<and> sorted_wrt (\<lambda>d e. dIndex d < dIndex e) ds"

lemma numbered_intros [intro]:
  "numbered k i []"
  "dKind d = k \<Longrightarrow> dIndex d = i \<Longrightarrow> numbered k (Suc i) ds \<Longrightarrow> numbered k i (d # ds)"
  by (auto simp: numbered_def)

lemma numbered_filter: "numbered k i ds \<Longrightarrow> numbered k i (filter P ds)"
  by (auto simp: numbered_def sorted_wrt_filter)

lemma numbered_distinct:
  assumes "numbered k i ds"
  shows "distinct (map walk_key ds)"
proof -
  have "sorted_wrt (<) (map dIndex ds)" using assms by (simp add: numbered_def sorted_wrt_map)
  then have "distinct (map snd (map walk_key ds))" by (simp add: strict_sorted_iff walk_key_def comp_def)
  then show ?thesis by (simp only: distinct_map)
qed

lemma class_devices_numbered: "numbered k i (class_devices fs cd pre k i es)"
proof (induction fs cd pre k i es rule: class_devices.induct)
  case (2 fs cd pre k i e es)
  then show ?case by (cases "class_entry pre e") auto
qed auto

lemma ib_device_facts [simp]:
  "dKind (ib_device plat fs r e i) = KindNIC" "dIndex (ib_device plat fs r e i) = i"
  "PCIAddr (ib_device plat fs r e i) = fst (pciAddress fs (ib_dev_dir r e))"
  by (simp_all add: ib_device_def ib_device_at_def)

text \<open>Entries of one PCI function yield one device.\<close>

definition new_addresses :: "string list \<Rightarrow> probe_device list \<Rightarrow> bool" where
  "new_addresses seen ds \<longleftrightarrow>
     distinct (filter (\<lambda>a. a \<noteq> []) (map PCIAddr ds)) \<and>
     (\<forall>d \<in> set ds. PCIAddr d \<noteq> [] \<longrightarrow> PCIAddr d \<notin> set seen)"

lemma new_addresses_Cons:
  assumes "PCIAddr d \<noteq> [] \<Longrightarrow> key = PCIAddr d" "\<not> (key \<noteq> [] \<and> key \<in> set seen)"
    and "new_addresses (if key \<noteq> [] then key # seen else seen) ds"
  shows "new_addresses seen (d # ds)"
  using assms by (auto simp: new_addresses_def split: if_splits)

lemma ib_devices_facts:
  "numbered KindNIC i (ib_devices plat fs r seen i es) \<and>
   new_addresses seen (ib_devices plat fs r seen i es)"
proof (induction plat fs r seen i es rule: ib_devices.induct)
  case (2 plat fs r seen i e es)
  consider (gone) "\<not> fsStat fs (ib_dev_dir r e)"
    | (dup) "fsStat fs (ib_dev_dir r e)" "ib_key fs r e \<noteq> [] \<and> ib_key fs r e \<in> set seen"
    | (new) "fsStat fs (ib_dev_dir r e)" "\<not> (ib_key fs r e \<noteq> [] \<and> ib_key fs r e \<in> set seen)"
    by blast
  then show ?case
  proof cases
    case new
    let ?seen = "if ib_key fs r e \<noteq> [] then ib_key fs r e # seen else seen"
    let ?rest = "ib_devices plat fs r ?seen (Suc i) es"
    have step: "ib_devices plat fs r seen i (e # es) = ib_device plat fs r e i # ?rest"
      using new(1) by (simp only: ib_devices.simps new(2) if_False not_True_eq_False)
    have IH: "numbered KindNIC (Suc i) ?rest" "new_addresses ?seen ?rest"
      using 2(3) new by blast+
    have "new_addresses seen (ib_device plat fs r e i # ?rest)"
      by (rule new_addresses_Cons [OF _ new(2) IH(2)]) (simp add: ib_key_def)
    with IH(1) show ?thesis unfolding step by auto
  qed (use 2 in simp_all)
qed (auto simp: new_addresses_def)

text \<open>What a successful walk is made of.\<close>

lemma Walk_cases:
  assumes "Walk plat fs r pr = Inr ds"
  obtains nics gpus npus cpu where
    "numbered KindNIC 0 nics" "new_addresses [] nics" "numbered KindGPU 0 gpus"
    "numbered KindNPU 0 npus" "dKind cpu = KindCPU" "PCIAddr cpu = []" "dIndex cpu = 0"
    "walkInfiniband plat fs r = Inr nics" "cpuDevice fs pr = Inr cpu"
    "ds = sort_key walk_key (dropFabricFunctions gpus (fabric_of nics) @
            dropFabricFunctions npus (fabric_of nics) @ nics @ [cpu])"
proof -
  obtain nics gpus npus cpu where
    w: "walkInfiniband plat fs r = Inr nics"
      "walkClass fs (path [r, ''class'', ''drm'']) ''card'' KindGPU = Inr gpus"
      "walkClass fs (path [r, ''class'', ''accel'']) ''accel'' KindNPU = Inr npus"
      "cpuDevice fs pr = Inr cpu"
      "ds = sort_key walk_key (dropFabricFunctions gpus (fabric_of nics) @
              dropFabricFunctions npus (fabric_of nics) @ nics @ [cpu])"
    using assms by (auto simp: Walk_def join_walks_def split: sum.splits)
  have "numbered KindNIC 0 nics \<and> new_addresses [] nics"
    using w(1) ib_devices_facts by (auto simp: walkInfiniband_def new_addresses_def split: dir_listing.splits)
  moreover have "numbered KindGPU 0 gpus" "numbered KindNPU 0 npus"
    using w(2,3) class_devices_numbered by (auto simp: walkClass_def split: dir_listing.splits)
  moreover have "dKind cpu = KindCPU" "PCIAddr cpu = []" "dIndex cpu = 0"
    using w(4) by (auto simp: cpuDevice_def blank_device_def split: sum.splits)
  ultimately show ?thesis using w that by blast
qed

lemma class_devices_gpu_node:
  "p \<in> set (class_devices fs cd pre KindGPU i es) \<Longrightarrow> \<exists>e \<in> set es. DevNode p = ''/dev/dri/'' @ e"
proof (induction fs cd pre "KindGPU" i es rule: class_devices.induct)
  case (2 fs cd pre i e es)
  then show ?case
    by (auto simp: class_device_def class_device_at_def split: if_splits)
qed simp

lemma walked_gpu_has_node:
  assumes "Walk plat fs r pr = Inr ds" and "p \<in> set ds" and "dKind p = KindGPU"
  shows "\<exists>e. DevNode p = ''/dev/dri/'' @ e"
proof -
  obtain nics gpus npus cpu where
    w: "walkInfiniband plat fs r = Inr nics"
      "walkClass fs (path [r, ''class'', ''drm'']) ''card'' KindGPU = Inr gpus"
      "walkClass fs (path [r, ''class'', ''accel'']) ''accel'' KindNPU = Inr npus"
      "cpuDevice fs pr = Inr cpu" "ds = join_walks nics gpus npus cpu"
    using assms(1) by (auto simp: Walk_def split: sum.splits)
  have "dKind d = KindNIC" if "d \<in> set nics" for d
    using w(1) that ib_devices_facts
    by (auto simp: walkInfiniband_def numbered_def split: dir_listing.splits)
  moreover have "dKind d = KindNPU" if "d \<in> set npus" for d
    using w(3) that class_devices_numbered
    by (fastforce simp: walkClass_def numbered_def split: dir_listing.splits)
  moreover have "dKind cpu = KindCPU"
    using w(4) by (auto simp: cpuDevice_def blank_device_def split: sum.splits)
  ultimately have "p \<in> set gpus"
    using assms(2,3) by (auto simp: w(5) join_walks_def dropFabricFunctions_def)
  then show ?thesis
    using w(2) class_devices_gpu_node by (fastforce simp: walkClass_def split: dir_listing.splits)
qed

section \<open>Device names\<close>

text \<open>
  An address of the kernel's form: the separators at their places and no separator elsewhere.
\<close>

definition pci_separators :: "nat set" where
  "pci_separators = {4, 7, 10}"

definition wf_pci :: "string \<Rightarrow> bool" where
  "wf_pci a \<longleftrightarrow>
     is_pci_address a \<and>
     (\<forall>i < 12. i \<notin> pci_separators \<longrightarrow> a ! i \<noteq> CHR '':'' \<and> a ! i \<noteq> CHR ''.'' \<and> a ! i \<noteq> CHR ''-'')"

lemma dashed_nth: "i < length a \<Longrightarrow> dashed a ! i =
    (if a ! i = CHR '':'' \<or> a ! i = CHR ''.'' then CHR ''-'' else a ! i)"
  by (simp add: dashed_def)

lemma dashed_inject:
  assumes a: "wf_pci a" and b: "wf_pci b" and eq: "dashed a = dashed b"
  shows "a = b"
proof (rule nth_equalityI)
  have len: "length a = 12" "length b = 12" using a b by (auto simp: wf_pci_def is_pci_address_def)
  then show "length a = length b" by simp
  fix i assume "i < length a"
  with len have i: "i < 12" by simp
  show "a ! i = b ! i"
  proof (cases "i \<in> pci_separators")
    case True
    with a b show ?thesis by (auto simp: wf_pci_def is_pci_address_def pci_separators_def)
  next
    case False
    have "dashed a ! i = dashed b ! i" using eq by simp
    moreover have "a ! i \<noteq> CHR '':''" "a ! i \<noteq> CHR ''.''" "b ! i \<noteq> CHR '':''" "b ! i \<noteq> CHR ''.''"
      using a b i False by (auto simp: wf_pci_def)
    ultimately show ?thesis using i len by (simp add: dashed_nth)
  qed
qed

lemma Name_inject:
  assumes "wf_pci (PCIAddr d)" "wf_pci (PCIAddr d')"
  shows "Name d = Name d' \<longleftrightarrow> dKind d = dKind d' \<and> PCIAddr d = PCIAddr d'"
proof -
  have ne: "PCIAddr d \<noteq> []" "PCIAddr d' \<noteq> []"
    using assms by (auto simp: wf_pci_def is_pci_address_def)
  then have "Name d = Name d' \<longleftrightarrow>
      kind_name (dKind d) = kind_name (dKind d') \<and> dashed (PCIAddr d) = dashed (PCIAddr d')"
    by (simp add: Name_def)
  then show ?thesis using dashed_inject [OF assms] by auto
qed

lemma same_name_same_kind:
  assumes "Name p = Name q"
  shows "dKind p = dKind q"
proof -
  have "take 3 (Name d) = kind_name (dKind d)" for d by (simp add: Name_def)
  with assms have "kind_name (dKind p) = kind_name (dKind q)" by metis
  then show ?thesis by simp
qed

section \<open>Sample tree\<close>

text \<open>
  A node with one AMD GPU, and a network function that shows up twice under the infiniband
  class and once, as \<open>card1\<close>, under the drm class.
\<close>

definition sample_files :: "(string \<times> string) list" where
  "sample_files =
     [(''/proc/meminfo'', ''MemTotal:       65536000 kB'' @ [CHR 0x0A]),
      (''/sys/class/drm/card0/device/vendor'', ''0x1002'' @ [CHR 0x0A]),
      (''/sys/class/drm/card0/device/device'', ''0x1586'' @ [CHR 0x0A]),
      (''/sys/class/infiniband/mlx5_0/ports/1/state'', ''4: ACTIVE'' @ [CHR 0x0A])]"

definition sample_real :: "(string \<times> string) list" where
  "sample_real =
     [(''/sys/class/drm/card0/device'', ''/sys/devices/pci0000:c0/0000:c3:00.0''),
      (''/sys/class/drm/card1/device'', ''/sys/devices/pci0000:00/0000:03:00.0''),
      (''/sys/class/infiniband/mlx5_0/device'', ''/sys/devices/pci0000:00/0000:03:00.0''),
      (''/sys/class/infiniband/mlx5_1/device'', ''/sys/devices/pci0000:00/0000:03:00.0'')]"

definition sample_fs :: fs where
  "sample_fs =
     \<lparr>fsFile = (\<lambda>p. case map_of sample_files p of None \<Rightarrow> Inl ''no such file'' | Some s \<Rightarrow> Inr s),
      fsDir = (\<lambda>p. if p = ''/sys/class/drm'' then DirEntries [''card0'', ''card0-DP-1'', ''card1'', ''renderD128'']
                  else if p = ''/sys/class/infiniband'' then DirEntries [''mlx5_0'', ''mlx5_1'']
                  else DirMissing),
      fsLink = (\<lambda>p. if p = ''/sys/class/drm/card0/device/driver''
                    then Some ''/sys/bus/pci/drivers/amdgpu'' else None),
      fsReal = map_of sample_real,
      fsStat = (\<lambda>p. map_of sample_real p \<noteq> None)\<rparr>"

definition sample_platform :: platform where
  "sample_platform = \<lparr>outU64 = (\<lambda>_. 0), outI64 = (\<lambda>_. 0)\<rparr>"

lemma sample_walk:
  "map_sum id (map Name) (Walk sample_platform sample_fs ''/sys'' ''/proc'') =
     Inr [''cpu0'', ''gpu-0000-c3-00-0'', ''nic-0000-03-00-0'']"
  by code_simp

lemma sort_key_strict:
  assumes "distinct (map f xs)"
  shows "sorted_wrt (\<lambda>d e. f d < f e) (sort_key f xs)"
proof -
  have "mset (map f (sort_key f xs)) = mset (map f xs)" by simp
  then have "distinct (map f (sort_key f xs))" using assms mset_eq_imp_distinct_iff by blast
  then show ?thesis by (simp add: strict_sorted_iff flip: sorted_wrt_map)
qed

lemma length_filter_sort_key: "length (filter P (sort_key f xs)) = length (filter P xs)"
proof -
  have "mset (filter P (sort_key f xs)) = mset (filter P xs)" by simp
  then show ?thesis by (metis size_mset)
qed

lemma new_addresses_unique:
  assumes "new_addresses [] nics" and "m \<in> set nics" "n \<in> set nics" "PCIAddr m \<noteq> []" "PCIAddr m = PCIAddr n"
  shows "m = n"
proof -
  have "distinct (map PCIAddr (filter (\<lambda>d. PCIAddr d \<noteq> []) nics))"
    using assms(1) by (simp add: new_addresses_def filter_map comp_def)
  then have "inj_on PCIAddr (set (filter (\<lambda>d. PCIAddr d \<noteq> []) nics))" by (simp add: distinct_map)
  then show ?thesis using assms(2-) by (auto dest: inj_onD)
qed

section \<open>Properties\<close>

text \<open>
  C33: the walk is a well-formed inventory.  It is strictly ordered by kind and index, so that
  an unchanged tree walks to the same list whatever the sort does with ties; it has exactly
  one CPU; no compute device is on the PCI function of a network device; and no two network
  devices are on one PCI function.
\<close>

theorem walk_invariant:
  assumes "Walk plat fs r pr = Inr ds"
  shows "sorted_wrt (\<lambda>d e. walk_key d < walk_key e) ds \<and>
    length (filter (\<lambda>d. dKind d = KindCPU) ds) = 1 \<and>
    (\<forall>d \<in> set ds. \<forall>n \<in> set ds. dKind d \<noteq> KindNIC \<and> dKind n = KindNIC \<and> PCIAddr d \<noteq> [] \<longrightarrow>
       PCIAddr d \<noteq> PCIAddr n) \<and>
    (\<forall>m \<in> set ds. \<forall>n \<in> set ds. dKind m = KindNIC \<and> dKind n = KindNIC \<and> PCIAddr m \<noteq> [] \<and>
       PCIAddr m = PCIAddr n \<longrightarrow> m = n)"
proof -
  from assms obtain nics gpus npus cpu where
    nics: "numbered KindNIC 0 nics" "new_addresses [] nics" and
    gpus: "numbered KindGPU 0 gpus" and npus: "numbered KindNPU 0 npus" and
    cpu: "dKind cpu = KindCPU" "PCIAddr cpu = []" and
    ds: "ds = sort_key walk_key (dropFabricFunctions gpus (fabric_of nics) @
            dropFabricFunctions npus (fabric_of nics) @ nics @ [cpu])"
    by (rule Walk_cases)
  define gs where "gs = dropFabricFunctions gpus (fabric_of nics)"
  define ns where "ns = dropFabricFunctions npus (fabric_of nics)"
  have num: "numbered KindGPU 0 gs" "numbered KindNPU 0 ns"
    using gpus npus numbered_filter by (simp_all add: gs_def ns_def dropFabricFunctions_def)
  have kinds: "\<forall>d \<in> set gs. dKind d = KindGPU" "\<forall>d \<in> set ns. dKind d = KindNPU"
      "\<forall>d \<in> set nics. dKind d = KindNIC"
    using num nics(1) by (auto simp: numbered_def)
  have "distinct (map walk_key (gs @ ns @ nics @ [cpu]))"
    using numbered_distinct [OF num(1)] numbered_distinct [OF num(2)] numbered_distinct [OF nics(1)]
      kinds cpu(1) by (auto simp: walk_key_def)
  then have sorted: "sorted_wrt (\<lambda>d e. walk_key d < walk_key e) ds"
    unfolding ds gs_def [symmetric] ns_def [symmetric] by (rule sort_key_strict)
  have one: "length (filter (\<lambda>d. dKind d = KindCPU) ds) = 1"
    unfolding ds gs_def [symmetric] ns_def [symmetric] length_filter_sort_key
    using kinds cpu(1) by (simp add: filter_empty_conv)
  have set_ds: "set ds = set gs \<union> set ns \<union> set nics \<union> {cpu}" by (auto simp: ds gs_def ns_def)
  then have nic_in: "n \<in> set nics" if "n \<in> set ds" "dKind n = KindNIC" for n
    using that kinds cpu(1) by auto
  have "PCIAddr d \<notin> fabric_of nics" if "d \<in> set ds" "dKind d \<noteq> KindNIC" "PCIAddr d \<noteq> []" for d
    using that kinds cpu by (auto simp: set_ds gs_def ns_def dropFabricFunctions_def)
  then have "PCIAddr d \<noteq> PCIAddr n"
    if "d \<in> set ds" "dKind d \<noteq> KindNIC" "PCIAddr d \<noteq> []" "n \<in> set ds" "dKind n = KindNIC" for d n
    using that nic_in by (auto simp: fabric_of_def)
  then show ?thesis using sorted one new_addresses_unique [OF nics(2)] nic_in by blast
qed

theorem walk_invariant_witness:
  "\<exists>ds. Walk sample_platform sample_fs ''/sys'' ''/proc'' = Inr ds \<and> length ds = 3 \<and>
     sorted_wrt (\<lambda>d e. walk_key d < walk_key e) ds"
proof -
  obtain ds where ds: "Walk sample_platform sample_fs ''/sys'' ''/proc'' = Inr ds"
      "map Name ds = [''cpu0'', ''gpu-0000-c3-00-0'', ''nic-0000-03-00-0'']"
    using sample_walk by (cases "Walk sample_platform sample_fs ''/sys'' ''/proc''") auto
  then have "length ds = 3" by (metis length_map length_Cons list.size(3) numeral_3_eq_3)
  with ds(1) walk_invariant [OF ds(1)] show ?thesis by blast
qed

text \<open>
  A name identifies the silicon.  Two devices with PCI addresses of the kernel's form have
  the same name exactly when they are of one kind on one PCI function, wherever they are in
  the enumeration.
\<close>

theorem device_name_identifies:
  assumes "wf_pci (PCIAddr d)" "wf_pci (PCIAddr d')"
  shows "Name d = Name d' \<longleftrightarrow> dKind d = dKind d' \<and> PCIAddr d = PCIAddr d'"
  using assms by (rule Name_inject)

theorem device_name_identifies_witness:
  "Name ((blank_device KindGPU 0)\<lparr>PCIAddr := ''0000:c3:00.0''\<rparr>) =
   Name ((blank_device KindGPU 7)\<lparr>PCIAddr := ''0000:c3:00.0''\<rparr>)"
proof -
  have wf: "wf_pci ''0000:c3:00.0''"
    by (simp add: wf_pci_def is_pci_address_def pci_separators_def less_Suc_eq numeral_eq_Suc)
  show ?thesis
    by (subst device_name_identifies) (simp_all add: wf blank_device_def)
qed

end
