(* ===== verification/Publisher.thy ===== *)
theory Publisher
  imports Utf8 Kube Boards Probe LLMFit
begin

text \<open>
  What the node agent publishes (\<open>internal/publisher/publisher.go\<close>, \<open>coexist.go\<close>): the join
  of the probed devices with the llmfit report and the PCI-ID index into device entries, and
  the test for vendor drivers that own the node's GPUs.
\<close>

section \<open>Names and truncation\<close>

definition DriverName :: string where "DriverName = ''llmfit.ai''"

definition preparableGPUDrivers :: "string list" where
  "preparableGPUDrivers = [''amdgpu'', ''xe'', ''i915'']"

record options =
  optTaints :: bool
  VendorManagedGPUs :: bool

definition vendorName :: "string \<Rightarrow> string" where
  "vendorName pciVendor =
     (if pciVendor = ''8086'' then ''intel''
      else if pciVendor = ''10de'' then ''nvidia''
      else if pciVendor = ''1002'' \<or> pciVendor = ''1022'' then ''amd''
      else if pciVendor = ''1da3'' then ''habana''
      else if pciVendor = ''15b3'' then ''mellanox''
      else if pciVendor = ''14e4'' then ''broadcom''
      else if pciVendor = ''1414'' then ''microsoft''
      else if pciVendor = ''15ad'' then ''vmware''
      else if pciVendor = ''1af4'' then ''virtio''
      else ''pci-'' @ pciVendor)"

function drop_partial_rune :: "string \<Rightarrow> string" where
  "drop_partial_rune s = (if s \<noteq> [] \<and> \<not> valid_utf8 s then drop_partial_rune (butlast s) else s)"
  by pat_completeness auto
termination
  by (relation "measure length") auto

declare drop_partial_rune.simps [simp del]

definition truncate_utf8 :: "string \<Rightarrow> nat \<Rightarrow> string" where
  "truncate_utf8 s n = (if length s \<le> n then s else drop_partial_rune (take n s))"

section \<open>Pairing a probed GPU with the report\<close>

definition matchLLMFitGPU ::
  "system option \<Rightarrow> probe_device \<Rightarrow> string \<Rightarrow> nat \<Rightarrow> nat \<Rightarrow> gpu option" where
  "matchLLMFitGPU sys d vendor sameVendorProbed totalProbed =
     (case sys of
        None \<Rightarrow> None
      | Some s \<Rightarrow>
          if dKind d \<noteq> KindGPU then None
          else case filter (\<lambda>g. VendorOf g = vendor) (GPUs s) of
                 [g] \<Rightarrow> if sameVendorProbed > (if gCount g = 0 then 1 else gCount g) then None else Some g
               | [] \<Rightarrow>
                   (case GPUs s of
                      [g] \<Rightarrow> if totalProbed = 1 \<and> VendorOf g = [] then Some g else None
                    | _ \<Rightarrow> None)
               | _ \<Rightarrow> None)"

section \<open>One device entry\<close>

text \<open>Setting an attribute when a condition holds.\<close>

definition attr_if :: "bool \<Rightarrow> string \<Rightarrow> attr \<Rightarrow> attrs \<Rightarrow> attrs" where
  "attr_if c k v a = (if c then a(k \<mapsto> v) else a)"

definition base_attrs :: "probe_device \<Rightarrow> attrs" where
  "base_attrs d =
     attr_if (snd (Healthy d) \<noteq> []) ''healthReason'' (string_attr (snd (Healthy d)))
       [''kind'' \<mapsto> string_attr (kind_name (dKind d)), ''healthy'' \<mapsto> bool_attr (fst (Healthy d))]"

definition identity_attrs :: "probe_device \<Rightarrow> attrs \<Rightarrow> attrs" where
  "identity_attrs d a =
     attr_if (PCIeRoot d \<noteq> []) ''resource.kubernetes.io/pcieRoot'' (string_attr (PCIeRoot d))
      (attr_if (PCIeRoot d \<noteq> []) ''pcieRoot'' (string_attr (PCIeRoot d))
        (attr_if (PCIAddr d \<noteq> []) ''pciAddress'' (string_attr (PCIAddr d))
          (attr_if (dDriver d \<noteq> []) ''driver'' (string_attr (dDriver d))
            (a(''vendor'' \<mapsto> string_attr (vendorName (PCIVendor d)))))))"

definition nic_attrs :: "probe_device \<Rightarrow> attrs" where
  "nic_attrs d =
     attr_if (NetDev d \<noteq> []) ''netdev'' (string_attr (NetDev d))
      (attr_if (IBRateGbps d > 0) ''rateGbps'' (int_attr (i64_of_u64 (IBRateGbps d)))
        (attr_if (IBLinkLayer d \<noteq> []) ''linkLayer'' (string_attr (IBLinkLayer d))
          (identity_attrs d ((base_attrs d)(''source'' \<mapsto> string_attr ''probe'')))))"

definition gib :: "rat \<Rightarrow> rat" where
  "gib x = f64 (f64 (f64 (x * 1024) * 1024) * 1024)"

definition cpu_model :: "probe_device \<Rightarrow> system option \<Rightarrow> string" where
  "cpu_model d sys =
     (case sys of Some s \<Rightarrow> if CPUName s \<noteq> [] then CPUName s else CPUModel d | None \<Rightarrow> CPUModel d)"

definition cpu_memory :: "platform \<Rightarrow> probe_device \<Rightarrow> system option \<Rightarrow> nat" where
  "cpu_memory plat d sys =
     (case sys of
        Some s \<Rightarrow> if TotalRAMGB s > 0 then f64_to_u64 plat (gib (TotalRAMGB s)) else SystemRAMBytes d
      | None \<Rightarrow> SystemRAMBytes d)"

definition cpu_attrs :: "probe_device \<Rightarrow> system option \<Rightarrow> attrs" where
  "cpu_attrs d sys =
     attr_if (cpu_model d sys \<noteq> []) ''model'' (string_attr (truncate_utf8 (cpu_model d sys) 64))
       ((base_attrs d)
         (''vendor'' \<mapsto> string_attr ''cpu'', ''unifiedMemory'' \<mapsto> bool_attr True,
          ''source'' \<mapsto> string_attr (if sys \<noteq> None then ''llmfit'' else ''probe'')))"

definition positive :: "rat option \<Rightarrow> bool" where
  "positive r \<longleftrightarrow> (case r of None \<Rightarrow> False | Some x \<Rightarrow> x > 0)"

text \<open>What the join knows of an accelerator: from the report, the index or the probe alone.\<close>

datatype capability = FromLLMFit gpu | FromIndex entry | FromProbe

definition capability_of :: "gpu option \<Rightarrow> entry option \<Rightarrow> capability" where
  "capability_of lf e =
     (case lf of Some g \<Rightarrow> FromLLMFit g
      | None \<Rightarrow> (case e of Some x \<Rightarrow> FromIndex x | None \<Rightarrow> FromProbe))"

definition index_numbers :: "entry option \<Rightarrow> bool \<Rightarrow> attrs \<Rightarrow> attrs" where
  \<comment> \<open>the index's bandwidth, unless already set, and its compute number\<close>
  "index_numbers e bw_known a =
     (case e of
        None \<Rightarrow> a
      | Some x \<Rightarrow>
          attr_if (eComputeTFLOPS x > 0) ''computeTFLOPS'' (int_attr (eComputeTFLOPS x))
            (attr_if (\<not> bw_known \<and> eMemoryBandwidthGBs x > 0) ''memoryBandwidthGBs''
              (int_attr (eMemoryBandwidthGBs x)) a))"

definition capability_attrs ::
  "platform \<Rightarrow> probe_device \<Rightarrow> capability \<Rightarrow> entry option \<Rightarrow> attrs \<Rightarrow> attrs" where
  "capability_attrs plat d c e a =
     (case c of
        FromLLMFit g \<Rightarrow>
          index_numbers e (positive (MemoryBandwidthGBps g))
            (attr_if (positive (MemoryBandwidthGBps g)) ''memoryBandwidthGBs''
               (int_attr (f64_to_i64 plat (the (MemoryBandwidthGBps g))))
              (attr_if (gBackend g \<noteq> []) ''backend'' (string_attr (gBackend g))
                (a(''source'' \<mapsto> string_attr ''llmfit'',
                   ''model'' \<mapsto> string_attr (truncate_utf8 (gName g) 64)))))
      | FromIndex x \<Rightarrow>
          index_numbers (Some x) False
            (a(''source'' \<mapsto> string_attr ''index'',
               ''model'' \<mapsto> string_attr (truncate_utf8 (eModel x) 64)))
      | FromProbe \<Rightarrow>
          a(''source'' \<mapsto> string_attr ''probe'',
            ''model'' \<mapsto> string_attr (truncate_utf8 (''pci-'' @ PCIVendor d @ ''-'' @ PCIDevice d) 64)))"

definition unified_of :: "probe_device \<Rightarrow> capability \<Rightarrow> bool option" where
  "unified_of d c =
     (case c of
        FromLLMFit g \<Rightarrow> Some (gUnifiedMemory g)
      | FromIndex x \<Rightarrow> Some (eUnifiedMemory x)
      | FromProbe \<Rightarrow> if VRAMBytes d > 0 then Some False else None)"

definition reported_memory :: "platform \<Rightarrow> capability \<Rightarrow> nat" where
  "reported_memory plat c =
     (case c of
        FromLLMFit g \<Rightarrow> if positive (VRAMGB g) then f64_to_u64 plat (gib (the (VRAMGB g))) else 0
      | _ \<Rightarrow> 0)"

definition accel_memory :: "platform \<Rightarrow> probe_device \<Rightarrow> capability \<Rightarrow> nat \<Rightarrow> nat" where
  "accel_memory plat d c systemRAM =
     (if reported_memory plat c \<noteq> 0 then reported_memory plat c
      else if unified_of d c = Some True then max (VRAMBytes d) systemRAM
      else if VRAMBytes d > 0 then VRAMBytes d else 0)"

definition vendor_managed :: "options \<Rightarrow> probe_device \<Rightarrow> bool" where
  "vendor_managed opts d \<longleftrightarrow>
     dKind d = KindGPU \<and> (VendorManagedGPUs opts \<or> dDriver d \<notin> set preparableGPUDrivers)"

definition accel_attrs ::
  "platform \<Rightarrow> options \<Rightarrow> probe_device \<Rightarrow> capability \<Rightarrow> entry option \<Rightarrow> attrs" where
  "accel_attrs plat opts d c e =
     attr_if (vendor_managed opts d) ''vendorManaged'' (bool_attr True)
      (attr_if (unified_of d c \<noteq> None) ''unifiedMemory'' (bool_attr (unified_of d c = Some True))
        (capability_attrs plat d c e
          ((identity_attrs d (base_attrs d))(''indexed'' \<mapsto> bool_attr (e \<noteq> None)))))"

section \<open>The inventory\<close>

definition gpu_count :: "probe_device list \<Rightarrow> nat" where
  "gpu_count ds = length (filter (\<lambda>d. dKind d = KindGPU) ds)"

definition gpu_vendor_count :: "probe_device list \<Rightarrow> string \<Rightarrow> nat" where
  "gpu_vendor_count ds v = length (filter (\<lambda>d. dKind d = KindGPU \<and> vendorName (PCIVendor d) = v) ds)"

definition device_capability :: "probe_device list \<Rightarrow> index \<Rightarrow> system option \<Rightarrow> probe_device \<Rightarrow> capability" where
  "device_capability ds idx sys d =
     capability_of
       (matchLLMFitGPU sys d (vendorName (PCIVendor d)) (gpu_vendor_count ds (vendorName (PCIVendor d)))
          (gpu_count ds))
       (Lookup idx (PCIVendor d) (PCIDevice d))"

definition device_attrs ::
  "platform \<Rightarrow> probe_device list \<Rightarrow> index \<Rightarrow> system option \<Rightarrow> options \<Rightarrow> probe_device \<Rightarrow> attrs" where
  "device_attrs plat ds idx sys opts d =
     (case dKind d of
        KindNIC \<Rightarrow> nic_attrs d
      | KindCPU \<Rightarrow> cpu_attrs d sys
      | _ \<Rightarrow> accel_attrs plat opts d (device_capability ds idx sys d)
               (Lookup idx (PCIVendor d) (PCIDevice d)))"

definition device_memory ::
  "platform \<Rightarrow> probe_device list \<Rightarrow> index \<Rightarrow> nat \<Rightarrow> system option \<Rightarrow> probe_device \<Rightarrow> nat" where
  "device_memory plat ds idx systemRAM sys d =
     (case dKind d of
        KindNIC \<Rightarrow> 0
      | KindCPU \<Rightarrow> cpu_memory plat d sys
      | _ \<Rightarrow> accel_memory plat d (device_capability ds idx sys d) systemRAM)"

definition device_taints :: "options \<Rightarrow> probe_device \<Rightarrow> taint list" where
  "device_taints opts d =
     (if optTaints opts \<and> \<not> fst (Healthy d)
      then [\<lparr>taintKey = DriverName @ ''/unhealthy'', taintValue = snd (Healthy d),
             taintEffect = ''NoSchedule''\<rparr>] else [])"

definition device_entry ::
  "platform \<Rightarrow> probe_device list \<Rightarrow> index \<Rightarrow> nat \<Rightarrow> system option \<Rightarrow> options \<Rightarrow> probe_device \<Rightarrow> device" where
  "device_entry plat ds idx systemRAM sys opts d =
     \<lparr>devName = Name d,
      Attributes = device_attrs plat ds idx sys opts d,
      Capacity = (if device_memory plat ds idx systemRAM sys d > 0
                  then [''memory'' \<mapsto> i64_of_u64 (device_memory plat ds idx systemRAM sys d)]
                  else Map.empty),
      Taints = device_taints opts d\<rparr>"

fun keep_first_names :: "string list \<Rightarrow> probe_device list \<Rightarrow> probe_device list" where
  "keep_first_names names [] = []"
| "keep_first_names names (d # ds) =
     (if Name d \<in> set names then keep_first_names names ds
      else d # keep_first_names (Name d # names) ds)"

definition BuildDevices ::
  "platform \<Rightarrow> probe_device list \<Rightarrow> index \<Rightarrow> nat \<Rightarrow> system option \<Rightarrow> options \<Rightarrow> device list" where
  "BuildDevices plat devices idx systemRAM sys opts =
     map (device_entry plat devices idx systemRAM sys opts) (keep_first_names [] devices)"

definition BuildResources :: "string \<Rightarrow> device list \<Rightarrow> (string \<times> device list list) list" where
  \<comment> \<open>the pools: one named after the node, of one slice\<close>
  "BuildResources nodeName devices = [(nodeName, [devices])]"

section \<open>Coexistence with vendor drivers\<close>

definition DefaultVendorDrivers :: string where
  "DefaultVendorDrivers = ''gpu.nvidia.com,gpu.amd.com,gpu.intel.com,neuron.amazonaws.com''"

definition ParseVendorDrivers :: "string \<Rightarrow> string set" where
  "ParseVendorDrivers flag =
     set (filter (\<lambda>d. d \<noteq> []) (map trim_space (split_on (CHR '','') flag)))"

definition foreign_drivers :: "string set \<Rightarrow> string list \<Rightarrow> string list" where
  "foreign_drivers vendors drivers =
     sort_strings (remdups (filter (\<lambda>d. d \<notin> vendors \<and> d \<noteq> DriverName) drivers))"

text \<open>\<open>listed\<close> is the answer to listing the ResourceSlices of the node.\<close>

definition VendorGPUsPresent ::
  "string set \<Rightarrow> resource_slice list result \<Rightarrow> (bool \<times> string list) result" where
  "VendorGPUsPresent vendors listed =
     (if vendors = {} then Inr (False, [])
      else case listed of
             Inl err \<Rightarrow> Inl err
           | Inr slices \<Rightarrow>
               Inr (\<exists>s \<in> set slices. Driver s \<in> vendors, foreign_drivers vendors (map Driver slices)))"

section \<open>The published attributes\<close>

lemma attr_if_simps [build_simps]:
  "attr_if c k v a k = (if c then Some v else a k)"
  "k \<noteq> k' \<Longrightarrow> attr_if c k v a k' = a k'"
  by (simp_all add: attr_if_def)

lemmas builders [build_simps] =
  device_attrs_def nic_attrs_def cpu_attrs_def accel_attrs_def identity_attrs_def base_attrs_def
  index_numbers_def

lemma capability_attrs_keeps [build_simps]:
  assumes "k \<notin> {''source'', ''model'', ''backend'', ''memoryBandwidthGBs'', ''computeTFLOPS''}"
  shows "capability_attrs plat d c e a k = a k"
  using assms
  by (auto simp: capability_attrs_def build_simps split: capability.splits option.splits)

lemma entry_kind: "device_attrs plat ds idx sys opts d ''kind'' = Some (string_attr (kind_name (dKind d)))"
  by (cases "dKind d") (simp_all add: build_simps)

lemma entry_healthy: "device_attrs plat ds idx sys opts d ''healthy'' = Some (bool_attr (fst (Healthy d)))"
  by (cases "dKind d") (simp_all add: build_simps)

lemma entry_vendorManaged: "device_attrs plat ds idx sys opts d ''vendorManaged'' =
    (if vendor_managed opts d then Some (bool_attr True) else None)"
  by (cases "dKind d") (simp_all add: build_simps vendor_managed_def)

text \<open>Where the two numbers of the fit inequality come from.\<close>

definition published_bandwidth :: "platform \<Rightarrow> capability \<Rightarrow> entry option \<Rightarrow> int option" where
  "published_bandwidth plat c e =
     (case c of
        FromLLMFit g \<Rightarrow>
          if positive (MemoryBandwidthGBps g) then Some (f64_to_i64 plat (the (MemoryBandwidthGBps g)))
          else Option.bind e (\<lambda>x. if eMemoryBandwidthGBs x > 0 then Some (eMemoryBandwidthGBs x) else None)
      | FromIndex x \<Rightarrow> if eMemoryBandwidthGBs x > 0 then Some (eMemoryBandwidthGBs x) else None
      | FromProbe \<Rightarrow> None)"

definition published_compute :: "capability \<Rightarrow> entry option \<Rightarrow> int option" where
  "published_compute c e =
     (case c of
        FromProbe \<Rightarrow> None
      | FromIndex x \<Rightarrow> if eComputeTFLOPS x > 0 then Some (eComputeTFLOPS x) else None
      | FromLLMFit g \<Rightarrow> Option.bind e (\<lambda>x. if eComputeTFLOPS x > 0 then Some (eComputeTFLOPS x) else None))"

lemma entry_numbers:
  "device_attrs plat ds idx sys opts d ''memoryBandwidthGBs'' =
     (if dKind d \<in> {KindGPU, KindNPU}
      then map_option int_attr (published_bandwidth plat (device_capability ds idx sys d)
             (Lookup idx (PCIVendor d) (PCIDevice d))) else None)"
  "device_attrs plat ds idx sys opts d ''computeTFLOPS'' =
     (if dKind d \<in> {KindGPU, KindNPU}
      then map_option int_attr (published_compute (device_capability ds idx sys d)
             (Lookup idx (PCIVendor d) (PCIDevice d))) else None)"
  by (cases "dKind d"; simp add: build_simps capability_attrs_def published_bandwidth_def
        published_compute_def split: capability.split option.split)+

section \<open>Facts about the inventory\<close>

lemma keep_first_names_facts:
  "distinct (map Name (keep_first_names names ds)) \<and>
   set (keep_first_names names ds) \<subseteq> set ds \<and>
   Name ` set (keep_first_names names ds) \<inter> set names = {}"
proof (induction names ds rule: keep_first_names.induct)
  case (2 names d ds)
  show ?case
  proof (cases "Name d \<in> set names")
    case True
    with 2(1) [OF True] show ?thesis by auto
  next
    case False
    note IH = 2(2) [OF False]
    then have "Name d \<notin> Name ` set (keep_first_names (Name d # names) ds)"
      by (metis disjoint_iff list.set_intros(1))
    with IH False show ?thesis by auto
  qed
qed simp

lemma keep_first_names_find:
  "n \<notin> set names \<Longrightarrow>
     find (\<lambda>d. Name d = n) (keep_first_names names ds) = find (\<lambda>d. Name d = n) ds"
proof (induction names ds rule: keep_first_names.induct)
  case (2 names d ds)
  show ?case
  proof (cases "Name d \<in> set names")
    case True
    then have "Name d \<noteq> n" using 2(3) by metis
    with True 2(1) 2(3) show ?thesis by simp
  next
    case False
    with 2(2) [OF False] 2(3) show ?thesis by (cases "Name d = n") simp_all
  qed
qed simp

lemma find_eq_distinct:
  "distinct (map f xs) \<Longrightarrow> x \<in> set xs \<Longrightarrow> find (\<lambda>y. f y = f x) xs = Some x"
  by (induction xs) force+

lemma drop_partial_rune_cut:
  "s \<noteq> [] \<and> \<not> valid_utf8 s \<Longrightarrow> drop_partial_rune s = drop_partial_rune (butlast s)"
  by (subst drop_partial_rune.simps) (rule if_P)

lemma drop_partial_rune_done: "\<not> (s \<noteq> [] \<and> \<not> valid_utf8 s) \<Longrightarrow> drop_partial_rune s = s"
  by (subst drop_partial_rune.simps) (rule if_not_P)

lemma drop_partial_rune_take: "\<exists>m \<le> length s. drop_partial_rune s = take m s"
proof (induction s rule: drop_partial_rune.induct)
  case (1 s)
  show ?case
  proof (cases "s \<noteq> [] \<and> \<not> valid_utf8 s")
    case True
    with 1 obtain m where m: "m \<le> length (butlast s)" "drop_partial_rune (butlast s) = take m (butlast s)" by blast
    then have "drop_partial_rune s = take m s"
      by (simp add: drop_partial_rune_cut [OF True] butlast_conv_take)
    moreover have "m \<le> length s" using m(1) by simp
    ultimately show ?thesis by blast
  next
    case False
    then show ?thesis by (intro exI [of _ "length s"]) (simp add: drop_partial_rune_done [OF False])
  qed
qed

lemma drop_partial_rune_valid: "valid_utf8 (drop_partial_rune s)"
proof (induction s rule: drop_partial_rune.induct)
  case (1 s)
  show ?case
  proof (cases "s \<noteq> [] \<and> \<not> valid_utf8 s")
    case True
    with 1 show ?thesis by (simp add: drop_partial_rune_cut [OF True])
  next
    case False
    then show ?thesis unfolding drop_partial_rune_done [OF False]
      by (cases "s = []") (auto simp: valid_utf8.simps [of "[]"])
  qed
qed

text \<open>Nothing shorter than the longest valid prefix is returned.\<close>

lemma drop_partial_rune_longest:
  "m \<le> length s \<Longrightarrow> valid_utf8 (take m s) \<Longrightarrow> m \<le> length (drop_partial_rune s)"
proof (induction s rule: drop_partial_rune.induct)
  case (1 s)
  show ?case
  proof (cases "s \<noteq> [] \<and> \<not> valid_utf8 s")
    case True
    with 1(3) have "m \<noteq> length s" by auto
    with 1(2) have m: "m \<le> length (butlast s)" by simp
    then have "take m (butlast s) = take m s" by (simp add: butlast_conv_take)
    with 1(1) [OF True m] 1(3) show ?thesis by (simp add: drop_partial_rune_cut [OF True])
  next
    case False
    with 1(2) show ?thesis by (simp add: drop_partial_rune_done [OF False])
  qed
qed

text \<open>A valid string has a rune boundary within any three bytes.\<close>

lemma valid_prefix_near: "valid_utf8 s \<Longrightarrow> n \<le> length s \<Longrightarrow>
    \<exists>m \<le> n. n \<le> m + 3 \<and> valid_utf8 (take m s)"
proof (induction s arbitrary: n rule: valid_utf8.induct)
  case (1 s)
  show ?case
  proof (cases "s = [] \<or> n < rune_size s")
    case True
    with 1(3) rune_size_le(2) [of s] have "n \<le> 3" by auto
    then show ?thesis by (intro exI [of _ 0]) (simp add: valid_utf8.simps [of "[]"])
  next
    case False
    let ?k = "rune_size s"
    have s: "s \<noteq> []" "?k \<noteq> 0" "valid_utf8 (drop ?k s)"
      using False 1(2) by (auto simp: valid_utf8.simps [of s] split: if_splits)
    with 1 False obtain m where m: "m \<le> n - ?k" "n - ?k \<le> m + 3" "valid_utf8 (take m (drop ?k s))"
      by (metis diff_le_mono length_drop)
    have size: "rune_size (take (?k + m) s) = ?k"
      using s(2) by (simp add: rune_size_take)
    have "valid_utf8 (take (?k + m) s)"
      using s m(3) size by (subst valid_utf8.simps) (simp add: drop_take)
    with m False show ?thesis by (intro exI [of _ "?k + m"]) auto
  qed
qed

section \<open>Sample devices\<close>

definition sample_probed_gpu :: probe_device where
  "sample_probed_gpu =
     (blank_device KindGPU 0)
       \<lparr>PCIVendor := ''1002'', PCIDevice := ''1586'', PCIAddr := ''0000:c3:00.0'',
        dDriver := ''amdgpu'', DevNode := ''/dev/dri/card0'', RenderNode := ''/dev/dri/renderD128''\<rparr>"

definition sample_probed_nvidia :: probe_device where
  "sample_probed_nvidia =
     (blank_device KindGPU 1)
       \<lparr>PCIVendor := ''10de'', PCIDevice := ''ffff'', PCIAddr := ''0000:01:00.0'',
        dDriver := ''nvidia'', DevNode := ''/dev/dri/card1''\<rparr>"

definition sample_options :: options where
  "sample_options = \<lparr>optTaints = False, VendorManagedGPUs = False\<rparr>"

section \<open>Properties\<close>

text \<open>
  C34: the published names are unique, so that one probe quirk cannot make the API server
  reject the pool, and the entry of each name describes the first probed device of that name.
\<close>

theorem published_names_unique:
  "distinct (map devName (BuildDevices plat ds idx ram sys opts)) \<and>
   find (\<lambda>e. devName e = n) (BuildDevices plat ds idx ram sys opts) =
     map_option (device_entry plat ds idx ram sys opts) (find (\<lambda>d. Name d = n) ds)"
proof -
  let ?e = "device_entry plat ds idx ram sys opts"
  have names: "devName (?e d) = Name d" for d by (simp add: device_entry_def)
  have "find (\<lambda>e. devName e = n) (map ?e xs) = map_option ?e (find (\<lambda>d. Name d = n) xs)" for xs
    by (induction xs) (simp_all add: names)
  moreover have "map devName (map ?e xs) = map Name xs" for xs by (simp add: names)
  ultimately show ?thesis
    using keep_first_names_facts [of "[]" ds] keep_first_names_find [of n "[]" ds]
    by (simp add: BuildDevices_def del: map_map)
qed

text \<open>
  Truncation keeps attribute values valid UTF-8.  The result of truncating a valid string
  to \<open>n\<close> bytes is a valid prefix of at most \<open>n\<close> bytes, the whole string if it fits and
  otherwise at most three bytes short of \<open>n\<close>.
\<close>

theorem truncate_keeps_utf8:
  assumes "valid_utf8 s"
  shows "valid_utf8 (truncate_utf8 s n) \<and> length (truncate_utf8 s n) \<le> n \<and>
    (\<exists>t. s = truncate_utf8 s n @ t) \<and>
    (if length s \<le> n then truncate_utf8 s n = s else n \<le> length (truncate_utf8 s n) + 3)"
proof (cases "length s \<le> n")
  case True
  with assms show ?thesis by (simp add: truncate_utf8_def)
next
  case False
  let ?w = "take n s"
  have t: "truncate_utf8 s n = drop_partial_rune ?w" using False by (simp add: truncate_utf8_def)
  obtain k where k: "k \<le> length ?w" "drop_partial_rune ?w = take k ?w"
    using drop_partial_rune_take by blast
  have "k \<le> n" using k(1) by simp
  then have "s = take k ?w @ drop k s" by (simp add: min_absorb1)
  then have pre: "\<exists>u. s = truncate_utf8 s n @ u" using t k(2) by metis
  obtain m where m: "m \<le> n" "n \<le> m + 3" "valid_utf8 (take m s)"
    using valid_prefix_near [OF assms, of n] False by auto
  then have "m \<le> length (drop_partial_rune ?w)"
    using False by (intro drop_partial_rune_longest) (simp_all add: min_def)
  with m(2) False t k pre drop_partial_rune_valid [of ?w] show ?thesis by simp
qed

theorem truncate_keeps_utf8_witness:
  "valid_utf8 (truncate_utf8 (''ab'' @ [CHR 0xE2, CHR 0x80, CHR 0x94]) 4) \<and>
   truncate_utf8 (''ab'' @ [CHR 0xE2, CHR 0x80, CHR 0x94]) 4 = ''ab''"
proof
  have "valid_utf8 (''ab'' @ [CHR 0xE2, CHR 0x80, CHR 0x94])" by code_simp
  from truncate_keeps_utf8 [OF this]
  show "valid_utf8 (truncate_utf8 (''ab'' @ [CHR 0xE2, CHR 0x80, CHR 0x94]) 4)" by blast
  show "truncate_utf8 (''ab'' @ [CHR 0xE2, CHR 0x80, CHR 0x94]) 4 = ''ab''" by code_simp
qed

text \<open>
  An accelerator never inherits another card's capability.  The join pairs a probed GPU
  with an entry of the report only if the entry is the only one of the device's vendor and
  stands for at least as many cards as were probed of it, or if there is a single GPU on both
  sides and the entry's name fits no vendor.
\<close>

theorem report_pairing_sound:
  assumes "matchLLMFitGPU sys d vendor same probed = Some g"
  shows "dKind d = KindGPU \<and> (\<exists>s. sys = Some s \<and> g \<in> set (GPUs s) \<and>
    (VendorOf g = vendor \<and> filter (\<lambda>x. VendorOf x = vendor) (GPUs s) = [g] \<and> same \<le> max 1 (gCount g) \<or>
     GPUs s = [g] \<and> VendorOf g = [] \<and> probed = 1))"
proof -
  obtain s where s: "sys = Some s" "dKind d = KindGPU"
    using assms by (auto simp: matchLLMFitGPU_def split: option.splits if_splits)
  consider (one) "filter (\<lambda>x. VendorOf x = vendor) (GPUs s) = [g]"
      "\<not> same > (if gCount g = 0 then 1 else gCount g)"
    | (last) "GPUs s = [g]" "probed = 1" "VendorOf g = []"
    using assms s by (auto simp: matchLLMFitGPU_def split: list.splits if_splits)
  then show ?thesis
  proof cases
    case one
    then have "g \<in> set (filter (\<lambda>x. VendorOf x = vendor) (GPUs s))" by simp
    then have "g \<in> set (GPUs s)" "VendorOf g = vendor" by simp_all
    moreover have "same \<le> max 1 (gCount g)" using one(2) by (simp split: if_splits)
    ultimately show ?thesis using s one(1) by blast
  next
    case last
    with s show ?thesis by simp
  qed
qed

theorem report_pairing_sound_witness:
  "matchLLMFitGPU (Some sample_report) sample_probed_gpu ''amd'' 1 1 = Some (hd (GPUs sample_report)) \<and>
   VendorOf (hd (GPUs sample_report)) = ''amd''"
proof -
  have vendor: "VendorOf (hd (GPUs sample_report)) = ''amd''" by code_simp
  have m: "matchLLMFitGPU (Some sample_report) sample_probed_gpu ''amd'' 1 1 = Some (hd (GPUs sample_report))"
    by code_simp
  from report_pairing_sound [OF m] vendor have "VendorOf (hd (GPUs sample_report)) = ''amd''" by auto
  with m show ?thesis by blast
qed

text \<open>
  Capacity is published only when it is known.  An accelerator that neither the report nor
  the index knows and whose driver exposes no memory file gets no memory capacity and no
  bandwidth, whatever the size of the system's RAM.
\<close>

theorem unknown_card_has_no_capacity:
  assumes "dKind d \<in> {KindGPU, KindNPU}" "VRAMBytes d = 0" "Lookup idx (PCIVendor d) (PCIDevice d) = None"
    and "matchLLMFitGPU sys d (vendorName (PCIVendor d)) (gpu_vendor_count ds (vendorName (PCIVendor d)))
           (gpu_count ds) = None"
  shows "Capacity (device_entry plat ds idx ram sys opts d) = Map.empty \<and>
    Attributes (device_entry plat ds idx ram sys opts d) ''memoryBandwidthGBs'' = None \<and>
    Attributes (device_entry plat ds idx ram sys opts d) ''unifiedMemory'' = None"
proof -
  have c: "device_capability ds idx sys d = FromProbe"
    using assms(3,4) by (simp add: device_capability_def capability_of_def)
  have mem: "device_memory plat ds idx ram sys d = 0"
    using assms(1,2) c by (auto simp: device_memory_def accel_memory_def reported_memory_def unified_of_def)
  have "device_attrs plat ds idx sys opts d ''memoryBandwidthGBs'' = None"
    using assms(1) c by (simp add: entry_numbers published_bandwidth_def)
  moreover have "device_attrs plat ds idx sys opts d ''unifiedMemory'' = None"
    using assms(1,2) c by (auto simp: build_simps unified_of_def)
  ultimately show ?thesis using mem by (simp add: device_entry_def)
qed

theorem unknown_card_has_no_capacity_witness:
  "Capacity (device_entry sample_platform [sample_probed_nvidia] [] 67108864000 None sample_options
     sample_probed_nvidia) = Map.empty"
  by (rule unknown_card_has_no_capacity [THEN conjunct1])
    (simp_all add: sample_probed_nvidia_def blank_device_def Lookup_def matchLLMFitGPU_def)

end
