(* ===== verification/Cdi.thy ===== *)
theory Cdi
  imports Kube Publisher Store Json
begin

text \<open>
  The CDI spec files (\<open>internal/nodeplugin/cdi.go\<close>), the node plugin's only durable state: the
  text of a spec, the atomic write, the removal and the listing.  The spec directory is the
  association list of its entries and their contents.  What the file system does (a step that
  fails, the random part of the temporary name, how much of the data a watcher can see while it
  is being written) is a parameter.
\<close>

section \<open>The CDI spec\<close>

text \<open>A device node of the spec is the struct of its single field, the path.\<close>

record container_edits =
  Env :: "string list"
  DeviceNodes :: "string list"

record cdi_device =
  cdiName :: string
  ContainerEdits :: container_edits

record cdi_spec =
  CDIVersion :: string
  SpecKind :: string
  SpecDevices :: "cdi_device list"

definition cdiVersion :: string where "cdiVersion = ''0.6.0''"
definition cdiKind :: string where "cdiKind = ''llmfit.ai/device''"

definition qualifiedName :: "string \<Rightarrow> string" where
  "qualifiedName deviceName = cdiKind @ ''='' @ deviceName"

definition spec_file :: "string \<Rightarrow> string" where
  \<comment> \<open>\<open>specPath\<close>, relative to the directory\<close>
  "spec_file uid = ''llmfit.ai-'' @ uid @ ''.json''"

definition json_edits :: "nat \<Rightarrow> container_edits \<Rightarrow> string" where
  "json_edits n e =
     json_object n
       ((if Env e = [] then [] else [json_member ''env'' (json_array (Suc n) (map json_string (Env e)))]) @
        (if DeviceNodes e = [] then []
         else [json_member ''deviceNodes''
                 (json_array (Suc n)
                   (map (\<lambda>p. json_object (Suc (Suc n)) [json_member ''path'' (json_string p)])
                     (DeviceNodes e)))]))"

definition json_device :: "nat \<Rightarrow> cdi_device \<Rightarrow> string" where
  "json_device n c =
     json_object n
       [json_member ''name'' (json_string (cdiName c)),
        json_member ''containerEdits'' (json_edits (Suc n) (ContainerEdits c))]"

definition json_spec :: "cdi_spec \<Rightarrow> string" where
  \<comment> \<open>without devices the slice is nil\<close>
  "json_spec s =
     json_object 0
       [json_member ''cdiVersion'' (json_string (CDIVersion s)),
        json_member ''kind'' (json_string (SpecKind s)),
        json_member ''devices''
          (if SpecDevices s = [] then ''null'' else json_array 1 (map (json_device 2) (SpecDevices s)))]"

definition spec_text :: "cdi_device list \<Rightarrow> string" where
  "spec_text devices = json_spec \<lparr>CDIVersion = cdiVersion, SpecKind = cdiKind, SpecDevices = devices\<rparr>"

section \<open>Spec files\<close>

type_synonym cdi_dir = "(string \<times> string) list"

datatype write_stage = AtMkdir | AtCreate | AtWrite | AtSync | AtClose | AtRename

record write_io =
  wFault :: "(write_stage \<times> string) option"
  wTmp :: string
  wVisible :: "nat list"
  wLeftover :: bool

text \<open>
  What the file system does during one write: the step that fails, if any; the random part of
  the temporary name; the lengths of the temporary file a watcher may observe; and whether the
  deferred removal of the temporary file fails.
\<close>

definition tmp_file :: "write_io \<Rightarrow> string" where
  "tmp_file io = ''.llmfit-'' @ wTmp io @ ''.json.tmp''"

definition tmp_states :: "write_io \<Rightarrow> string \<Rightarrow> cdi_dir \<Rightarrow> cdi_dir list" where
  \<comment> \<open>from the creation of the temporary file to the last byte written\<close>
  "tmp_states io data dir =
     AList.update (tmp_file io) [] dir #
     map (\<lambda>k. AList.update (tmp_file io) (take k data) dir) (wVisible io)"

definition tmp_cleanup :: "write_io \<Rightarrow> string \<Rightarrow> cdi_dir \<Rightarrow> cdi_dir" where
  "tmp_cleanup io data dir =
     (if wLeftover io then AList.update (tmp_file io) data dir else dir)"

definition write_file :: "string \<Rightarrow> string \<Rightarrow> cdi_dir \<Rightarrow> cdi_dir" where
  \<comment> \<open>the directory after the rename\<close>
  "write_file uid data dir = AList.update (spec_file uid) data dir"

definition writeSpec ::
  "write_io \<Rightarrow> string \<Rightarrow> cdi_device list \<Rightarrow> cdi_dir \<Rightarrow> string option \<times> cdi_dir list" where
  \<comment> \<open>the error, and every directory state a watcher may see, the last one final\<close>
  "writeSpec io uid devices dir =
     (case wFault io of
        Some (AtMkdir, e) \<Rightarrow> (Some (''creating CDI dir: '' @ e), [dir])
      | Some (AtCreate, e) \<Rightarrow> (Some e, [dir])
      | Some (_, e) \<Rightarrow>
          (Some e, dir # tmp_states io (spec_text devices) dir @
                   [tmp_cleanup io (spec_text devices) dir])
      | None \<Rightarrow>
          (None, dir # tmp_states io (spec_text devices) dir @
                 [AList.update (tmp_file io) (spec_text devices) dir,
                  write_file uid (spec_text devices) dir]))"

definition removeSpec :: "string option \<Rightarrow> string \<Rightarrow> cdi_dir \<Rightarrow> string option \<times> cdi_dir" where
  \<comment> \<open>the first argument: an error of \<open>os.Remove\<close> other than that the file does not exist\<close>
  "removeSpec fault uid dir =
     (case fault of
        Some e \<Rightarrow> (Some e, dir)
      | None \<Rightarrow>
          if map_of dir (spec_file uid) = None then (None, dir)
          else (None, AList.delete (spec_file uid) dir))"

definition spec_name :: "string \<Rightarrow> bool" where
  \<comment> \<open>the glob \<open>llmfit.ai-*.json\<close>\<close>
  "spec_name f \<longleftrightarrow> has_prefix f ''llmfit.ai-'' \<and> has_suffix (drop 10 f) ''.json''"

definition specUIDs :: "cdi_dir \<Rightarrow> string list" where
  "specUIDs dir =
     map (\<lambda>f. trim_prefix (trim_suffix f ''.json'') ''llmfit.ai-'')
       (filter spec_name (sort_strings (map fst dir)))"

section \<open>Spec files by claim\<close>

lemma spec_file_inject [simp]: "spec_file u = spec_file v \<longleftrightarrow> u = v"
  by (simp add: spec_file_def)

lemma tmp_file_not_spec [simp]: "tmp_file io \<noteq> spec_file u" "spec_file u \<noteq> tmp_file io"
  by (simp_all add: tmp_file_def spec_file_def)

lemma has_suffix_iff: "has_suffix s p \<longleftrightarrow> (\<exists>t. s = t @ p)"
proof -
  have "(\<exists>t. rev s = rev p @ t) \<longleftrightarrow> (\<exists>t. s = t @ p)"
    by (metis rev_append rev_rev_ident)
  then show ?thesis by (simp add: has_suffix_def has_prefix_iff)
qed

lemma spec_name_iff: "spec_name f \<longleftrightarrow> (\<exists>u. f = spec_file u)"
proof -
  have "spec_name (''llmfit.ai-'' @ t) \<longleftrightarrow> has_suffix t ''.json''" for t
    by (simp add: spec_name_def has_prefix_def)
  moreover have "spec_name f \<Longrightarrow> \<exists>t. f = ''llmfit.ai-'' @ t"
    unfolding spec_name_def has_prefix_iff by blast
  ultimately show ?thesis
    unfolding spec_file_def has_suffix_iff by (metis append.assoc same_append_eq)
qed

lemma spec_file_uid [simp]: "trim_prefix (trim_suffix (spec_file u) ''.json'') ''llmfit.ai-'' = u"
proof -
  have "spec_file u = (''llmfit.ai-'' @ u) @ ''.json''" by (simp add: spec_file_def)
  then show ?thesis by (simp only: trim_suffix_append trim_prefix_append)
qed

lemma bex_range: "(\<exists>f \<in> A. (\<exists>v. f = g v) \<and> u = h f) \<longleftrightarrow> (\<exists>v. g v \<in> A \<and> u = h (g v))"
  by blast

lemma set_specUIDs: "u \<in> set (specUIDs dir) \<longleftrightarrow> map_of dir (spec_file u) \<noteq> None"
proof -
  let ?uid = "\<lambda>f. trim_prefix (trim_suffix f ''.json'') ''llmfit.ai-''"
  have "u \<in> set (specUIDs dir) \<longleftrightarrow> (\<exists>f \<in> fst ` set dir. spec_name f \<and> u = ?uid f)"
    unfolding specUIDs_def by auto
  also have "\<dots> \<longleftrightarrow> (\<exists>v. spec_file v \<in> fst ` set dir \<and> u = ?uid (spec_file v))"
    unfolding spec_name_iff by (rule bex_range)
  also have "\<dots> \<longleftrightarrow> spec_file u \<in> fst ` set dir" unfolding spec_file_uid by blast
  finally show ?thesis by (simp add: map_of_eq_None_iff)
qed

text \<open>
  The directory is a keyed store of spec texts under claim UIDs: writing is the rename of a
  completed file, deleting is \<open>removeSpec\<close>.
\<close>

definition spec_of :: "cdi_dir \<Rightarrow> string \<Rightarrow> string option" where
  "spec_of dir uid = map_of dir (spec_file uid)"

definition drop_spec :: "string \<Rightarrow> cdi_dir \<Rightarrow> cdi_dir" where
  "drop_spec uid dir = snd (removeSpec None uid dir)"

lemma spec_of_drop: "spec_of (drop_spec uid dir) u = (if u = uid then None else spec_of dir u)"
  by (auto simp: spec_of_def drop_spec_def removeSpec_def delete_conv')

interpretation specs: keyed_store spec_of write_file drop_spec
  by unfold_locales (simp_all add: spec_of_drop, simp_all add: spec_of_def write_file_def update_conv')

lemma removeSpec_ok: "removeSpec None uid dir = (None, drop_spec uid dir)"
  by (simp add: drop_spec_def removeSpec_def)

lemma drop_spec_other: "f \<noteq> spec_file uid \<Longrightarrow> map_of (drop_spec uid dir) f = map_of dir f"
  by (simp add: drop_spec_def removeSpec_def delete_conv')

lemma writeSpec_error:
  "fst (writeSpec io uid cs dir) =
     map_option (\<lambda>(stage, e). if stage = AtMkdir then ''creating CDI dir: '' @ e else e) (wFault io)"
  by (auto simp: writeSpec_def split: option.splits write_stage.splits)

lemma writeSpec_last:
  "f \<noteq> tmp_file io \<Longrightarrow>
     map_of (last (snd (writeSpec io uid cs dir))) f =
       (if wFault io = None \<and> f = spec_file uid then Some (spec_text cs) else map_of dir f)"
  by (auto simp: writeSpec_def tmp_cleanup_def write_file_def update_conv'
      split: option.splits write_stage.splits)

lemma writeSpec_states:
  assumes "d \<in> set (snd (writeSpec io uid devices dir))" and "f \<noteq> tmp_file io"
  shows "map_of d f = map_of dir f \<or> f = spec_file uid \<and> map_of d f = Some (spec_text devices)"
  using assms
  by (auto simp: writeSpec_def tmp_states_def tmp_cleanup_def write_file_def update_conv'
      split: option.splits write_stage.splits if_splits)

lemma removeSpec_spec_of:
  "spec_of (snd (removeSpec fault uid dir)) u = (if u = uid \<and> fault = None then None else spec_of dir u) \<and>
   fst (removeSpec fault uid dir) = fault \<and>
   (\<not> spec_name f \<longrightarrow> map_of (snd (removeSpec fault uid dir)) f = map_of dir f)"
proof (cases fault)
  case None
  then show ?thesis
    using specs.get_del [of uid dir u] drop_spec_other [of f uid dir]
    by (auto simp: removeSpec_ok spec_name_iff)
qed (simp add: removeSpec_def)

section \<open>Properties\<close>

text \<open>
  C26: a watcher never reads a partial spec, and a failed write changes no spec.  In every state
  of the directory during a write, every file but the temporary one is as before, except that
  the claim's file may already have its complete text; at the end it has exactly when no error
  was returned.
\<close>

theorem write_spec_atomic:
  assumes "writeSpec io uid devices dir = (err, dirs)"
  shows "(\<forall>d \<in> set dirs. \<forall>f. f \<noteq> tmp_file io \<longrightarrow>
      map_of d f = map_of dir f \<or> f = spec_file uid \<and> map_of d f = Some (spec_text devices)) \<and>
    (\<forall>f. f \<noteq> tmp_file io \<longrightarrow>
      map_of (last dirs) f =
        (if err = None \<and> f = spec_file uid then Some (spec_text devices) else map_of dir f))"
proof
  show "\<forall>d \<in> set dirs. \<forall>f. f \<noteq> tmp_file io \<longrightarrow>
      map_of d f = map_of dir f \<or> f = spec_file uid \<and> map_of d f = Some (spec_text devices)"
    using writeSpec_states [of _ io uid devices dir] by (simp add: assms)
  show "\<forall>f. f \<noteq> tmp_file io \<longrightarrow> map_of (last dirs) f =
      (if err = None \<and> f = spec_file uid then Some (spec_text devices) else map_of dir f)"
    using writeSpec_last [of _ io uid devices dir] writeSpec_error [of io uid devices dir]
    by (simp add: assms)
qed

definition sample_io :: write_io where
  "sample_io = \<lparr>wFault = None, wTmp = ''42'', wVisible = [10], wLeftover = False\<rparr>"

theorem write_spec_atomic_witness:
  "map_of (last (snd (writeSpec (sample_io\<lparr>wFault := Some (AtSync, ''no space'')\<rparr>) ''u1'' [] [(''x'', ''y'')]))) ''x'' =
     Some ''y''"
proof -
  let ?io = "sample_io\<lparr>wFault := Some (AtSync, ''no space'')\<rparr>"
  obtain err dirs where w: "writeSpec ?io ''u1'' [] [(''x'', ''y'')] = (err, dirs)" by fastforce
  have "''x'' \<noteq> tmp_file ?io" "''x'' \<noteq> spec_file ''u1''" by (simp_all add: tmp_file_def spec_file_def)
  with write_spec_atomic [OF w] show ?thesis by (simp add: w)
qed

end
