(* ===== verification/JsonRoundtrip.thy ===== *)
theory JsonRoundtrip
  imports Json
begin

text \<open>
  What the writer of theory Json prints, its reader reads back: a string with each invalid byte
  replaced, and every value whose numbers are natural, at any indentation.
\<close>

section \<open>Reading back what was written\<close>

text \<open>Writing a string replaces each invalid byte; a valid string is kept.\<close>

function to_valid :: "string \<Rightarrow> string" where
  "to_valid s =
     (if s = [] then []
      else if rune_size s = 0 then replacement @ to_valid (tl s)
      else take (rune_size s) s @ to_valid (drop (rune_size s) s))"
  by pat_completeness auto
termination
  by (relation "measure length") auto

declare to_valid.simps [simp del]

lemma to_valid_id: "valid_utf8 s \<Longrightarrow> to_valid s = s"
proof (induction s rule: to_valid.induct)
  case (1 s)
  show ?case
  proof (cases "s = []")
    case False
    with 1(3) have "rune_size s \<noteq> 0" "valid_utf8 (drop (rune_size s) s)"
      by (auto simp: valid_utf8.simps [of s] split: if_splits)
    with 1(2) [OF False] show ?thesis by (simp add: to_valid.simps [of s] False)
  qed (simp add: to_valid.simps [of "[]"])
qed

lemma continues_append: "i < length s \<Longrightarrow> continues (s @ x) i lo hi \<longleftrightarrow> continues s i lo hi"
  by (simp add: continues_def nth_append)

lemma rune_size_at_append:
  assumes "rune_size_at b s = k" "k \<noteq> 0" "k \<le> length s"
  shows "rune_size_at b (take k s @ x) = k"
proof -
  have c: "continues (take k s @ x) i lo hi \<longleftrightarrow> continues s i lo hi" if "i < k" for i lo hi
    using that assms(3) by (simp add: continues_append continues_take)
  consider "b < 128" | "194 \<le> b" "b \<le> 223" | "224 \<le> b" "b \<le> 239" | "240 \<le> b" "b \<le> 244"
    | (none) "\<not> b < 128" "\<not> (194 \<le> b \<and> b \<le> 223)" "\<not> (224 \<le> b \<and> b \<le> 239)" "\<not> (240 \<le> b \<and> b \<le> 244)"
    by blast
  then show ?thesis
  proof cases
    case none
    then have "rune_size_at b s = 0" unfolding rune_size_at_def by (simp only: if_False)
    with assms(1,2) show ?thesis by simp
  next
    case 1
    then show ?thesis using assms(1) by (simp add: rune_size_at_def)
  next
    case 2
    then have r: "rune_size_at b z = (if continues z 1 128 191 then 2 else 0)" for z
      by (simp add: rune_size_at_def)
    with assms(1,2) have "k = 2" "continues s 1 128 191" by (simp_all split: if_split_asm)
    then show ?thesis using c [of 1] unfolding r by simp
  next
    case 3
    define lo hi :: nat where "lo = (if b = 224 then 160 else 128)" and "hi = (if b = 237 then 159 else 191)"
    have r: "rune_size_at b z = (if continues z 1 lo hi \<and> continues z 2 128 191 then 3 else 0)" for z
      using 3 by (simp add: rune_size_at_def lo_def [symmetric] hi_def [symmetric])
    with assms(1,2) have "k = 3" "continues s 1 lo hi" "continues s 2 128 191"
      by (simp_all split: if_split_asm)
    then show ?thesis using c [of 1] c [of 2] unfolding r by simp
  next
    case 4
    define lo hi :: nat where "lo = (if b = 240 then 144 else 128)" and "hi = (if b = 244 then 143 else 191)"
    have r: "rune_size_at b z =
        (if continues z 1 lo hi \<and> continues z 2 128 191 \<and> continues z 3 128 191 then 4 else 0)" for z
      using 4 by (simp add: rune_size_at_def lo_def [symmetric] hi_def [symmetric])
    with assms(1,2) have "k = 4" "continues s 1 lo hi" "continues s 2 128 191" "continues s 3 128 191"
      by (simp_all split: if_split_asm)
    then show ?thesis using c [of 1] c [of 2] c [of 3] unfolding r by simp
  qed
qed

lemma rune_size_append:
  assumes "rune_size s \<noteq> 0"
  shows "rune_size (take (rune_size s) s @ x) = rune_size s"
proof (cases s)
  case (Cons c t)
  have "rune_size_at (byte c) s = rune_size s" by (simp add: rune_size_def Cons)
  then have "rune_size_at (byte c) (take (rune_size s) s @ x) = rune_size s"
    using rune_size_at_append [of "byte c" s "rune_size s" x] assms rune_size_le(1) [of s] by simp
  then show ?thesis using assms by (simp add: rune_size_def Cons take_Cons' split: if_splits)
qed (use assms in \<open>simp add: rune_size_def\<close>)

lemma rune_size_ascii: "byte c < 128 \<Longrightarrow> rune_size (c # s) = 1"
  by (simp add: rune_size_def rune_size_at_def)

lemma hex_char_value: "d < 16 \<Longrightarrow> hex_value (hex_char d) = Some d"
  by (simp add: hex_value_def hex_char_def is_digit_def byte_def)

lemma byte_char [simp]: "char_of (byte c) = c"
  by (simp add: byte_def)

lemma byte_less: "byte c < 256"
  by (simp add: byte_def of_char_def) 

lemma read_short_escape:
  "(c, x) \<in> {(CHR ''b'', CHR 0x08), (CHR ''f'', CHR 0x0C), (CHR ''n'', CHR 0x0A),
     (CHR ''r'', CHR 0x0D), (CHR ''t'', CHR 0x09), (CHR 0x22, CHR 0x22), (CHR 0x5C, CHR 0x5C)} \<Longrightarrow>
   read_escape (c # s) = Some ([x], s)"
  by (auto simp: read_escape_def)

lemma read_byte_escape:
  "byte c < 128 \<Longrightarrow>
   read_escape (''u00'' @ [hex_char (byte c div 16), hex_char (byte c mod 16)] @ s) = Some ([c], s)"
proof -
  assume c: "byte c < 128"
  then have d: "byte c div 16 < 16" "byte c mod 16 < 16" by (simp_all add: less_mult_imp_div_less)
  have z: "hex_value (CHR ''0'') = Some 0" by code_simp
  have "16 * (byte c div 16) + byte c mod 16 = byte c" by simp
  then have "hex4 (''00'' @ [hex_char (byte c div 16), hex_char (byte c mod 16)] @ s) = Some (byte c)"
    by (simp add: z hex_char_value d)
  then show ?thesis using c
    by (simp add: read_escape_def read_unicode_def is_surrogate_def utf8_encode_def)
qed

lemma read_fffd: "read_escape (''ufffd'' @ s) = Some (replacement, s)"
proof -
  have "hex4 (''fffd'' @ s) = Some 0xFFFD" by (simp add: hex_value_def byte_def is_digit_def)
  moreover have "utf8_encode 0xFFFD = replacement" by code_simp
  ultimately show ?thesis by (simp add: read_escape_def read_unicode_def is_surrogate_def)
qed

lemma read_separators:
  "read_escape (''u2028'' @ s) = Some ([CHR 0xE2, CHR 0x80, CHR 0xA8], s)"
  "read_escape (''u2029'' @ s) = Some ([CHR 0xE2, CHR 0x80, CHR 0xA9], s)"
proof -
  have "hex4 (''2028'' @ s) = Some 0x2028" "hex4 (''2029'' @ s) = Some 0x2029"
    by (simp_all add: hex_value_def byte_def is_digit_def)
  moreover have "utf8_encode 0x2028 = [CHR 0xE2, CHR 0x80, CHR 0xA8]"
    "utf8_encode 0x2029 = [CHR 0xE2, CHR 0x80, CHR 0xA9]" by code_simp+
  ultimately show "read_escape (''u2028'' @ s) = Some ([CHR 0xE2, CHR 0x80, CHR 0xA8], s)"
    "read_escape (''u2029'' @ s) = Some ([CHR 0xE2, CHR 0x80, CHR 0xA9], s)"
    by (simp_all add: read_escape_def read_unicode_def is_surrogate_def)
qed

lemma take3_separator:
  assumes "take 3 s = [CHR 0xE2, CHR 0x80, c]" "c = CHR 0xA8 \<or> c = CHR 0xA9"
  shows "rune_size s = 3"
proof -
  have "byte (CHR 0xE2) = 226" "byte (CHR 0x80) = 128" "byte (CHR 0xA8) = 168" "byte (CHR 0xA9) = 169"
    by (simp_all add: byte_def)
  moreover obtain t where "s = CHR 0xE2 # CHR 0x80 # c # t"
    using assms(1) by (metis append_Cons append_Nil append_take_drop_id)
  ultimately show ?thesis using assms(2)
    by (auto simp: rune_size_def rune_size_at_def continues_def)
qed

lemma read_json_escape:
  assumes "s \<noteq> []"
  shows "read_string (json_escape s @ x) =
    prepend (if rune_size s = 0 then replacement else take (rune_size s) s) (read_string x)"
proof -
  obtain c t where s: "s = c # t" using assms by (cases s) auto
  let ?bs = "CHR 0x5C"
  have esc: "read_string (?bs # e @ x) = prepend y (read_string x)"
    if "read_escape (e @ x) = Some (y, x)" for e y
    using that by (simp add: read_string_Cons)
  have one: "take (rune_size s) s = [c]" "rune_size s \<noteq> 0" if "byte c < 128"
    using that by (simp_all add: s rune_size_ascii)
  note short = read_short_escape [of _ _ x, simplified]
  define n where "n = byte c"
  have nc: "c = char_of n" by (simp add: n_def)
  consider (bad) "rune_size s = 0"
    | (quote) "rune_size s \<noteq> 0" "n = 34 \<or> n = 92"
    | (short) "rune_size s \<noteq> 0" "n \<in> {8, 12, 10, 13, 9}"
    | (hexa) "rune_size s \<noteq> 0" "n \<notin> {34, 92, 8, 12, 10, 13, 9}" "n < 32 \<or> n = 60 \<or> n = 62 \<or> n = 38"
    | (ls) "rune_size s \<noteq> 0" "take 3 s = [CHR 0xE2, CHR 0x80, CHR 0xA8]"
    | (ps) "rune_size s \<noteq> 0" "take 3 s = [CHR 0xE2, CHR 0x80, CHR 0xA9]"
    | (plain) "rune_size s \<noteq> 0" "n \<notin> {34, 92}" "\<not> n < 32" "n \<notin> {60, 62, 38}"
        "take 3 s \<noteq> [CHR 0xE2, CHR 0x80, CHR 0xA8]" "take 3 s \<noteq> [CHR 0xE2, CHR 0x80, CHR 0xA9]"
    by blast
  then show ?thesis
  proof cases
    case bad
    then have "json_escape s = ?bs # ''ufffd''" by (simp add: json_escape_def)
    with bad esc [OF read_fffd] show ?thesis by simp
  next
    case quote
    then have e: "json_escape s = ?bs # [c]" by (auto simp: json_escape_def s n_def)
    have "char_of (34::nat) = CHR 0x22" "char_of (92::nat) = CHR 0x5C" by code_simp+
    then have "c = CHR 0x22 \<or> c = CHR 0x5C" using quote(2) nc by auto
    then have "read_escape ([c] @ x) = Some ([c], x)" by (auto simp: short)
    then have "read_string (?bs # [c] @ x) = prepend [c] (read_string x)" by (rule esc)
    with one quote(2) show ?thesis by (auto simp: e n_def)
  next
    case short
    then obtain d where d: "json_escape s = ?bs # [d]" "read_escape ([d] @ x) = Some ([c], x)"
    proof -
      assume that: "\<And>d. json_escape s = ?bs # [d] \<Longrightarrow> read_escape ([d] @ x) = Some ([c], x) \<Longrightarrow> thesis"
      have ch: "char_of (8::nat) = CHR 0x08" "char_of (12::nat) = CHR 0x0C" "char_of (10::nat) = CHR 0x0A"
        "char_of (13::nat) = CHR 0x0D" "char_of (9::nat) = CHR 0x09" by code_simp+
      from short(2) consider "n = 8" | "n = 12" | "n = 10" | "n = 13" | "n = 9" by blast
      then show thesis
      proof cases
        case 1
        then have "json_escape s = [?bs, CHR ''b'']" using short(1) by (simp add: json_escape_def s n_def)
        with that [of "CHR ''b''"] 1 nc show thesis by (simp add: read_escape_def ch)
      next
        case 2
        then have "json_escape s = [?bs, CHR ''f'']" using short(1) by (simp add: json_escape_def s n_def)
        with that [of "CHR ''f''"] 2 nc show thesis by (simp add: read_escape_def ch)
      next
        case 3
        then have "json_escape s = [?bs, CHR ''n'']" using short(1) by (simp add: json_escape_def s n_def)
        with that [of "CHR ''n''"] 3 nc show thesis by (simp add: read_escape_def ch)
      next
        case 4
        then have "json_escape s = [?bs, CHR ''r'']" using short(1) by (simp add: json_escape_def s n_def)
        with that [of "CHR ''r''"] 4 nc show thesis by (simp add: read_escape_def ch)
      next
        case 5
        then have "json_escape s = [?bs, CHR ''t'']" using short(1) by (simp add: json_escape_def s n_def)
        with that [of "CHR ''t''"] 5 nc show thesis by (simp add: read_escape_def ch)
      qed
    qed
    have "n < 128" using short(2) by auto
    with esc [OF d(2)] one show ?thesis by (simp add: d(1) n_def)
  next
    case hexa
    then have e: "json_escape s = ?bs # ''u00'' @ [hex_char (n div 16), hex_char (n mod 16)]"
      by (simp add: json_escape_def s n_def [symmetric])
    have n: "byte c < 128" using hexa(3) by (auto simp: n_def)
    from esc [of "''u00'' @ [hex_char (n div 16), hex_char (n mod 16)]" "[c]"] read_byte_escape [OF n, of x]
    show ?thesis using one [OF n] by (simp add: e n_def)
  next
    case ls
    then have r: "rune_size s = 3" by (intro take3_separator) auto
    have c: "c = CHR 0xE2" using ls(2) by (simp add: s take_Cons')
    then have "json_escape s = ?bs # ''u2028''" using ls by (simp add: json_escape_def s byte_def)
    with esc [OF read_separators(1)] r ls(2) show ?thesis by simp
  next
    case ps
    then have r: "rune_size s = 3" by (intro take3_separator) auto
    have c: "c = CHR 0xE2" using ps(2) by (simp add: s take_Cons')
    then have "json_escape s = ?bs # ''u2029''" using ps by (simp add: json_escape_def s byte_def)
    with esc [OF read_separators(2)] r ps(2) show ?thesis by simp
  next
    case plain
    let ?k = "rune_size s"
    have e: "json_escape s = take ?k s"
      using plain by (auto simp: json_escape_def Let_def n_def s)
    obtain u where u: "take ?k s = c # u" using plain(1) by (cases ?k) (auto simp: s)
    have k: "rune_size (c # u @ x) = ?k" using rune_size_append [OF plain(1), of x] by (simp add: u)
    have len: "length (c # u) = ?k" using rune_size_le(1) [of s] by (metis length_take min.absorb2 u)
    have q: "c \<noteq> CHR 0x22" "c \<noteq> CHR 0x5C" using plain(2) by (auto simp: n_def byte_def)
    have "take ?k (c # u @ x) = c # u" "drop ?k (c # u @ x) = x"
      using len by (metis append_Cons append_eq_conv_conj)+
    then show ?thesis using plain(1,3) q
      by (simp add: e u read_string_Cons k n_def [symmetric])
  qed
qed

lemma json_chars_step: "s \<noteq> [] \<Longrightarrow> json_chars s = json_escape s @ json_chars (drop (max 1 (rune_size s)) s)"
  by (simp add: json_chars.simps [of s])

lemma read_json_chars: "read_string (json_chars s @ CHR 0x22 # x) = Some (to_valid s, x)"
proof (induction s rule: json_chars.induct)
  case (1 s)
  show ?case
  proof (cases "s = []")
    case True
    then show ?thesis by (simp add: json_chars.simps [of "[]"] read_string_Cons to_valid.simps [of "[]"])
  next
    case False
    with 1 show ?thesis
      by (cases "rune_size s = 0")
        (simp_all add: json_chars_step read_json_escape to_valid.simps [of s] drop_Suc max_def)
  qed
qed

text \<open>The indented text of a value, and the value it reads back as.\<close>

fun json_text :: "nat \<Rightarrow> json \<Rightarrow> string" where
  "json_text n JNull = ''null''"
| "json_text n (JBool b) = (if b then ''true'' else ''false'')"
| "json_text n (JNumber x) = x"
| "json_text n (JString s) = json_string s"
| "json_text n (JArray xs) = json_array n (map (json_text (Suc n)) xs)"
| "json_text n (JObject ms) = json_object n (map (\<lambda>(k, x). json_member k (json_text (Suc n) x)) ms)"


fun json_valid :: "json \<Rightarrow> json" where
  "json_valid (JString s) = JString (to_valid s)"
| "json_valid (JArray xs) = JArray (map json_valid xs)"
| "json_valid (JObject ms) = JObject (map (\<lambda>(k, x). (to_valid k, json_valid x)) ms)"
| "json_valid x = x"

fun json_plain :: "json \<Rightarrow> bool" where
  \<comment> \<open>its numbers are natural numbers without leading zeros\<close>
  "json_plain (JNumber x) = (x \<noteq> [] \<and> list_all is_digit x \<and> (hd x = CHR ''0'' \<longrightarrow> tl x = []))"
| "json_plain (JArray xs) = list_all json_plain xs"
| "json_plain (JObject ms) = list_all (\<lambda>(k, x). json_plain x) ms"
| "json_plain x = True"

fun json_depth :: "json \<Rightarrow> nat" where
  "json_depth (JArray xs) = Suc (foldr (\<lambda>x. max (json_depth x)) xs 0)"
| "json_depth (JObject ms) = Suc (foldr (\<lambda>(k, x). max (json_depth x)) ms 0)"
| "json_depth x = 0"

lemma skip_spaces: "list_all json_space w \<Longrightarrow> skip_space (w @ s) = skip_space s"
  by (induction w) (simp_all add: skip_space_def)

lemma skip_nonspace: "\<not> json_space c \<Longrightarrow> skip_space (c # s) = c # s"
  by (simp add: skip_space_def)

lemma new_line_space: "list_all json_space (new_line n)"
  by (auto simp: new_line_def json_space_def list_all_iff)

lemma structural [simp]:
  "\<not> json_space (CHR ''{'')" "\<not> json_space (CHR ''}'')" "\<not> json_space (CHR ''['')"
  "\<not> json_space (CHR '']'')" "\<not> json_space (CHR '','')" "\<not> json_space (CHR '':'')"
  "\<not> json_space (CHR 0x22)" "\<not> json_space (CHR ''n'')" "\<not> json_space (CHR ''t'')"
  "\<not> json_space (CHR ''f'')" "json_space (CHR '' '')"
  by (simp_all add: json_space_def)

lemma skip_new_line [simp]: "skip_space (new_line n @ s) = skip_space s"
  by (rule skip_spaces) (rule new_line_space)

lemma close_with_new_line [simp]: "close_with c (new_line n @ s) = close_with c s"
  by (simp add: close_with_def)

lemma close_with_hit: "\<not> json_space c \<Longrightarrow> close_with c (c # s) = Some s"
  by (simp add: close_with_def skip_nonspace)

lemma close_with_miss: "\<not> json_space d \<Longrightarrow> d \<noteq> c \<Longrightarrow> close_with c (d # s) = None"
  by (simp add: close_with_def skip_nonspace)

lemma read_space:
  "read_value n d (new_line k @ s) = read_value n d s" "read_value n d (CHR '' '' # s) = read_value n d s"
  "read_elems n d (new_line k @ s) = read_elems n d s"
  "read_members n d (new_line k @ s) = read_members n d s"
proof -
  show v: "read_value n d (new_line k @ s) = read_value n d s" for n by (cases n) simp_all
  show "read_value n d (CHR '' '' # s) = read_value n d s"
    by (cases n) (simp_all add: skip_spaces [of "[CHR '' '']" s, simplified])
  show "read_elems n d (new_line k @ s) = read_elems n d s" by (cases n) (simp_all add: v)
  show "read_members n d (new_line k @ s) = read_members n d s" by (cases n) (simp_all add: read_key_def)
qed

lemma read_key_member:
  "read_key (json_string k @ '': '' @ s) = Some (to_valid k, CHR '' '' # s)"
  by (simp add: read_key_def json_string_def skip_nonspace read_json_chars)


text \<open>With enough fuel, every value is read back up to the comma or the line that follows it.\<close>

definition delimited :: "string \<Rightarrow> bool" where
  "delimited y \<longleftrightarrow> (case y of [] \<Rightarrow> True | c # _ \<Rightarrow> c = CHR '','' \<or> c = CHR 0x0A)"

lemma delimited_simps [simp]: "delimited []" "delimited (CHR '','' # y)" "delimited (new_line n @ y)"
  by (simp_all add: delimited_def new_line_def)

definition reads_back :: "nat \<Rightarrow> string \<Rightarrow> json \<Rightarrow> bool" where
  "reads_back d text v \<longleftrightarrow>
     (\<exists>N. \<forall>n \<ge> N. \<forall>y. delimited y \<longrightarrow> read_value n d (text @ y) = Some (v, y))"

lemma json_text_head:
  assumes "json_plain v"
  obtains c t where "json_text k v = c # t" "\<not> json_space c" "c \<noteq> CHR '']''"
proof -
  have "\<exists>c t. json_text k v = c # t \<and> \<not> json_space c \<and> c \<noteq> CHR '']''"
    using assms
    by (cases v)
      (auto simp: json_string_def json_array_def json_object_def json_block_def neq_Nil_conv
        json_space_def is_digit_def)
  then show thesis using that by blast
qed

lemma reads_back_string: "reads_back d (json_string s) (JString (to_valid s))"
  unfolding reads_back_def
proof (intro exI allI impI)
  fix n y assume "1 \<le> (n :: nat)"
  then obtain m where "n = Suc m" by (cases n) auto
  then show "read_value n d (json_string s @ y) = Some (JString (to_valid s), y)"
    by (simp add: json_string_def skip_nonspace read_json_chars)
qed

lemma reads_back_literal:
  "reads_back d ''null'' JNull" "reads_back d ''true'' (JBool True)" "reads_back d ''false'' (JBool False)"
proof -
  have "read_value n d (''null'' @ y) = Some (JNull, y)"
    "read_value n d (''true'' @ y) = Some (JBool True, y)"
    "read_value n d (''false'' @ y) = Some (JBool False, y)" if "1 \<le> n" for n y
    using that by (cases n; simp add: skip_nonspace read_literal_def has_prefix_def)+
  then show "reads_back d ''null'' JNull" "reads_back d ''true'' (JBool True)"
    "reads_back d ''false'' (JBool False)"
    unfolding reads_back_def by blast+
qed

lemma is_digit_literal: "is_digit c \<Longrightarrow> \<not> has_prefix (c # s) ''null'' \<and> \<not> has_prefix (c # s) ''true'' \<and>
    \<not> has_prefix (c # s) ''false'' \<and> c \<noteq> CHR ''-''"
  by (auto simp: has_prefix_def is_digit_def)

lemma read_digits_append:
  "x \<noteq> [] \<Longrightarrow> list_all is_digit x \<Longrightarrow> delimited y \<Longrightarrow> read_digits (x @ y) = Some (x, y)"
proof -
  assume x: "x \<noteq> []" "list_all is_digit x" and y: "delimited y"
  have t: "takeWhile is_digit y = []" "dropWhile is_digit y = y"
    using y by (auto simp: delimited_def is_digit_def split: list.splits)
  show ?thesis using x t by (simp add: read_digits_def list_all_iff takeWhile_append2 dropWhile_append2)
qed

lemma read_number_natural:
  assumes "x \<noteq> []" "list_all is_digit x" "hd x = CHR ''0'' \<longrightarrow> tl x = []" "delimited y"
  shows "read_number (x @ y) = Some (x, y)"
proof -
  obtain c t where x: "x = c # t" using assms(1) by (cases x) auto
  then have c: "c \<noteq> CHR ''-''" using assms(2) is_digit_literal by auto
  have "read_int (x @ y) = Some (x, y)"
    using read_digits_append [OF assms(1,2,4)] assms(3) by (simp add: read_int_def x)
  moreover have "read_frac y = Some ([], y)" "read_exp y = Some ([], y)"
    using assms(4) by (auto simp: read_frac_def read_exp_def delimited_def split: list.splits)
  moreover have "read_sign (x @ y) ''-'' = ([], x @ y)" using c by (simp add: read_sign_def x)
  ultimately show ?thesis by (simp add: read_number_def)
qed

lemma reads_back_number: "json_plain (JNumber x) \<Longrightarrow> reads_back d x (JNumber x)"
  unfolding reads_back_def
proof (intro exI allI impI)
  fix n y assume x: "json_plain (JNumber x)" and y: "delimited y" and "1 \<le> (n :: nat)"
  then obtain m where n: "n = Suc m" by (cases n) auto
  obtain c t where c: "x = c # t" using x by (cases x) auto
  then have d: "is_digit c" using x by simp
  then have "\<not> json_space c" "c \<noteq> CHR ''{''" "c \<noteq> CHR ''[''" "c \<noteq> CHR 0x22"
    by (auto simp: json_space_def is_digit_def)
  then have "read_value n d (x @ y) = read_literal (x @ y)"
    by (simp add: n c skip_nonspace)
  also have "\<dots> = Some (JNumber x, y)"
    using is_digit_literal [OF d, of "t @ y"] read_number_natural [of x y] x y
    by (simp add: read_literal_def c)
  finally show "read_value n d (x @ y) = Some (JNumber x, y)" .
qed

lemma read_elems_text:
  assumes "xs \<noteq> []" "\<forall>v \<in> set xs. reads_back d (json_text m v) (f v)"
  shows "\<exists>N. \<forall>n \<ge> N. \<forall>y.
    read_elems n d (join_with (CHR '','' # new_line j) (map (json_text m) xs) @ new_line k @ CHR '']'' # y)
      = Some (map f xs, y)"
  using assms
proof (induction xs rule: list_nonempty_induct)
  case (single v)
  then have "reads_back d (json_text m v) (f v)" by simp
  then obtain N where N: "\<And>n y. n \<ge> N \<Longrightarrow> delimited y \<Longrightarrow>
      read_value n d (json_text m v @ y) = Some (f v, y)"
    unfolding reads_back_def by blast
  show ?case
  proof (intro exI [of _ "Suc N"] allI impI)
    fix n y assume "Suc N \<le> n"
    then obtain n' where "n = Suc n'" "N \<le> n'" by (cases n) auto
    then show "read_elems n d (join_with (CHR '','' # new_line j) (map (json_text m) [v]) @ new_line k @ CHR '']'' # y)
        = Some (map f [v], y)"
      by (simp add: N close_with_hit)
  qed
next
  case (cons v xs)
  have "reads_back d (json_text m v) (f v)" using cons(3) by simp
  then obtain N where N: "\<And>n y. n \<ge> N \<Longrightarrow> delimited y \<Longrightarrow>
      read_value n d (json_text m v @ y) = Some (f v, y)"
    unfolding reads_back_def by blast
  obtain M where M: "\<And>n y. n \<ge> M \<Longrightarrow>
      read_elems n d (join_with (CHR '','' # new_line j) (map (json_text m) xs) @ new_line k @ CHR '']'' # y)
        = Some (map f xs, y)"
    using cons(2,3) by auto
  obtain z zs where xs: "xs = z # zs" using cons(1) by (cases xs) auto
  show ?case
  proof (intro exI [of _ "Suc (max N M)"] allI impI)
    fix n y assume "Suc (max N M) \<le> n"
    then obtain n' where n: "n = Suc n'" "N \<le> n'" "M \<le> n'" by (cases n) auto
    show "read_elems n d (join_with (CHR '','' # new_line j) (map (json_text m) (v # xs)) @ new_line k @ CHR '']'' # y)
        = Some (map f (v # xs), y)"
      using N [OF n(2)] M [OF n(3), of y]
      by (simp add: n(1) xs close_with_miss close_with_hit read_space del: json_text.simps)
  qed
qed

lemma read_members_text:
  assumes "ms \<noteq> []" "\<forall>(k, v) \<in> set ms. reads_back d (json_text m v) (f v)"
  shows "\<exists>N. \<forall>n \<ge> N. \<forall>y.
    read_members n d (join_with (CHR '','' # new_line j) (map (\<lambda>(k, v). json_member k (json_text m v)) ms) @
        new_line i @ CHR ''}'' # y)
      = Some (map (\<lambda>(k, v). (to_valid k, f v)) ms, y)"
  using assms
proof (induction ms rule: list_nonempty_induct)
  case (single p)
  obtain k v where p: "p = (k, v)" by fastforce
  have "reads_back d (json_text m v) (f v)" using single by (simp add: p)
  then obtain N where N: "\<And>n y. n \<ge> N \<Longrightarrow> delimited y \<Longrightarrow>
      read_value n d (json_text m v @ y) = Some (f v, y)"
    unfolding reads_back_def by blast
  show ?case
  proof (intro exI [of _ "Suc N"] allI impI)
    fix n y assume "Suc N \<le> n"
    then obtain n' where "n = Suc n'" "N \<le> n'" by (cases n) auto
    then show "read_members n d (join_with (CHR '','' # new_line j)
          (map (\<lambda>(k, v). json_member k (json_text m v)) [p]) @ new_line i @ CHR ''}'' # y)
        = Some (map (\<lambda>(k, v). (to_valid k, f v)) [p], y)"
      using read_key_member by (simp add: p json_member_def N close_with_hit read_space)
  qed
next
  case (cons p ms)
  obtain k v where p: "p = (k, v)" by fastforce
  have "reads_back d (json_text m v) (f v)" using cons(3) by (simp add: p)
  then obtain N where N: "\<And>n y. n \<ge> N \<Longrightarrow> delimited y \<Longrightarrow>
      read_value n d (json_text m v @ y) = Some (f v, y)"
    unfolding reads_back_def by blast
  obtain M where M: "\<And>n y. n \<ge> M \<Longrightarrow>
      read_members n d (join_with (CHR '','' # new_line j) (map (\<lambda>(k, v). json_member k (json_text m v)) ms) @
          new_line i @ CHR ''}'' # y)
        = Some (map (\<lambda>(k, v). (to_valid k, f v)) ms, y)"
    using cons(2,3) by auto
  obtain z zs where ms: "ms = z # zs" using cons(1) by (cases ms) auto
  show ?case
  proof (intro exI [of _ "Suc (max N M)"] allI impI)
    fix n y assume "Suc (max N M) \<le> n"
    then obtain n' where n: "n = Suc n'" "N \<le> n'" "M \<le> n'" by (cases n) auto
    show "read_members n d (join_with (CHR '','' # new_line j)
          (map (\<lambda>(k, v). json_member k (json_text m v)) (p # ms)) @ new_line i @ CHR ''}'' # y)
        = Some (map (\<lambda>(k, v). (to_valid k, f v)) (p # ms), y)"
      using N [OF n(2)] M [OF n(3), of y] read_key_member
      by (simp add: n(1) ms p json_member_def close_with_miss close_with_hit read_space del: json_text.simps)
  qed
qed


lemma reads_back_array:
  assumes "\<forall>v \<in> set xs. json_plain v \<and> reads_back d (json_text (Suc k) v) (f v)"
  shows "reads_back (Suc d) (json_array k (map (json_text (Suc k)) xs)) (JArray (map f xs))"
proof (cases xs)
  case Nil
  show ?thesis unfolding reads_back_def
  proof (intro exI [of _ 1] allI impI)
    fix n y assume "1 \<le> (n :: nat)"
    then obtain m where "n = Suc m" by (cases n) auto
    then show "read_value n (Suc d) (json_array k (map (json_text (Suc k)) xs) @ y) = Some (JArray (map f xs), y)"
      by (simp add: Nil json_array_def json_block_def skip_nonspace close_with_hit)
  qed
next
  case (Cons v vs)
  then obtain N where N: "\<And>n y. n \<ge> N \<Longrightarrow>
      read_elems n d (join_with (CHR '','' # new_line (Suc k)) (map (json_text (Suc k)) xs) @
        new_line k @ CHR '']'' # y) = Some (map f xs, y)"
    using read_elems_text [of xs d "Suc k" f "Suc k" k] assms by auto
  have "json_plain v" using assms Cons by simp
  then obtain c t where v: "json_text (Suc k) v = c # t" "\<not> json_space c" "c \<noteq> CHR '']''"
    by (rule json_text_head)
  let ?text = "join_with (CHR '','' # new_line (Suc k)) (map (json_text (Suc k)) xs)"
  obtain u where u: "?text = c # u" using v(1) by (cases vs) (auto simp: Cons)
  show ?thesis unfolding reads_back_def
  proof (intro exI [of _ "Suc N"] allI impI)
    fix n y assume "Suc N \<le> n"
    then obtain n' where n: "n = Suc n'" "N \<le> n'" by (cases n) auto
    have "read_elems n' d (new_line (Suc k) @ ?text @ new_line k @ CHR '']'' # y) = Some (map f xs, y)"
      by (simp only: read_space N [OF n(2)])
    moreover have "close_with (CHR '']'') (new_line (Suc k) @ ?text @ new_line k @ CHR '']'' # y) = None"
      using v by (simp add: u close_with_miss)
    ultimately show "read_value n (Suc d) (json_array k (map (json_text (Suc k)) xs) @ y) = Some (JArray (map f xs), y)"
      by (simp add: n(1) json_array_def json_block_def Cons skip_nonspace del: json_text.simps)
  qed
qed


lemma reads_back_object:
  assumes "\<forall>(n, v) \<in> set ms. reads_back d (json_text (Suc k) v) (f v)"
  shows "reads_back (Suc d) (json_object k (map (\<lambda>(n, v). json_member n (json_text (Suc k) v)) ms))
    (JObject (map (\<lambda>(n, v). (to_valid n, f v)) ms))"
    (is "reads_back _ ?obj (JObject ?ms)")
proof (cases ms)
  case Nil
  show ?thesis unfolding reads_back_def
  proof (intro exI [of _ 1] allI impI)
    fix n y assume "1 \<le> (n :: nat)"
    then obtain m where "n = Suc m" by (cases n) auto
    then show "read_value n (Suc d) (?obj @ y) = Some (JObject ?ms, y)"
      by (simp add: Nil json_object_def json_block_def skip_nonspace close_with_hit)
  qed
next
  case (Cons p ps)
  let ?text = "join_with (CHR '','' # new_line (Suc k))
      (map (\<lambda>(n, v). json_member n (json_text (Suc k) v)) ms)"
  obtain N where N: "\<And>n y. n \<ge> N \<Longrightarrow>
      read_members n d (?text @ new_line k @ CHR ''}'' # y) = Some (?ms, y)"
    using read_members_text [of ms d "Suc k" f "Suc k" k] assms Cons by auto
  obtain u where u: "?text = CHR 0x22 # u"
    by (cases p; cases ps) (auto simp: Cons json_member_def json_string_def)
  show ?thesis unfolding reads_back_def
  proof (intro exI [of _ "Suc N"] allI impI)
    fix n y assume "Suc N \<le> n"
    then obtain n' where n: "n = Suc n'" "N \<le> n'" by (cases n) auto
    have "read_members n' d (new_line (Suc k) @ ?text @ new_line k @ CHR ''}'' # y) = Some (?ms, y)"
      by (simp only: read_space N [OF n(2)])
    moreover have "close_with (CHR ''}'') (new_line (Suc k) @ ?text @ new_line k @ CHR ''}'' # y) = None"
      by (simp add: u close_with_miss)
    ultimately show "read_value n (Suc d) (?obj @ y) = Some (JObject ?ms, y)"
      by (simp add: n(1) json_object_def json_block_def Cons skip_nonspace del: json_text.simps)
  qed
qed

lemma foldr_max_le:
  "x \<in> set xs \<Longrightarrow> (f x :: nat) \<le> foldr (\<lambda>x. max (f x)) xs z"
  by (induction xs) auto

lemma json_text_reads_back:
  "json_plain v \<Longrightarrow> json_depth v \<le> d \<Longrightarrow> reads_back d (json_text k v) (json_valid v)"
proof (induction v arbitrary: d k)
  case (JArray xs)
  then obtain e where d: "d = Suc e" by (cases d) auto
  have "\<forall>v \<in> set xs. json_plain v \<and> reads_back e (json_text (Suc k) v) (json_valid v)"
  proof
    fix v assume v: "v \<in> set xs"
    have "json_depth v \<le> e" using JArray(3) foldr_max_le [OF v, of json_depth 0] by (simp add: d)
    then show "json_plain v \<and> reads_back e (json_text (Suc k) v) (json_valid v)"
      using JArray(1) [OF v] JArray(2) v by (simp add: list_all_iff)
  qed
  then show ?case using reads_back_array by (simp add: d)
next
  case (JObject ms)
  then obtain e where d: "d = Suc e" by (cases d) auto
  have "\<forall>(n, v) \<in> set ms. reads_back e (json_text (Suc k) v) (json_valid v)"
  proof (intro ballI, clarify)
    fix n v assume v: "(n, v) \<in> set ms"
    have "json_depth v \<le> e"
      using JObject(3) foldr_max_le [OF v, of "\<lambda>(n, v). json_depth v" 0] by (simp add: d case_prod_unfold)
    moreover have "json_plain v" using JObject(2) v by (auto simp: list_all_iff)
    ultimately show "reads_back e (json_text (Suc k) v) (json_valid v)"
      using JObject(1) [OF v, of v] by (simp add: snds.simps)
  qed
  then show ?case using reads_back_object [of ms e k json_valid] by (simp add: d)
qed (simp_all add: reads_back_string reads_back_literal reads_back_number)

lemma json_parse_text:
  assumes "json_plain v" "json_depth v \<le> max_depth" "delimited y" "list_all json_space y"
  shows "json_parse (json_text k v @ y) = Some (json_valid v)"
proof -
  obtain N where N: "\<And>n y. n \<ge> N \<Longrightarrow> delimited y \<Longrightarrow>
      read_value n max_depth (json_text k v @ y) = Some (json_valid v, y)"
    using json_text_reads_back [OF assms(1,2), of k] unfolding reads_back_def by blast
  let ?s = "json_text k v @ y"
  let ?m = "2 * length ?s + 2"
  have "read_value ?m max_depth ?s = read_value (max N ?m) max_depth ?s"
    by (rule read_fuel(1)) auto
  also have "\<dots> = Some (json_valid v, y)" using N [of "max N ?m" y] assms(3) by simp
  finally show ?thesis using skip_spaces [OF assms(4), of "[]"] by (simp add: json_parse_def skip_space_def)
qed

end
