(* ===== verification/CdiText.thy ===== *)
theory CdiText
  imports Cdi JsonRoundtrip
begin

text \<open>
  What the CDI spec files say (\<open>internal/nodeplugin/cdi.go\<close>): the JSON value of a spec, and that
  the text written reads back as that value.
\<close>

section \<open>The text of a spec\<close>

text \<open>The value a spec's text denotes, and the strings for which nothing is replaced.\<close>

definition edits_json :: "container_edits \<Rightarrow> json" where
  "edits_json e =
     JObject
       ((if Env e = [] then [] else [(''env'', JArray (map JString (Env e)))]) @
        (if DeviceNodes e = [] then []
         else [(''deviceNodes'', JArray (map (\<lambda>p. JObject [(''path'', JString p)]) (DeviceNodes e)))]))"

definition device_json :: "cdi_device \<Rightarrow> json" where
  "device_json c =
     JObject [(''name'', JString (cdiName c)), (''containerEdits'', edits_json (ContainerEdits c))]"

definition spec_json :: "cdi_spec \<Rightarrow> json" where
  "spec_json s =
     JObject [(''cdiVersion'', JString (CDIVersion s)), (''kind'', JString (SpecKind s)),
              (''devices'', if SpecDevices s = [] then JNull else JArray (map device_json (SpecDevices s)))]"

definition utf8_device :: "cdi_device \<Rightarrow> bool" where
  "utf8_device c \<longleftrightarrow> valid_utf8 (cdiName c) \<and> list_all valid_utf8 (Env (ContainerEdits c)) \<and>
     list_all valid_utf8 (DeviceNodes (ContainerEdits c))"

lemma json_edits_text: "json_edits n e = json_text n (edits_json e)"
  by (simp add: json_edits_def edits_json_def json_member_def comp_def cong: map_cong)

lemma json_device_text: "json_device n c = json_text n (device_json c)"
  by (simp add: json_device_def device_json_def json_edits_text)

lemma json_spec_text: "json_spec s = json_text 0 (spec_json s)"
  by (simp add: json_spec_def spec_json_def comp_def json_device_text numeral_2_eq_2 cong: map_cong)

lemma plain_spec: "json_plain (spec_json s)"
  by (simp add: spec_json_def device_json_def edits_json_def list_all_iff)

lemma foldr_max_bound: "(\<And>x. x \<in> set xs \<Longrightarrow> f x \<le> m) \<Longrightarrow> foldr (\<lambda>x. max (f x)) xs 0 \<le> (m :: nat)"
  by (induction xs) auto

lemma depth_device: "json_depth (device_json c) \<le> 5"
proof -
  have "foldr (\<lambda>x. max (json_depth x)) (map (\<lambda>p. JObject [(''path'', JString p)]) ps) 0 \<le> 2"
    "foldr (\<lambda>x. max (json_depth x)) (map JString ps) 0 \<le> 2" for ps
    by (rule foldr_max_bound, auto)+
  then show ?thesis by (simp add: device_json_def edits_json_def)
qed

lemma depth_spec: "json_depth (spec_json s) \<le> max_depth"
proof -
  have "foldr (\<lambda>x. max (json_depth x)) (map device_json (SpecDevices s)) 0 \<le> 5"
    by (rule foldr_max_bound) (auto simp: depth_device)
  then show ?thesis by (simp add: spec_json_def max_depth_def)
qed

lemma ascii_names [simp]:
  "to_valid ''cdiVersion'' = ''cdiVersion''" "to_valid ''kind'' = ''kind''"
  "to_valid ''devices'' = ''devices''" "to_valid ''name'' = ''name''"
  "to_valid ''containerEdits'' = ''containerEdits''" "to_valid ''env'' = ''env''"
  "to_valid ''deviceNodes'' = ''deviceNodes''" "to_valid ''path'' = ''path''"
  "to_valid cdiVersion = cdiVersion" "to_valid cdiKind = cdiKind"
  by code_simp+

lemma valid_edits: "utf8_device c \<Longrightarrow> json_valid (edits_json (ContainerEdits c)) = edits_json (ContainerEdits c)"
  by (auto simp: edits_json_def utf8_device_def list_all_iff to_valid_id intro!: map_idI)

lemma valid_device: "utf8_device c \<Longrightarrow> json_valid (device_json c) = device_json c"
  using valid_edits [of c] by (simp add: device_json_def utf8_device_def to_valid_id)

lemma edits_json_inject: "edits_json e = edits_json e' \<Longrightarrow> e = e'"
proof -
  assume j: "edits_json e = edits_json e'"
  have strings: "map JString xs = map JString ys \<longleftrightarrow> xs = ys" for xs ys
    by (rule inj_map_eq_map) (simp add: inj_def)
  have paths: "map (\<lambda>p. JObject [(''path'', JString p)]) xs = map (\<lambda>p. JObject [(''path'', JString p)]) ys
      \<longleftrightarrow> xs = ys" for xs ys
    by (rule inj_map_eq_map) (simp add: inj_def)
  have "Env e = Env e' \<and> DeviceNodes e = DeviceNodes e'"
    using j by (auto simp: edits_json_def strings paths split: if_split_asm)
  then show "e = e'" by simp
qed

lemma device_json_inject: "device_json c = device_json c' \<longleftrightarrow> c = c'"
  by (auto simp: device_json_def dest: edits_json_inject)

text \<open>
  C29: the text of a spec file is JSON that reads back as exactly the spec: version, kind and
  devices, each with its name, environment and nodes, an empty list left out.  Two claims'
  files are the same text only if they declare the same devices.
\<close>

theorem spec_text_reads_back:
  assumes "\<forall>c \<in> set devices. utf8_device c"
  shows "json_parse (spec_text devices) =
      Some (spec_json \<lparr>CDIVersion = cdiVersion, SpecKind = cdiKind, SpecDevices = devices\<rparr>) \<and>
    (\<forall>devices'. (\<forall>c \<in> set devices'. utf8_device c) \<and> spec_text devices' = spec_text devices \<longrightarrow>
      devices' = devices)"
proof -
  let ?spec = "\<lambda>ds. \<lparr>CDIVersion = cdiVersion, SpecKind = cdiKind, SpecDevices = ds\<rparr>"
  have parse: "json_parse (spec_text ds) = Some (spec_json (?spec ds))"
    if "\<forall>c \<in> set ds. utf8_device c" for ds
  proof -
    have "json_valid (spec_json (?spec ds)) = spec_json (?spec ds)"
      using that by (auto simp: spec_json_def valid_device intro!: map_idI)
    then show ?thesis
      using json_parse_text [OF plain_spec depth_spec, of "[]"]
      by (simp add: spec_text_def json_spec_text)
  qed
  moreover have "devices' = devices"
    if "\<forall>c \<in> set devices'. utf8_device c" "spec_text devices' = spec_text devices" for devices'
  proof -
    have "spec_json (?spec devices') = spec_json (?spec devices)"
      using parse [OF that(1)] parse [OF assms] that(2) by simp
    then have "map device_json devices' = map device_json devices"
      by (simp add: spec_json_def split: if_split_asm)
    then show ?thesis using inj_map_eq_map [of device_json] by (simp add: inj_def device_json_inject)
  qed
  ultimately show ?thesis using assms by blast
qed

definition sample_spec_device :: cdi_device where
  "sample_spec_device = \<lparr>cdiName = ''u1-gpu0'', ContainerEdits =
     \<lparr>Env = [''A=<b>&c''], DeviceNodes = [''/dev/dri/renderD128'']\<rparr>\<rparr>"

theorem spec_text_reads_back_witness:
  "json_parse (spec_text [sample_spec_device]) =
     Some (spec_json \<lparr>CDIVersion = cdiVersion, SpecKind = cdiKind, SpecDevices = [sample_spec_device]\<rparr>)"
proof (rule spec_text_reads_back [THEN conjunct1])
  show "\<forall>c \<in> set [sample_spec_device]. utf8_device c" by code_simp
qed

end
