(* ===== verification/NodePlugin.thy ===== *)
theory NodePlugin
  imports Cdi
begin

text \<open>
  The kubelet-facing half of the node agent (\<open>internal/nodeplugin/plugin.go\<close>): the inventory
  shared with the probe loop, the container edits of a device, the preparation of a claim, and
  the collection of orphaned specs.  The spec directory and its files are in theory
  \<open>Cdi\<close>.
\<close>

section \<open>The inventory\<close>

type_synonym inventory = "(string \<times> probe_device) list"

definition NewInventory :: inventory where
  "NewInventory = []"

definition inventory_set :: "probe_device list \<Rightarrow> inventory" where
  "inventory_set devices = fold (\<lambda>d m. AList.update (Name d) d m) devices NewInventory"

definition inventory_lookup :: "inventory \<Rightarrow> string \<Rightarrow> probe_device option" where
  "inventory_lookup invt name = map_of invt name"

definition driverCount :: "inventory \<Rightarrow> string \<Rightarrow> nat" where
  "driverCount invt drv = length (filter (\<lambda>(_, d). dDriver d = drv) invt)"

section \<open>Container edits\<close>

definition per_device :: "probe_device \<Rightarrow> string" where
  "per_device d =
     (if RenderNode d \<noteq> [] then RenderNode d
      else if DevNode d \<noteq> [] then DevNode d else kind_name (dKind d))"

definition nic_with_node :: "probe_device \<Rightarrow> bool" where
  "nic_with_node d \<longleftrightarrow> dKind d = KindNIC \<and> DevNode d \<noteq> []"

definition editsFor :: "probe_device \<Rightarrow> container_edits" where
  "editsFor d =
     \<lparr>Env =
        [''LLMFIT_DEVICE='' @ Name d, ''LLMFIT_DEVICE_KIND='' @ kind_name (dKind d),
         ''LLMFIT_DEVICE_'' @ to_upper (replace_char (CHR ''-'') (CHR ''_'') (Name d)) @ ''='' @
           per_device d] @
        (if RenderNode d \<noteq> [] then [''LLMFIT_RENDER_NODE='' @ RenderNode d] else []) @
        (if nic_with_node d \<and> NetDev d \<noteq> [] then [''LLMFIT_NETDEV='' @ NetDev d] else []),
      DeviceNodes =
        (if RenderNode d \<noteq> [] then [RenderNode d] else []) @
        (if DevNode d \<noteq> [] then [DevNode d] else []) @
        (if dDriver d = ''amdgpu'' then [''/dev/kfd''] else []) @
        (if nic_with_node d then [''/dev/infiniband/rdma_cm''] else [])\<rparr>"

section \<open>Preparing a claim\<close>

record prepared_device =
  Requests :: "string list"
  prepPool :: string
  prepDevice :: string
  CDIDeviceIDs :: "string list"

datatype prepare_error =
  NoAllocation string string
| DeviceMissing string
| ForeignOnly string string
| CdiWrite string

fun prepare_reason :: "prepare_error \<Rightarrow> string" where
  "prepare_reason (NoAllocation _ _) = ''no_allocation''"
| "prepare_reason (DeviceMissing _) = ''device_missing''"
| "prepare_reason (ForeignOnly _ _) = ''foreign_only''"
| "prepare_reason (CdiWrite _) = ''cdi_write''"

fun prepare_message :: "prepare_error \<Rightarrow> string" where
  "prepare_message (NoAllocation ns n) = ''claim '' @ ns @ ''/'' @ n @ '' has no allocation''"
| "prepare_message (DeviceMissing d) =
     ''allocated device '' @ go_quote d @ '' not in current inventory''"
| "prepare_message (ForeignOnly ns n) =
     ''claim '' @ ns @ ''/'' @ n @ '' has no '' @ DriverName @ '' allocation results''"
| "prepare_message (CdiWrite e) = ''writing CDI spec: '' @ e"

fun new_nodes :: "string list \<Rightarrow> string list \<Rightarrow> string list" where
  \<comment> \<open>the nodes of one device that the claim has not injected yet\<close>
  "new_nodes seen [] = []"
| "new_nodes seen (n # ns) =
     (if n \<in> set seen then new_nodes seen ns else n # new_nodes (n # seen) ns)"

record prepare_state =
  prepared :: "prepared_device list"
  cdiDevices :: "cdi_device list"
  amdgpu :: "nat list"
  amdgpuIDs :: "string list"
  seenNodes :: "string list"

definition prepare_start :: prepare_state where
  "prepare_start = \<lparr>prepared = [], cdiDevices = [], amdgpu = [], amdgpuIDs = [], seenNodes = []\<rparr>"

definition claim_device_name :: "string \<Rightarrow> alloc_result \<Rightarrow> string" where
  "claim_device_name uid a = uid @ ''-'' @ resDevice a"

definition prepare_device :: "string \<Rightarrow> alloc_result \<Rightarrow> probe_device \<Rightarrow> prepare_state \<Rightarrow> prepare_state" where
  "prepare_device uid a d st =
     \<lparr>prepared = prepared st @
        [\<lparr>Requests = [resRequest a], prepPool = resPool a, prepDevice = resDevice a,
          CDIDeviceIDs = [qualifiedName (claim_device_name uid a)]\<rparr>],
      cdiDevices = cdiDevices st @
        [\<lparr>cdiName = claim_device_name uid a,
          ContainerEdits = (editsFor d)\<lparr>DeviceNodes := new_nodes (seenNodes st) (DeviceNodes (editsFor d))\<rparr>\<rparr>],
      amdgpu = amdgpu st @ (if dDriver d = ''amdgpu'' then [length (cdiDevices st)] else []),
      amdgpuIDs = amdgpuIDs st @ (if dDriver d = ''amdgpu'' then [UniqueID d] else []),
      seenNodes = seenNodes st @ new_nodes (seenNodes st) (DeviceNodes (editsFor d))\<rparr>"

fun prepare_results ::
  "inventory \<Rightarrow> string \<Rightarrow> alloc_result list \<Rightarrow> prepare_state \<Rightarrow> prepare_error + prepare_state" where
  "prepare_results invt uid [] st = Inr st"
| "prepare_results invt uid (a # as) st =
     (if resDriver a \<noteq> DriverName then prepare_results invt uid as st
      else case inventory_lookup invt (resDevice a) of
             None \<Rightarrow> Inl (DeviceMissing (resDevice a))
           | Some d \<Rightarrow> prepare_results invt uid as (prepare_device uid a d st))"

definition add_env :: "string \<Rightarrow> cdi_device \<Rightarrow> cdi_device" where
  "add_env e c = c\<lparr>ContainerEdits := (ContainerEdits c)\<lparr>Env := Env (ContainerEdits c) @ [e]\<rparr>\<rparr>"

definition rocm_env :: "string list \<Rightarrow> string" where
  "rocm_env ids = ''ROCR_VISIBLE_DEVICES=GPU-'' @ join_with '',GPU-'' ids"

definition addROCmVisibility ::
  "inventory \<Rightarrow> cdi_device list \<Rightarrow> nat list \<Rightarrow> string list \<Rightarrow> cdi_device list" where
  "addROCmVisibility invt devices idxs ids =
     (if idxs = [] \<or> driverCount invt ''amdgpu'' \<le> 1 then devices
      else if [] \<in> set ids then devices
      else fold (\<lambda>i cs. cs[i := add_env (rocm_env ids) (cs ! i)]) idxs devices)"

definition claim_result ::
  "prepared_device list \<Rightarrow> string option \<times> cdi_dir list \<Rightarrow>
     (prepare_error + prepared_device list) \<times> cdi_dir list" where
  "claim_result devs written =
     (case written of
        (Some e, dirs) \<Rightarrow> (Inl (CdiWrite e), dirs)
      | (None, dirs) \<Rightarrow> (Inr devs, dirs))"

definition finish_claim ::
  "inventory \<Rightarrow> write_io \<Rightarrow> resource_claim \<Rightarrow> prepare_state \<Rightarrow> cdi_dir \<Rightarrow>
     (prepare_error + prepared_device list) \<times> cdi_dir list" where
  "finish_claim invt io claim st dir =
     (if prepared st = [] then (Inl (ForeignOnly (claimNamespace claim) (claimName claim)), [dir])
      else claim_result (prepared st)
             (writeSpec io (claimUID claim)
               (addROCmVisibility invt (cdiDevices st) (amdgpu st) (amdgpuIDs st)) dir))"

definition prepareClaim ::
  "inventory \<Rightarrow> write_io \<Rightarrow> resource_claim \<Rightarrow> cdi_dir \<Rightarrow>
     (prepare_error + prepared_device list) \<times> cdi_dir list" where
  "prepareClaim invt io claim dir =
     (case Allocation claim of
        None \<Rightarrow> (Inl (NoAllocation (claimNamespace claim) (claimName claim)), [dir])
      | Some results \<Rightarrow>
          (case prepare_results invt (claimUID claim) results prepare_start of
             Inl e \<Rightarrow> (Inl e, [dir])
           | Inr st \<Rightarrow> finish_claim invt io claim st dir))"

text \<open>A batch: the results by claim UID, and the outcomes the metrics count.\<close>

definition prepare_one ::
  "inventory \<Rightarrow> resource_claim \<times> write_io \<Rightarrow>
     (string \<times> (prepare_error + prepared_device list)) list \<times> (string \<times> string) list \<times> cdi_dir \<Rightarrow>
     (string \<times> (prepare_error + prepared_device list)) list \<times> (string \<times> string) list \<times> cdi_dir" where
  "prepare_one invt = (\<lambda>(claim, io) (results, metrics, dir).
     case prepareClaim invt io claim dir of
       (r, dirs) \<Rightarrow>
         (AList.update (claimUID claim) r results,
          metrics @ [case r of Inl e \<Rightarrow> (''error'', prepare_reason e) | Inr _ \<Rightarrow> (''ok'', ''none'')],
          last dirs))"

definition PrepareResourceClaims ::
  "inventory \<Rightarrow> (resource_claim \<times> write_io) list \<Rightarrow> cdi_dir \<Rightarrow>
     (string \<times> (prepare_error + prepared_device list)) list \<times> (string \<times> string) list \<times> cdi_dir" where
  "PrepareResourceClaims invt claims dir = fold (prepare_one invt) claims ([], [], dir)"

section \<open>Unpreparing and collecting\<close>

definition unprepare_one ::
  "(string \<Rightarrow> string option) \<Rightarrow> string \<Rightarrow>
     (string \<times> string option) list \<times> string list \<times> cdi_dir \<Rightarrow>
     (string \<times> string option) list \<times> string list \<times> cdi_dir" where
  "unprepare_one faults uid = (\<lambda>(results, metrics, dir).
     case removeSpec (faults uid) uid dir of
       (err, dir') \<Rightarrow>
         (AList.update uid err results,
          metrics @ [if err \<noteq> None then ''error'' else ''ok''], dir'))"

definition UnprepareResourceClaims ::
  "(string \<Rightarrow> string option) \<Rightarrow> string list \<Rightarrow> cdi_dir \<Rightarrow>
     (string \<times> string option) list \<times> string list \<times> cdi_dir" where
  "UnprepareResourceClaims faults uids dir = fold (unprepare_one faults) uids ([], [], dir)"

definition collect_one ::
  "string list \<Rightarrow> (string \<Rightarrow> string option) \<Rightarrow> string \<Rightarrow> nat \<times> cdi_dir \<Rightarrow> nat \<times> cdi_dir" where
  "collect_one live faults uid = (\<lambda>(removed, dir).
     if uid \<in> set live then (removed, dir)
     else case removeSpec (faults uid) uid dir of
            (None, dir') \<Rightarrow> (Suc removed, dir')
          | (Some _, dir') \<Rightarrow> (removed, dir'))"

text \<open>\<open>listed\<close> is the answer to listing the UIDs of the cluster's ResourceClaims.\<close>

definition gcOrphanedSpecs ::
  "string list result \<Rightarrow> (string \<Rightarrow> string option) \<Rightarrow> cdi_dir \<Rightarrow> string option \<times> nat \<times> cdi_dir" where
  "gcOrphanedSpecs listed faults dir =
     (if specUIDs dir = [] then (None, 0, dir)
      else case listed of
             Inl e \<Rightarrow> (Some (''listing resourceclaims: '' @ e), 0, dir)
           | Inr live \<Rightarrow> (None, fold (collect_one live faults) (specUIDs dir) (0, dir)))"

section \<open>Starting and stopping\<close>

datatype helper_option =
  OptDriverName string | OptKubeClient | OptNodeName string | OptRollingUpdate string

definition Start ::
  "string option \<Rightarrow> string list result \<Rightarrow> (string \<Rightarrow> string option) \<Rightarrow> string \<Rightarrow> string \<Rightarrow> cdi_dir \<Rightarrow>
     helper_option list result \<times> cdi_dir" where
  \<comment> \<open>the options handed to the helper; the first argument is the error of creating the socket
     directory\<close>
  "Start mkdir_error listed faults nodeName podUID dir =
     (case mkdir_error of
        Some e \<Rightarrow> (Inl (''creating plugin socket dir: '' @ e), dir)
      | None \<Rightarrow>
          (Inr ([OptDriverName DriverName, OptKubeClient, OptNodeName nodeName] @
                (if podUID \<noteq> [] then [OptRollingUpdate podUID] else [])),
           snd (snd (gcOrphanedSpecs listed faults dir))))"

datatype after_error = KeepServing | ExitProcess

definition HandleError :: "bool \<Rightarrow> after_error" where
  "HandleError recoverable = (if recoverable then KeepServing else ExitProcess)"

text \<open>The inventory is a keyed cache of probed devices under their names.\<close>

interpretation stock: keyed_cache inventory_lookup AList.update
  by unfold_locales (simp_all add: inventory_lookup_def update_conv')

section \<open>The loop over the allocation results\<close>

definition own_results :: "alloc_result list \<Rightarrow> alloc_result list" where
  "own_results rs = filter (\<lambda>a. resDriver a = DriverName) rs"

definition allocated :: "inventory \<Rightarrow> alloc_result list \<Rightarrow> (alloc_result \<times> probe_device) list" where
  \<comment> \<open>the claim's own results with the devices they name\<close>
  "allocated invt rs = map (\<lambda>a. (a, the (inventory_lookup invt (resDevice a)))) (own_results rs)"

definition missing_device :: "inventory \<Rightarrow> alloc_result list \<Rightarrow> alloc_result option" where
  "missing_device invt rs = find (\<lambda>a. inventory_lookup invt (resDevice a) = None) (own_results rs)"

definition handed_out :: "string \<Rightarrow> alloc_result \<Rightarrow> prepared_device" where
  "handed_out uid a =
     \<lparr>Requests = [resRequest a], prepPool = resPool a, prepDevice = resDevice a,
      CDIDeviceIDs = [qualifiedName (claim_device_name uid a)]\<rparr>"

definition claim_state :: "string \<Rightarrow> (alloc_result \<times> probe_device) list \<Rightarrow> prepare_state" where
  "claim_state uid ads = fold (\<lambda>(a, d). prepare_device uid a d) ads prepare_start"

lemma prepare_results_gen:
  "prepare_results invt uid rs st =
     (case missing_device invt rs of
        Some a \<Rightarrow> Inl (DeviceMissing (resDevice a))
      | None \<Rightarrow> Inr (fold (\<lambda>(a, d). prepare_device uid a d) (allocated invt rs) st))"
  by (induction invt uid rs st rule: prepare_results.induct)
    (auto simp: missing_device_def own_results_def allocated_def split: option.splits)

lemma claim_state_simps:
  "claim_state uid [] = prepare_start"
  "claim_state uid (ads @ [(a, d)]) = prepare_device uid a d (claim_state uid ads)"
  by (simp_all add: claim_state_def)

lemma claim_state_outputs:
  "prepared (claim_state uid ads) = map (\<lambda>(a, d). handed_out uid a) ads \<and>
   map cdiName (cdiDevices (claim_state uid ads)) = map (\<lambda>(a, d). claim_device_name uid a) ads \<and>
   map (\<lambda>c. Env (ContainerEdits c)) (cdiDevices (claim_state uid ads)) =
     map (\<lambda>(a, d). Env (editsFor d)) ads"
proof (induction ads rule: rev_induct)
  case (snoc ad ads)
  then show ?case by (cases ad) (simp add: claim_state_simps prepare_device_def handed_out_def)
qed (simp add: claim_state_simps prepare_start_def)

lemma length_cdiDevices: "length (cdiDevices (claim_state uid ads)) = length ads"
  using claim_state_outputs [of uid ads] by (metis length_map)

lemma claim_state_amdgpu:
  "amdgpu (claim_state uid ads) = filter (\<lambda>i. dDriver (snd (ads ! i)) = ''amdgpu'') [0..<length ads] \<and>
   amdgpuIDs (claim_state uid ads) =
     map UniqueID (filter (\<lambda>d. dDriver d = ''amdgpu'') (map snd ads))"
proof (induction ads rule: rev_induct)
  case (snoc ad ads)
  have "filter (\<lambda>i. dDriver (snd ((ads @ [ad]) ! i)) = ''amdgpu'') [0..<length ads] =
      filter (\<lambda>i. dDriver (snd (ads ! i)) = ''amdgpu'') [0..<length ads]"
    by (rule filter_cong) (auto simp: nth_append)
  with snoc show ?case
    by (cases ad) (simp add: claim_state_simps prepare_device_def length_cdiDevices)
qed (simp add: claim_state_simps prepare_start_def)

text \<open>Every node is injected once.\<close>

lemma new_nodes_facts:
  "distinct (new_nodes seen ns) \<and> set (new_nodes seen ns) = set ns - set seen"
  by (induction seen ns rule: new_nodes.induct) auto

lemma claim_state_nodes:
  "concat (map (\<lambda>c. DeviceNodes (ContainerEdits c)) (cdiDevices (claim_state uid ads))) =
     seenNodes (claim_state uid ads) \<and>
   distinct (seenNodes (claim_state uid ads)) \<and>
   set (seenNodes (claim_state uid ads)) = (\<Union>ad \<in> set ads. set (DeviceNodes (editsFor (snd ad))))"
proof (induction ads rule: rev_induct)
  case (snoc ad ads)
  let ?st = "claim_state uid ads"
  obtain a d where ad: "ad = (a, d)" by fastforce
  show ?case
    using snoc new_nodes_facts [of "seenNodes ?st" "DeviceNodes (editsFor d)"]
    by (auto simp: ad claim_state_simps prepare_device_def)
qed (simp add: claim_state_simps prepare_start_def)

section \<open>Scoping ROCm\<close>

lemma update_each:
  "distinct idxs \<Longrightarrow> \<forall>i \<in> set idxs. i < length cs \<Longrightarrow>
     fold (\<lambda>i cs. cs[i := f (cs ! i)]) idxs cs =
       map (\<lambda>i. if i \<in> set idxs then f (cs ! i) else cs ! i) [0..<length cs]"
proof (induction idxs rule: rev_induct)
  case Nil
  then show ?case by (simp add: map_nth)
next
  case (snoc j idxs)
  then show ?case by (auto simp: intro!: nth_equalityI simp: nth_list_update)
qed

definition scoped :: "inventory \<Rightarrow> probe_device list \<Rightarrow> bool" where
  \<comment> \<open>the claim's AMD GPUs are named to ROCm: there is another one, and all have an identifier\<close>
  "scoped invt ds \<longleftrightarrow>
     1 < driverCount invt ''amdgpu'' \<and> (\<forall>d \<in> set ds. dDriver d = ''amdgpu'' \<longrightarrow> UniqueID d \<noteq> [])"

definition visible_ids :: "probe_device list \<Rightarrow> string list" where
  "visible_ids ds = map UniqueID (filter (\<lambda>d. dDriver d = ''amdgpu'') ds)"

definition claim_specs :: "inventory \<Rightarrow> string \<Rightarrow> (alloc_result \<times> probe_device) list \<Rightarrow> cdi_device list" where
  \<comment> \<open>the devices of the spec a claim with these allocated devices gets\<close>
  "claim_specs invt uid ads =
     addROCmVisibility invt (cdiDevices (claim_state uid ads)) (amdgpu (claim_state uid ads))
       (amdgpuIDs (claim_state uid ads))"

lemma claim_specs_nth:
  assumes "i < length ads"
  shows "claim_specs invt uid ads ! i =
    (if scoped invt (map snd ads) \<and> dDriver (snd (ads ! i)) = ''amdgpu''
     then add_env (rocm_env (visible_ids (map snd ads))) (cdiDevices (claim_state uid ads) ! i)
     else cdiDevices (claim_state uid ads) ! i)"
proof -
  let ?st = "claim_state uid ads"
  have ids: "[] \<in> set (amdgpuIDs ?st) \<longleftrightarrow> (\<exists>d \<in> snd ` set ads. dDriver d = ''amdgpu'' \<and> UniqueID d = [])"
    unfolding claim_state_amdgpu [THEN conjunct2] by force
  have idx: "amdgpu ?st = filter (\<lambda>i. dDriver (snd (ads ! i)) = ''amdgpu'') [0..<length ads]"
    by (rule claim_state_amdgpu [THEN conjunct1])
  then have upd: "fold (\<lambda>i cs. cs[i := f (cs ! i)]) (amdgpu ?st) (cdiDevices ?st) ! i =
      (if dDriver (snd (ads ! i)) = ''amdgpu'' then f (cdiDevices ?st ! i) else cdiDevices ?st ! i)" for f
    using assms by (subst update_each) (auto simp: length_cdiDevices)
  have none: "amdgpu ?st = [] \<Longrightarrow> dDriver (snd (ads ! i)) \<noteq> ''amdgpu''"
    using assms by (auto simp: idx filter_empty_conv)
  show ?thesis
    using ids upd none claim_state_amdgpu [of uid ads]
    by (auto simp: claim_specs_def addROCmVisibility_def scoped_def visible_ids_def)
qed

lemma length_claim_specs: "length (claim_specs invt uid ads) = length ads"
proof -
  have "length (fold (\<lambda>i cs. cs[i := f (cs ! i)]) idxs cs) = length cs" for f idxs and cs :: "cdi_device list"
    by (induction idxs arbitrary: cs) simp_all
  then show ?thesis by (simp add: claim_specs_def addROCmVisibility_def length_cdiDevices)
qed

section \<open>Outcomes\<close>

lemma claim_result_simps [simp]:
  "fst (claim_result devs w) = (case fst w of Some e \<Rightarrow> Inl (CdiWrite e) | None \<Rightarrow> Inr devs)"
  "snd (claim_result devs w) = snd w"
  by (simp_all add: claim_result_def split: prod.split option.split)

lemma prepareClaim_eq:
  "prepareClaim invt io claim dir =
    (case Allocation claim of
       None \<Rightarrow> (Inl (NoAllocation (claimNamespace claim) (claimName claim)), [dir])
     | Some rs \<Rightarrow>
         (case missing_device invt rs of
            Some a \<Rightarrow> (Inl (DeviceMissing (resDevice a)), [dir])
          | None \<Rightarrow>
              if own_results rs = [] then (Inl (ForeignOnly (claimNamespace claim) (claimName claim)), [dir])
              else claim_result (map (handed_out (claimUID claim)) (own_results rs))
                     (writeSpec io (claimUID claim) (claim_specs invt (claimUID claim) (allocated invt rs)) dir)))"
proof -
  have "prepared (claim_state uid (allocated invt rs)) = map (handed_out uid) (own_results rs)" for uid rs
    using claim_state_outputs [of uid "allocated invt rs"] by (simp add: allocated_def)
  then show ?thesis
    by (simp add: prepareClaim_def prepare_results_gen finish_claim_def claim_specs_def
        flip: claim_state_def split: option.split)
qed

lemma prepareClaim_success:
  assumes "prepareClaim invt io claim dir = (Inr devs, dirs)"
  obtains rs where "Allocation claim = Some rs" "own_results rs \<noteq> []" "missing_device invt rs = None"
    "devs = map (handed_out (claimUID claim)) (own_results rs)"
    "spec_of (last dirs) (claimUID claim) =
       Some (spec_text (claim_specs invt (claimUID claim) (allocated invt rs)))"
proof -
  obtain rs where rs: "Allocation claim = Some rs" "own_results rs \<noteq> []" "missing_device invt rs = None"
    and w: "writeSpec io (claimUID claim) (claim_specs invt (claimUID claim) (allocated invt rs)) dir =
          (None, dirs)" and d: "devs = map (handed_out (claimUID claim)) (own_results rs)"
    using assms by (auto simp: prepareClaim_eq claim_result_def split: option.splits if_splits prod.splits)
  have "spec_of (last dirs) (claimUID claim) =
      Some (spec_text (claim_specs invt (claimUID claim) (allocated invt rs)))"
    using writeSpec_last [of "spec_file (claimUID claim)" io "claimUID claim"
        "claim_specs invt (claimUID claim) (allocated invt rs)" dir]
      writeSpec_error [of io "claimUID claim" "claim_specs invt (claimUID claim) (allocated invt rs)" dir]
    by (simp add: w spec_of_def)
  with rs d that show thesis by blast
qed

lemma claim_specs_names_nodes:
  "map cdiName (claim_specs invt uid ads) = map (\<lambda>(a, d). claim_device_name uid a) ads \<and>
   map (\<lambda>c. DeviceNodes (ContainerEdits c)) (claim_specs invt uid ads) =
     map (\<lambda>c. DeviceNodes (ContainerEdits c)) (cdiDevices (claim_state uid ads))"
proof -
  have "map cdiName (claim_specs invt uid ads) = map cdiName (cdiDevices (claim_state uid ads))"
    by (rule nth_equalityI) (simp_all add: length_claim_specs length_cdiDevices claim_specs_nth add_env_def)
  moreover have "map (\<lambda>c. DeviceNodes (ContainerEdits c)) (claim_specs invt uid ads) =
     map (\<lambda>c. DeviceNodes (ContainerEdits c)) (cdiDevices (claim_state uid ads))"
    by (rule nth_equalityI) (simp_all add: length_claim_specs length_cdiDevices claim_specs_nth add_env_def)
  ultimately show ?thesis using claim_state_outputs [of uid ads] by simp
qed

lemma claim_ids:
  assumes "devs = map (handed_out uid) (own_results rs)"
  shows "map CDIDeviceIDs devs =
    map (\<lambda>c. [qualifiedName (cdiName c)]) (claim_specs invt uid (allocated invt rs))"
proof -
  have "map (\<lambda>c. [qualifiedName (cdiName c)]) (claim_specs invt uid (allocated invt rs)) =
      map (\<lambda>n. [qualifiedName n]) (map (\<lambda>(a, d). claim_device_name uid a) (allocated invt rs))"
    by (simp flip: claim_specs_names_nodes [THEN conjunct1, of invt uid "allocated invt rs"])
  then show ?thesis by (simp add: assms allocated_def handed_out_def)
qed

lemma claim_specs_env:
  "i < length ads \<Longrightarrow>
     Env (ContainerEdits (claim_specs invt uid ads ! i)) =
       Env (editsFor (snd (ads ! i))) @
       (if scoped invt (map snd ads) \<and> dDriver (snd (ads ! i)) = ''amdgpu''
        then [rocm_env (visible_ids (map snd ads))] else [])"
proof -
  assume i: "i < length ads"
  then have "Env (ContainerEdits (cdiDevices (claim_state uid ads) ! i)) = Env (editsFor (snd (ads ! i)))"
    using claim_state_outputs [of uid ads]
    by (metis (mono_tags, lifting) length_cdiDevices nth_map prod.case_eq_if)
  then show ?thesis using i by (simp add: claim_specs_nth add_env_def)
qed

section \<open>Properties\<close>

text \<open>
  C20: the outcome of a preparation, on every branch.  A claim without an allocation, one that
  names a device the probe no longer sees, one without results of this driver and a failed
  write each give their own error, the first applicable one in this order; otherwise the
  kubelet gets one device per own result, in order, with its request, pool, name and CDI id.
\<close>

theorem prepare_outcome:
  "fst (prepareClaim invt io claim dir) =
    (case Allocation claim of
       None \<Rightarrow> Inl (NoAllocation (claimNamespace claim) (claimName claim))
     | Some rs \<Rightarrow>
         (case find (\<lambda>a. inventory_lookup invt (resDevice a) = None) (own_results rs) of
            Some a \<Rightarrow> Inl (DeviceMissing (resDevice a))
          | None \<Rightarrow>
              if own_results rs = [] then Inl (ForeignOnly (claimNamespace claim) (claimName claim))
              else case wFault io of
                     Some (stage, e) \<Rightarrow>
                       Inl (CdiWrite (if stage = AtMkdir then ''creating CDI dir: '' @ e else e))
                   | None \<Rightarrow> Inr (map (handed_out (claimUID claim)) (own_results rs))))"
  by (simp add: prepareClaim_eq writeSpec_error split: option.split flip: missing_device_def)

text \<open>
  C5: a prepared claim is usable.  The claim's file holds a spec that declares exactly the CDI
  ids handed to the kubelet, in order; its device nodes are distinct across all devices, and
  they are the nodes that the claim's own devices need.
\<close>

theorem prepared_claim_usable:
  assumes "prepareClaim invt io claim dir = (Inr devs, dirs)"
  shows "\<exists>rs cs. Allocation claim = Some rs \<and>
    map_of (last dirs) (spec_file (claimUID claim)) = Some (spec_text cs) \<and>
    map CDIDeviceIDs devs = map (\<lambda>c. [qualifiedName (cdiName c)]) cs \<and>
    distinct (concat (map (\<lambda>c. DeviceNodes (ContainerEdits c)) cs)) \<and>
    (\<Union>c \<in> set cs. set (DeviceNodes (ContainerEdits c))) =
      (\<Union>a \<in> set (own_results rs). set (DeviceNodes (editsFor (the (inventory_lookup invt (resDevice a))))))"
proof -
  obtain rs where rs: "Allocation claim = Some rs"
    "devs = map (handed_out (claimUID claim)) (own_results rs)"
    "spec_of (last dirs) (claimUID claim) =
       Some (spec_text (claim_specs invt (claimUID claim) (allocated invt rs)))"
    using assms by (rule prepareClaim_success)
  let ?ads = "allocated invt rs" and ?cs = "claim_specs invt (claimUID claim) (allocated invt rs)"
  have names: "map CDIDeviceIDs devs = map (\<lambda>c. [qualifiedName (cdiName c)]) ?cs"
    by (rule claim_ids [OF rs(2)])
  have nodes: "concat (map (\<lambda>c. DeviceNodes (ContainerEdits c)) ?cs) =
      seenNodes (claim_state (claimUID claim) ?ads)"
    using claim_specs_names_nodes [of invt "claimUID claim" ?ads]
      claim_state_nodes [of "claimUID claim" ?ads] by simp
  have "(\<Union>c \<in> set ?cs. set (DeviceNodes (ContainerEdits c))) =
      set (concat (map (\<lambda>c. DeviceNodes (ContainerEdits c)) ?cs))" by simp
  also have "\<dots> = (\<Union>a \<in> set (own_results rs). set (DeviceNodes (editsFor (the (inventory_lookup invt (resDevice a))))))"
    unfolding nodes claim_state_nodes [THEN conjunct2, THEN conjunct2] by (simp add: allocated_def)
  finally have union: "(\<Union>c \<in> set ?cs. set (DeviceNodes (ContainerEdits c))) =
      (\<Union>a \<in> set (own_results rs). set (DeviceNodes (editsFor (the (inventory_lookup invt (resDevice a))))))" .
  have "distinct (concat (map (\<lambda>c. DeviceNodes (ContainerEdits c)) ?cs))"
    unfolding nodes using claim_state_nodes by blast
  with rs names union show ?thesis unfolding spec_of_def by blast
qed


text \<open>
  ROCm is scoped to the claim's own GPUs.  The environment of each device of the spec is
  the device's own, followed, on a node with more AMD GPUs than one and if every AMD GPU of the
  claim has an identifier, by the same list of the claim's identifiers on every AMD GPU.
\<close>

theorem rocm_scoped:
  assumes "prepareClaim invt io claim dir = (Inr devs, dirs)"
  shows "\<exists>rs cs ds. Allocation claim = Some rs \<and>
    map_of (last dirs) (spec_file (claimUID claim)) = Some (spec_text cs) \<and>
    ds = map (\<lambda>a. the (inventory_lookup invt (resDevice a))) (own_results rs) \<and>
    map (\<lambda>c. Env (ContainerEdits c)) cs =
      map (\<lambda>d. Env (editsFor d) @
        (if (1 < driverCount invt ''amdgpu'' \<and>
             (\<forall>g \<in> set ds. dDriver g = ''amdgpu'' \<longrightarrow> UniqueID g \<noteq> [])) \<and> dDriver d = ''amdgpu''
         then [rocm_env (map UniqueID (filter (\<lambda>g. dDriver g = ''amdgpu'') ds))] else [])) ds"
proof -
  obtain rs where rs: "Allocation claim = Some rs"
    "spec_of (last dirs) (claimUID claim) =
       Some (spec_text (claim_specs invt (claimUID claim) (allocated invt rs)))"
    using assms by (rule prepareClaim_success)
  let ?ads = "allocated invt rs"
  define ds where "ds = map snd ?ads"
  have env: "map (\<lambda>c. Env (ContainerEdits c)) (claim_specs invt (claimUID claim) ?ads) =
      map (\<lambda>d. Env (editsFor d) @
        (if scoped invt ds \<and> dDriver d = ''amdgpu'' then [rocm_env (visible_ids ds)] else [])) ds"
    by (rule nth_equalityI) (simp_all add: length_claim_specs claim_specs_env ds_def)
  have ds: "ds = map (\<lambda>a. the (inventory_lookup invt (resDevice a))) (own_results rs)"
    by (simp add: ds_def allocated_def)
  show ?thesis
    by (intro exI conjI, rule rs(1), rule rs(2) [unfolded spec_of_def], rule ds,
        rule env [unfolded scoped_def visible_ids_def])
qed

section \<open>Batches\<close>

lemma prepareClaim_dir:
  assumes "f \<noteq> tmp_file io" "f \<noteq> spec_file (claimUID claim) \<or> isl (fst (prepareClaim invt io claim dir))"
  shows "map_of (last (snd (prepareClaim invt io claim dir))) f = map_of dir f"
  using assms writeSpec_last [OF assms(1), of _ _ dir] writeSpec_error [of io _ _ dir]
  by (auto simp: prepareClaim_eq split: option.splits if_splits)

lemma prepareClaim_states:
  assumes "d \<in> set (snd (prepareClaim invt io claim dir))"
  shows "spec_of d u = spec_of dir u \<or>
    u = claimUID claim \<and> Allocation claim \<noteq> None \<and>
    spec_of d u = Some (spec_text (claim_specs invt u (allocated invt (the (Allocation claim)))))"
proof -
  have "snd (claim_result devs w) = snd w" for devs w
    by (cases w) (auto simp: claim_result_def split: option.split)
  then show ?thesis
    using assms writeSpec_states [of d io "claimUID claim" _ dir "spec_file u"]
    by (auto simp: prepareClaim_eq spec_of_def split: option.splits if_splits)
qed

text \<open>
  Unpreparing removes exactly the specs of the claims it was asked for, in any order and
  any number of times, reports the errors of the file system claim by claim, and touches no
  other spec and no other file.
\<close>

theorem unprepare_exact:
  assumes "UnprepareResourceClaims faults uids dir = (results, metrics, dir')"
  shows "spec_of dir' u = (if u \<in> set uids \<and> faults u = None then None else spec_of dir u) \<and>
    map_of results u = (if u \<in> set uids then Some (faults u) else None) \<and>
    (\<not> spec_name f \<longrightarrow> map_of dir' f = map_of dir f)"
  using assms
proof (induction uids arbitrary: results metrics dir' rule: rev_induct)
  case (snoc v uids)
  obtain rs ms d where u: "UnprepareResourceClaims faults uids dir = (rs, ms, d)"
    by (cases "UnprepareResourceClaims faults uids dir") auto
  obtain e d' where r: "removeSpec (faults v) v d = (e, d')" by fastforce
  from u r snoc.prems have "results = AList.update v e rs" "dir' = d'"
    by (simp_all add: UnprepareResourceClaims_def unprepare_one_def)
  then show ?case
    using snoc.IH [OF u] removeSpec_spec_of [of "faults v" v d u f]
    by (auto simp: r update_conv')
qed (simp add: UnprepareResourceClaims_def)

lemma gc_spec_of:
  assumes "gcOrphanedSpecs listed faults dir = (err, removed, dir')"
  shows "spec_of dir' u =
      (case listed of
         Inl _ \<Rightarrow> spec_of dir u
       | Inr live \<Rightarrow> if u \<notin> set live \<and> faults u = None then None else spec_of dir u) \<and>
    (\<not> spec_name f \<longrightarrow> map_of dir' f = map_of dir f)"
proof -
  have loop: "spec_of (snd (fold (collect_one live faults) us (n, d))) u =
        (if u \<in> set us \<and> u \<notin> set live \<and> faults u = None then None else spec_of d u) \<and>
      (\<not> spec_name f \<longrightarrow> map_of (snd (fold (collect_one live faults) us (n, d))) f = map_of d f)"
    for live us n d
  proof (induction us arbitrary: n d)
    case (Cons v us)
    obtain e d' where r: "removeSpec (faults v) v d = (e, d')" by fastforce
    have "\<exists>m. collect_one live faults v (n, d) = (m, if v \<in> set live then d else d')"
      by (simp add: collect_one_def r split: option.split)
    then obtain m where m: "collect_one live faults v (n, d) = (m, if v \<in> set live then d else d')" ..
    show ?case
      using Cons [of m "if v \<in> set live then d else d'"] removeSpec_spec_of [of "faults v" v d u f]
      by (auto simp: m r)
  qed simp
  have none: "u \<notin> set (specUIDs dir) \<Longrightarrow> spec_of dir u = None"
    by (simp add: set_specUIDs spec_of_def)
  show ?thesis
  proof (cases "specUIDs dir = []")
    case True
    with assms none show ?thesis by (simp add: gcOrphanedSpecs_def split: sum.split)
  next
    case nonempty: False
    show ?thesis
    proof (cases listed)
      case (Inl e)
      with assms nonempty show ?thesis by (simp add: gcOrphanedSpecs_def)
    next
      case (Inr live)
      with assms nonempty
      have "dir' = snd (fold (collect_one live faults) (specUIDs dir) (0, dir))"
        by (simp add: gcOrphanedSpecs_def)
      then show ?thesis using loop [of live "specUIDs dir" 0 dir] none by (auto simp: Inr)
    qed
  qed
qed

text \<open>
  The collection at start-up removes exactly the orphans.  The spec of a live claim is
  never touched, nor any file that is not a spec; every spec without a live claim goes, unless
  the file system refuses; and when the claims cannot be listed nothing is removed.
\<close>

theorem gc_removes_exactly_orphans:
  assumes "gcOrphanedSpecs listed faults dir = (err, removed, dir')"
  shows "spec_of dir' u =
      (case listed of
         Inl _ \<Rightarrow> spec_of dir u
       | Inr live \<Rightarrow> if u \<notin> set live \<and> faults u = None then None else spec_of dir u) \<and>
    (\<not> spec_name f \<longrightarrow> map_of dir' f = map_of dir f)"
  using assms by (rule gc_spec_of)

lemma prepareClaim_result_dir:
  "fst (prepareClaim invt io claim d) = fst (prepareClaim invt io claim d')"
  by (simp add: prepareClaim_eq writeSpec_error split: option.split)

lemma prepareClaim_spec:
  "spec_of (last (snd (prepareClaim invt io claim dir))) u =
     (if u = claimUID claim \<and> \<not> isl (fst (prepareClaim invt io claim dir))
      then Some (spec_text (claim_specs invt u (allocated invt (the (Allocation claim)))))
      else spec_of dir u)"
  using writeSpec_last [of "spec_file u" io _ _ dir]
  by (auto simp: prepareClaim_eq writeSpec_error spec_of_def split: option.splits)

lemma prepare_batch_gen:
  assumes "PrepareResourceClaims invt claims dir = (results, metrics, dir')"
    and "distinct (map (\<lambda>(c, io). claimUID c) claims)"
  shows "map_of results u =
      map_option (\<lambda>(c, io). fst (prepareClaim invt io c dir)) (find (\<lambda>(c, io). claimUID c = u) claims)"
    and "spec_of dir' u =
      (case find (\<lambda>(c, io). claimUID c = u) claims of
         None \<Rightarrow> spec_of dir u
       | Some (c, io) \<Rightarrow> spec_of (last (snd (prepareClaim invt io c dir))) u)"
proof -
  have "map_of results u =
      map_option (\<lambda>(c, io). fst (prepareClaim invt io c dir)) (find (\<lambda>(c, io). claimUID c = u) claims) \<and>
    spec_of dir' u =
      (case find (\<lambda>(c, io). claimUID c = u) claims of
         None \<Rightarrow> spec_of dir u
       | Some (c, io) \<Rightarrow> spec_of (last (snd (prepareClaim invt io c dir))) u)"
    using assms
  proof (induction claims arbitrary: results metrics dir' rule: rev_induct)
    case (snoc cio claims)
    obtain c io where cio: "cio = (c, io)" by fastforce
    obtain rs ms d where before: "PrepareResourceClaims invt claims dir = (rs, ms, d)"
      by (cases "PrepareResourceClaims invt claims dir") auto
    obtain r dirs where pc: "prepareClaim invt io c d = (r, dirs)" by fastforce
    from before pc snoc.prems(1) have after: "results = AList.update (claimUID c) r rs" "dir' = last dirs"
      by (simp_all add: PrepareResourceClaims_def prepare_one_def cio)
    have r: "fst (prepareClaim invt io c dir) = r"
      using prepareClaim_result_dir [of invt io c dir d] by (simp add: pc)
    have spec: "spec_of (last dirs) u = (if u = claimUID c \<and> \<not> isl r
        then Some (spec_text (claim_specs invt u (allocated invt (the (Allocation c))))) else spec_of d u)"
      using prepareClaim_spec [of invt io c d u] by (simp add: pc)
    have alone: "spec_of (last (snd (prepareClaim invt io c dir))) u = (if u = claimUID c \<and> \<not> isl r
        then Some (spec_text (claim_specs invt u (allocated invt (the (Allocation c))))) else spec_of dir u)"
      using prepareClaim_spec [of invt io c dir u] by (simp add: r)
    have old: "find (\<lambda>(c, io). claimUID c = u) (claims @ [cio]) =
        (case find (\<lambda>(c, io). claimUID c = u) claims of
           Some x \<Rightarrow> Some x | None \<Rightarrow> if claimUID c = u then Some (c, io) else None)"
      by (induction claims) (auto simp: cio)
    have fresh: "u = claimUID c \<Longrightarrow> find (\<lambda>(c, io). claimUID c = u) claims = None"
      using snoc.prems(2) by (force simp: find_None_iff cio)
    note IH = snoc.IH [OF before]
    show ?case
    proof (cases "u = claimUID c")
      case True
      with IH fresh snoc.prems(2) show ?thesis
        unfolding old after
        by (simp add: update_conv' r spec [unfolded True] alone [unfolded True])
    next
      case False
      with IH snoc.prems(2) show ?thesis
        by (auto simp: old after update_conv' spec split: option.split)
    qed
  qed (simp add: PrepareResourceClaims_def)
  then show "map_of results u =
      map_option (\<lambda>(c, io). fst (prepareClaim invt io c dir)) (find (\<lambda>(c, io). claimUID c = u) claims)"
    "spec_of dir' u =
      (case find (\<lambda>(c, io). claimUID c = u) claims of
         None \<Rightarrow> spec_of dir u
       | Some (c, io) \<Rightarrow> spec_of (last (snd (prepareClaim invt io c dir))) u)" by simp_all
qed

text \<open>
  One bad claim does not fail the batch.  In a batch of claims with distinct UIDs, each
  claim gets the result, and its file the text, that it would have got if it had been prepared
  alone; the spec of a claim outside the batch is untouched.
\<close>

theorem prepare_batch_independent:
  assumes "PrepareResourceClaims invt claims dir = (results, metrics, dir')"
    and "distinct (map (\<lambda>(c, io). claimUID c) claims)"
  shows "((claim, io) \<in> set claims \<longrightarrow>
       map_of results (claimUID claim) = Some (fst (prepareClaim invt io claim dir)) \<and>
       spec_of dir' (claimUID claim) = spec_of (last (snd (prepareClaim invt io claim dir))) (claimUID claim)) \<and>
    (u \<notin> claimUID ` fst ` set claims \<longrightarrow> spec_of dir' u = spec_of dir u)"
proof -
  have "find (\<lambda>(c, io). claimUID c = claimUID claim) claims = Some (claim, io)"
    if "(claim, io) \<in> set claims"
    using that assms(2)
  proof (induction claims)
    case (Cons x xs)
    then show ?case by (cases x) force
  qed simp
  moreover have "find (\<lambda>(c, io). claimUID c = u) claims = None" if "u \<notin> claimUID ` fst ` set claims"
    using that by (force simp: find_None_iff)
  ultimately show ?thesis using prepare_batch_gen [OF assms] by simp
qed

section \<open>Node-global nodes\<close>

lemma claim_state_nth:
  "i < length ads \<Longrightarrow>
     DeviceNodes (ContainerEdits (cdiDevices (claim_state uid ads) ! i)) =
       new_nodes (seenNodes (claim_state uid (take i ads))) (DeviceNodes (editsFor (snd (ads ! i))))"
proof (induction ads rule: rev_induct)
  case (snoc ad ads)
  then show ?case
    by (cases ad; cases "i < length ads")
      (auto simp: claim_state_simps prepare_device_def nth_append length_cdiDevices not_less less_Suc_eq_le
        dest: le_antisym)
qed simp

text \<open>
  A device node that several devices of a claim need is declared with the first of them
  only.  A container given the CDI device of a later AMD GPU of the claim, and not the first,
  gets no \<open>/dev/kfd\<close>, although the edits of that GPU ask for it.
\<close>

theorem kfd_declared_once:
  assumes "prepareClaim invt io claim dir = (Inr devs, dirs)" "Allocation claim = Some rs"
    and ds: "ds = map (\<lambda>a. the (inventory_lookup invt (resDevice a))) (own_results rs)"
    and ij: "i < j" "j < length ds" "dDriver (ds ! i) = ''amdgpu''" "dDriver (ds ! j) = ''amdgpu''"
  shows "\<exists>cs. map_of (last dirs) (spec_file (claimUID claim)) = Some (spec_text cs) \<and>
    map CDIDeviceIDs devs = map (\<lambda>c. [qualifiedName (cdiName c)]) cs \<and>
    ''/dev/kfd'' \<in> set (DeviceNodes (editsFor (ds ! j))) \<and>
    ''/dev/kfd'' \<notin> set (DeviceNodes (ContainerEdits (cs ! j)))"
proof -
  let ?ads = "allocated invt rs"
  let ?cs = "claim_specs invt (claimUID claim) ?ads"
  have rs: "devs = map (handed_out (claimUID claim)) (own_results rs)"
    "spec_of (last dirs) (claimUID claim) = Some (spec_text ?cs)"
    using prepareClaim_success [OF assms(1)] assms(2) by (metis option.inject)+
  have len: "length ?ads = length ds" and nth: "k < length ds \<Longrightarrow> snd (?ads ! k) = ds ! k" for k
    by (simp_all add: ds allocated_def)
  have kfd: "dDriver d = ''amdgpu'' \<Longrightarrow> ''/dev/kfd'' \<in> set (DeviceNodes (editsFor d))" for d
    by (simp add: editsFor_def)
  have "?ads ! i \<in> set (take j ?ads)"
    using ij len by (metis in_set_conv_nth length_take min_less_iff_conj nth_take order_less_trans)
  then have "''/dev/kfd'' \<in> set (seenNodes (claim_state (claimUID claim) (take j ?ads)))"
    using kfd [OF ij(3)] nth [of i] ij claim_state_nodes [of "claimUID claim" "take j ?ads"] by force
  then have "''/dev/kfd'' \<notin> set (DeviceNodes (ContainerEdits (?cs ! j)))"
    using ij len new_nodes_facts claim_state_nth [of j ?ads "claimUID claim"]
    by (simp add: claim_specs_nth add_env_def)
  moreover have "map CDIDeviceIDs devs = map (\<lambda>c. [qualifiedName (cdiName c)]) ?cs"
    by (rule claim_ids [OF rs(1)])
  ultimately show ?thesis using rs(2) kfd [OF ij(4)] unfolding spec_of_def by blast
qed


section \<open>An example\<close>

definition sample_gpu :: "string \<Rightarrow> string \<Rightarrow> string \<Rightarrow> string \<Rightarrow> probe_device" where
  "sample_gpu addr cardnode rendernode unique =
     (blank_device KindGPU 0)
       \<lparr>PCIVendor := ''1002'', PCIAddr := addr, dDriver := ''amdgpu'', DevNode := cardnode,
        RenderNode := rendernode, UniqueID := unique\<rparr>"

definition sample_stock :: inventory where
  "sample_stock =
     inventory_set
       [sample_gpu ''0000:03:00.0'' ''/dev/dri/card0'' ''/dev/dri/renderD128'' ''aa01'',
        sample_gpu ''0000:83:00.0'' ''/dev/dri/card1'' ''/dev/dri/renderD129'' ''aa02'']"

definition sample_claimed :: resource_claim where
  "sample_claimed =
     \<lparr>claimNamespace = ''ai'', claimName = ''pair'', claimUID = ''u1'',
      Allocation = Some
        [\<lparr>resRequest = ''first'', resDriver = DriverName, resPool = ''n1'', resDevice = ''gpu-0000-03-00-0''\<rparr>,
         \<lparr>resRequest = ''nic'', resDriver = ''other.example'', resPool = ''n1'', resDevice = ''x''\<rparr>,
         \<lparr>resRequest = ''second'', resDriver = DriverName, resPool = ''n1'', resDevice = ''gpu-0000-83-00-0''\<rparr>]\<rparr>"

lemma sample_lookup:
  "inventory_lookup sample_stock ''gpu-0000-03-00-0'' =
     Some (sample_gpu ''0000:03:00.0'' ''/dev/dri/card0'' ''/dev/dri/renderD128'' ''aa01'')"
  "inventory_lookup sample_stock ''gpu-0000-83-00-0'' =
     Some (sample_gpu ''0000:83:00.0'' ''/dev/dri/card1'' ''/dev/dri/renderD129'' ''aa02'')"
  by (simp_all add: sample_stock_def inventory_set_def NewInventory_def inventory_lookup_def
      sample_gpu_def Name_def dashed_def blank_device_def update_conv')

lemma sample_own:
  "own_results (the (Allocation sample_claimed)) =
    [\<lparr>resRequest = ''first'', resDriver = DriverName, resPool = ''n1'', resDevice = ''gpu-0000-03-00-0''\<rparr>,
     \<lparr>resRequest = ''second'', resDriver = DriverName, resPool = ''n1'', resDevice = ''gpu-0000-83-00-0''\<rparr>]"
  by (simp add: own_results_def sample_claimed_def DriverName_def)

lemma sample_prepared:
  "\<exists>devs dirs. prepareClaim sample_stock sample_io sample_claimed dir = (Inr devs, dirs)"
proof -
  have alloc: "Allocation sample_claimed = Some (the (Allocation sample_claimed))"
    by (simp add: sample_claimed_def)
  have "missing_device sample_stock (the (Allocation sample_claimed)) = None"
    by (simp add: missing_device_def sample_own sample_lookup)
  then have "\<not> isl (fst (prepareClaim sample_stock sample_io sample_claimed dir))"
    by (subst prepareClaim_eq, subst alloc)
      (simp add: sample_own writeSpec_error sample_io_def)
  then show ?thesis
    by (metis prod.collapse sum.collapse(2))
qed

theorem prepared_claim_usable_witness:
  "\<exists>devs dirs rs cs. prepareClaim sample_stock sample_io sample_claimed [] = (Inr devs, dirs) \<and>
    Allocation sample_claimed = Some rs \<and>
    map_of (last dirs) (spec_file ''u1'') = Some (spec_text cs) \<and>
    map CDIDeviceIDs devs = map (\<lambda>c. [qualifiedName (cdiName c)]) cs"
proof -
  obtain devs dirs where p: "prepareClaim sample_stock sample_io sample_claimed [] = (Inr devs, dirs)"
    using sample_prepared by blast
  have "claimUID sample_claimed = ''u1''" by (simp add: sample_claimed_def)
  with prepared_claim_usable [OF p] p show ?thesis by metis
qed

theorem rocm_scoped_witness:
  "\<exists>devs dirs cs. prepareClaim sample_stock sample_io sample_claimed [] = (Inr devs, dirs) \<and>
    map_of (last dirs) (spec_file ''u1'') = Some (spec_text cs) \<and> length cs = 2 \<and>
    (\<forall>c \<in> set cs. last (Env (ContainerEdits c)) = ''ROCR_VISIBLE_DEVICES=GPU-aa01,GPU-aa02'')"
proof -
  obtain devs dirs where p: "prepareClaim sample_stock sample_io sample_claimed [] = (Inr devs, dirs)"
    using sample_prepared by blast
  have uid: "claimUID sample_claimed = ''u1''" by (simp add: sample_claimed_def)
  from rocm_scoped [OF p] obtain rs cs ds where
    rs: "Allocation sample_claimed = Some rs" and
    spec: "map_of (last dirs) (spec_file (claimUID sample_claimed)) = Some (spec_text cs)" and
    ds: "ds = map (\<lambda>a. the (inventory_lookup sample_stock (resDevice a))) (own_results rs)" and
    env: "map (\<lambda>c. Env (ContainerEdits c)) cs =
      map (\<lambda>d. Env (editsFor d) @
        (if (1 < driverCount sample_stock ''amdgpu'' \<and>
             (\<forall>g \<in> set ds. dDriver g = ''amdgpu'' \<longrightarrow> UniqueID g \<noteq> [])) \<and> dDriver d = ''amdgpu''
         then [rocm_env (map UniqueID (filter (\<lambda>g. dDriver g = ''amdgpu'') ds))] else [])) ds"
    by (elim exE conjE)
  have ds': "ds = [sample_gpu ''0000:03:00.0'' ''/dev/dri/card0'' ''/dev/dri/renderD128'' ''aa01'',
      sample_gpu ''0000:83:00.0'' ''/dev/dri/card1'' ''/dev/dri/renderD129'' ''aa02'']"
    using sample_own by (simp add: ds rs sample_lookup)
  have count: "driverCount sample_stock ''amdgpu'' = 2"
    by (simp add: driverCount_def sample_stock_def inventory_set_def NewInventory_def
        sample_gpu_def Name_def dashed_def blank_device_def)
  have drv: "dDriver (sample_gpu a c r u) = ''amdgpu''" "UniqueID (sample_gpu a c r u) = u" for a c r u
    by (simp_all add: sample_gpu_def)
  from env have e: "map (\<lambda>c. Env (ContainerEdits c)) cs =
      map (\<lambda>d. Env (editsFor d) @ [''ROCR_VISIBLE_DEVICES=GPU-aa01,GPU-aa02'']) ds"
    by (simp add: ds' drv count rocm_env_def)
  have "map (\<lambda>c. last (Env (ContainerEdits c))) cs = map last (map (\<lambda>c. Env (ContainerEdits c)) cs)"
    by simp
  then have "map (\<lambda>c. last (Env (ContainerEdits c))) cs =
      [''ROCR_VISIBLE_DEVICES=GPU-aa01,GPU-aa02'', ''ROCR_VISIBLE_DEVICES=GPU-aa01,GPU-aa02'']"
    unfolding e ds' by simp
  then have "length cs = 2 \<and> (\<forall>c \<in> set cs. last (Env (ContainerEdits c)) = ''ROCR_VISIBLE_DEVICES=GPU-aa01,GPU-aa02'')"
    by (auto simp: map_eq_Cons_conv)
  with p spec uid show ?thesis by metis
qed

theorem kfd_declared_once_witness:
  "\<exists>devs dirs cs. prepareClaim sample_stock sample_io sample_claimed [] = (Inr devs, dirs) \<and>
    map_of (last dirs) (spec_file ''u1'') = Some (spec_text cs) \<and>
    ''/dev/kfd'' \<notin> set (DeviceNodes (ContainerEdits (cs ! 1)))"
proof -
  obtain devs dirs where p: "prepareClaim sample_stock sample_io sample_claimed [] = (Inr devs, dirs)"
    using sample_prepared by blast
  have uid: "claimUID sample_claimed = ''u1''" by (simp add: sample_claimed_def)
  have alloc: "Allocation sample_claimed = Some (the (Allocation sample_claimed))"
    by (simp add: sample_claimed_def)
  have drv: "dDriver (sample_gpu a c r u) = ''amdgpu''" for a c r u by (simp add: sample_gpu_def)
  have "\<exists>cs. map_of (last dirs) (spec_file (claimUID sample_claimed)) = Some (spec_text cs) \<and>
    map CDIDeviceIDs devs = map (\<lambda>c. [qualifiedName (cdiName c)]) cs \<and>
    ''/dev/kfd'' \<in> set (DeviceNodes (editsFor (map (\<lambda>a. the (inventory_lookup sample_stock (resDevice a)))
       (own_results (the (Allocation sample_claimed))) ! 1))) \<and>
    ''/dev/kfd'' \<notin> set (DeviceNodes (ContainerEdits (cs ! 1)))"
    by (rule kfd_declared_once [OF p alloc refl, of 0 1]) (simp_all add: sample_own sample_lookup drv)
  with p uid show ?thesis by metis
qed

theorem unprepare_exact_witness:
  "spec_of (snd (snd (UnprepareResourceClaims (\<lambda>_. None) [''u1'', ''u1''] (write_file ''u1'' ''text'' [])))) ''u1'' = None"
proof -
  obtain r m d where u: "UnprepareResourceClaims (\<lambda>_. None) [''u1'', ''u1''] (write_file ''u1'' ''text'' []) = (r, m, d)"
    by (metis prod_cases3)
  from unprepare_exact [OF u, of "''u1''"] show ?thesis by (simp add: u)
qed

theorem gc_removes_exactly_orphans_witness:
  "spec_of (snd (snd (gcOrphanedSpecs (Inr [''u1'']) (\<lambda>_. None)
      (write_file ''u2'' ''old'' (write_file ''u1'' ''text'' []))))) ''u1'' = Some ''text'' \<and>
   spec_of (snd (snd (gcOrphanedSpecs (Inr [''u1'']) (\<lambda>_. None)
      (write_file ''u2'' ''old'' (write_file ''u1'' ''text'' []))))) ''u2'' = None"
proof -
  let ?dir = "write_file ''u2'' ''old'' (write_file ''u1'' ''text'' [])"
  obtain e n d where g: "gcOrphanedSpecs (Inr [''u1'']) (\<lambda>_. None) ?dir = (e, n, d)"
    by (metis prod_cases3)
  have "spec_of ?dir ''u1'' = Some ''text''"
    by (simp add: specs.get_put)
  with gc_removes_exactly_orphans [OF g, of "''u1''"] gc_removes_exactly_orphans [OF g, of "''u2''"]
  show ?thesis by (simp add: g)
qed

theorem prepare_batch_independent_witness:
  "map_of (fst (PrepareResourceClaims sample_stock
      [(sample_claimed\<lparr>claimUID := ''u0'', Allocation := None\<rparr>, sample_io), (sample_claimed, sample_io)] [])) ''u1'' =
     Some (fst (prepareClaim sample_stock sample_io sample_claimed []))"
proof -
  let ?claims = "[(sample_claimed\<lparr>claimUID := ''u0'', Allocation := None\<rparr>, sample_io), (sample_claimed, sample_io)]"
  obtain r m d where b: "PrepareResourceClaims sample_stock ?claims [] = (r, m, d)"
    by (metis prod_cases3)
  have uid: "claimUID sample_claimed = ''u1''" by (simp add: sample_claimed_def)
  have "distinct (map (\<lambda>(c, io). claimUID c) ?claims)" by (simp add: uid)
  from prepare_batch_independent [OF b this, of sample_claimed sample_io] show ?thesis
    by (simp add: b uid)
qed

text \<open>The inventory answers with the last probed device of a name.\<close>

lemma inventory_set_lookup:
  "inventory_lookup (inventory_set ds) n = find (\<lambda>d. Name d = n) (rev ds)"
proof (induction ds rule: rev_induct)
  case (snoc d ds)
  have "inventory_set (ds @ [d]) = AList.update (Name d) d (inventory_set ds)"
    by (simp add: inventory_set_def)
  then show ?case using snoc by (auto simp: inventory_lookup_def update_conv')
qed (simp add: inventory_set_def inventory_lookup_def NewInventory_def)

end
