(* ===== verification/PrepareRace.thy ===== *)
theory PrepareRace
  imports NodePlugin
begin

text \<open>
  Preparing a claim while the probe loop replaces the inventory (\<open>internal/nodeplugin/plugin.go\<close>).
  The inventory's lock is taken for each lookup and for the count of GPUs, not for the whole
  preparation, so each of these reads may see another snapshot.  The reads of one preparation
  are numbered from 0; \<open>snap k\<close> is what read number \<open>k\<close> sees.
\<close>

section \<open>Preparing with one snapshot per read\<close>

fun prepare_results_at ::
  "(nat \<Rightarrow> inventory) \<Rightarrow> nat \<Rightarrow> string \<Rightarrow> alloc_result list \<Rightarrow> prepare_state \<Rightarrow>
     prepare_error + (nat \<times> prepare_state)" where
  "prepare_results_at snap k uid [] st = Inr (k, st)"
| "prepare_results_at snap k uid (a # as) st =
     (if resDriver a \<noteq> DriverName then prepare_results_at snap k uid as st
      else case inventory_lookup (snap k) (resDevice a) of
             None \<Rightarrow> Inl (DeviceMissing (resDevice a))
           | Some d \<Rightarrow> prepare_results_at snap (Suc k) uid as (prepare_device uid a d st))"

definition prepareClaim_at ::
  "(nat \<Rightarrow> inventory) \<Rightarrow> write_io \<Rightarrow> resource_claim \<Rightarrow> cdi_dir \<Rightarrow>
     (prepare_error + prepared_device list) \<times> cdi_dir list" where
  "prepareClaim_at snap io claim dir =
     (case Allocation claim of
        None \<Rightarrow> (Inl (NoAllocation (claimNamespace claim) (claimName claim)), [dir])
      | Some results \<Rightarrow>
          (case prepare_results_at snap 0 (claimUID claim) results prepare_start of
             Inl e \<Rightarrow> (Inl e, [dir])
           | Inr (k, st) \<Rightarrow> finish_claim (snap k) io claim st dir))"

text \<open>Without a re-probe in between this is the preparation of theory NodePlugin.\<close>

lemma prepare_results_at_const:
  "prepare_results (snap 0) uid rs st =
     (case prepare_results_at (\<lambda>_. snap 0) k uid rs st of Inl e \<Rightarrow> Inl e | Inr (_, st') \<Rightarrow> Inr st')"
  by (induction rs arbitrary: k st) (auto split: option.split)

lemma prepareClaim_at_const: "prepareClaim_at (\<lambda>_. invt) io claim dir = prepareClaim invt io claim dir"
proof -
  have "prepare_results invt uid rs st =
      (case prepare_results_at (\<lambda>_. invt) 0 uid rs st of Inl e \<Rightarrow> Inl e | Inr (_, st') \<Rightarrow> Inr st')"
    for uid rs st using prepare_results_at_const [of "\<lambda>_. invt"] by simp
  then show ?thesis
    by (simp add: prepareClaim_at_def prepareClaim_def split: option.split sum.split prod.split)
qed

section \<open>What a preparation saw\<close>

text \<open>The claim's own results, each with the device its own lookup saw.\<close>

definition seen_by :: "(nat \<Rightarrow> inventory) \<Rightarrow> alloc_result list \<Rightarrow> (alloc_result \<times> probe_device) list" where
  "seen_by snap rs =
     map (\<lambda>(k, a). (a, the (inventory_lookup (snap k) (resDevice a)))) (enumerate 0 (own_results rs))"

definition missed_by :: "(nat \<Rightarrow> inventory) \<Rightarrow> alloc_result list \<Rightarrow> alloc_result option" where
  "missed_by snap rs =
     map_option snd (find (\<lambda>(k, a). inventory_lookup (snap k) (resDevice a) = None)
       (enumerate 0 (own_results rs)))"

lemma prepare_results_at_gen:
  "prepare_results_at snap k uid rs st =
     (case find (\<lambda>(i, a). inventory_lookup (snap i) (resDevice a) = None) (enumerate k (own_results rs)) of
        Some (i, a) \<Rightarrow> Inl (DeviceMissing (resDevice a))
      | None \<Rightarrow> Inr (k + length (own_results rs),
          fold (\<lambda>(a, d). prepare_device uid a d)
            (map (\<lambda>(i, a). (a, the (inventory_lookup (snap i) (resDevice a)))) (enumerate k (own_results rs))) st))"
  by (induction snap k uid rs st rule: prepare_results_at.induct)
    (auto simp: own_results_def split: option.splits)

lemma prepareClaim_at_eq:
  "prepareClaim_at snap io claim dir =
    (case Allocation claim of
       None \<Rightarrow> (Inl (NoAllocation (claimNamespace claim) (claimName claim)), [dir])
     | Some rs \<Rightarrow>
         (case missed_by snap rs of
            Some a \<Rightarrow> (Inl (DeviceMissing (resDevice a)), [dir])
          | None \<Rightarrow>
              if own_results rs = [] then (Inl (ForeignOnly (claimNamespace claim) (claimName claim)), [dir])
              else claim_result (map (handed_out (claimUID claim)) (own_results rs))
                     (writeSpec io (claimUID claim)
                       (claim_specs (snap (length (own_results rs))) (claimUID claim) (seen_by snap rs)) dir)))"
proof -
  have st: "claim_state uid (seen_by snap rs) = fold (\<lambda>(a, d). prepare_device uid a d)
      (map (\<lambda>(i, a). (a, the (inventory_lookup (snap i) (resDevice a)))) (enumerate 0 (own_results rs)))
      prepare_start" for uid rs
    by (simp add: claim_state_def seen_by_def)
  have "prepared (claim_state uid (seen_by snap rs)) = map (\<lambda>(a, d). handed_out uid a) (seen_by snap rs)" for uid rs
    using claim_state_outputs by blast
  moreover have "map (\<lambda>(a, d). handed_out uid a) (seen_by snap rs) = map (handed_out uid) (own_results rs)" for uid rs
    by (simp add: seen_by_def case_prod_unfold comp_def flip: map_map [of "handed_out uid" snd, unfolded comp_def])
  moreover have "prepared prepare_start = []" by (simp add: prepare_start_def)
  ultimately show ?thesis
    by (auto simp: prepareClaim_at_def prepare_results_at_gen finish_claim_def claim_specs_def missed_by_def
        st [symmetric] split: option.split)
qed


lemma seen_by_facts:
  assumes "missed_by snap rs = None"
  shows "map fst (seen_by snap rs) = own_results rs"
    "k < length (seen_by snap rs) \<Longrightarrow>
      inventory_lookup (snap k) (resDevice (fst (seen_by snap rs ! k))) = Some (snd (seen_by snap rs ! k))"
proof -
  show "map fst (seen_by snap rs) = own_results rs"
    by (simp add: seen_by_def comp_def case_prod_unfold)
  assume k: "k < length (seen_by snap rs)"
  then have "(k, own_results rs ! k) \<in> set (enumerate 0 (own_results rs))"
    by (simp add: seen_by_def in_set_enumerate_eq)
  then have "inventory_lookup (snap k) (resDevice (own_results rs ! k)) \<noteq> None"
    using assms by (fastforce simp: missed_by_def find_None_iff)
  with k show "inventory_lookup (snap k) (resDevice (fst (seen_by snap rs ! k))) = Some (snd (seen_by snap rs ! k))"
    by (auto simp: seen_by_def nth_enumerate_eq)
qed

lemma prepareClaim_at_success:
  assumes "prepareClaim_at snap io claim dir = (Inr devs, dirs)"
  obtains rs where "Allocation claim = Some rs" "missed_by snap rs = None"
    "devs = map (handed_out (claimUID claim)) (own_results rs)"
    "spec_of (last dirs) (claimUID claim) =
       Some (spec_text (claim_specs (snap (length (own_results rs))) (claimUID claim) (seen_by snap rs)))"
proof -
  obtain rs where rs: "Allocation claim = Some rs" "missed_by snap rs = None" "own_results rs \<noteq> []"
    using assms by (auto simp: prepareClaim_at_eq split: option.splits if_splits)
  let ?cs = "claim_specs (snap (length (own_results rs))) (claimUID claim) (seen_by snap rs)"
  have w: "writeSpec io (claimUID claim) ?cs dir = (None, dirs)"
    and d: "devs = map (handed_out (claimUID claim)) (own_results rs)"
    using assms rs by (auto simp: prepareClaim_at_eq claim_result_def split: option.splits prod.splits)
  have "spec_of (last dirs) (claimUID claim) = Some (spec_text ?cs)"
    using writeSpec_last [of "spec_file (claimUID claim)" io "claimUID claim" ?cs dir]
      writeSpec_error [of io "claimUID claim" ?cs dir]
    by (simp add: w spec_of_def)
  with rs d that show thesis by blast
qed

section \<open>Properties\<close>

text \<open>
  C31: a preparation is usable even if the inventory is replaced during it.  Whatever snapshot
  each lookup sees, the claim's file declares exactly the CDI ids handed to the kubelet, its
  device nodes are distinct across all devices, and they are those needed by the devices the
  lookups saw under the allocated names; with one snapshot throughout, the call is the
  preparation of theory NodePlugin.
\<close>

theorem prepare_under_reprobe:
  "(\<forall>devs dirs. prepareClaim_at snap io claim dir = (Inr devs, dirs) \<longrightarrow>
    (\<exists>rs ads cs. Allocation claim = Some rs \<and> map fst ads = own_results rs \<and>
      (\<forall>k < length ads. inventory_lookup (snap k) (resDevice (fst (ads ! k))) = Some (snd (ads ! k))) \<and>
      map_of (last dirs) (spec_file (claimUID claim)) = Some (spec_text cs) \<and>
      map CDIDeviceIDs devs = map (\<lambda>c. [qualifiedName (cdiName c)]) cs \<and>
      distinct (concat (map (\<lambda>c. DeviceNodes (ContainerEdits c)) cs)) \<and>
      (\<Union>c \<in> set cs. set (DeviceNodes (ContainerEdits c))) =
        (\<Union>ad \<in> set ads. set (DeviceNodes (editsFor (snd ad)))))) \<and>
   prepareClaim_at (\<lambda>_. invt) io claim dir = prepareClaim invt io claim dir"
proof (intro conjI allI impI)
  fix devs dirs assume p: "prepareClaim_at snap io claim dir = (Inr devs, dirs)"
  obtain rs where rs: "Allocation claim = Some rs" "missed_by snap rs = None"
    "devs = map (handed_out (claimUID claim)) (own_results rs)"
    "spec_of (last dirs) (claimUID claim) =
       Some (spec_text (claim_specs (snap (length (own_results rs))) (claimUID claim) (seen_by snap rs)))"
    using p by (rule prepareClaim_at_success)
  let ?ads = "seen_by snap rs"
  let ?cs = "claim_specs (snap (length (own_results rs))) (claimUID claim) ?ads"
  note seen = seen_by_facts [OF rs(2)]
  have "map (\<lambda>c. [qualifiedName (cdiName c)]) ?cs =
      map (\<lambda>n. [qualifiedName n]) (map (\<lambda>(a, d). claim_device_name (claimUID claim) a) ?ads)"
    by (simp flip: claim_specs_names_nodes [THEN conjunct1, of "snap (length (own_results rs))" "claimUID claim" ?ads])
  also have "\<dots> = map (\<lambda>a. [qualifiedName (claim_device_name (claimUID claim) a)]) (map fst ?ads)"
    by (simp add: case_prod_unfold)
  finally have ids: "map CDIDeviceIDs devs = map (\<lambda>c. [qualifiedName (cdiName c)]) ?cs"
    unfolding seen(1) by (simp add: rs(3) handed_out_def)
  have nodes: "concat (map (\<lambda>c. DeviceNodes (ContainerEdits c)) ?cs) = seenNodes (claim_state (claimUID claim) ?ads)"
    using claim_specs_names_nodes [of "snap (length (own_results rs))" "claimUID claim" ?ads]
      claim_state_nodes [of "claimUID claim" ?ads] by simp
  have "(\<Union>c \<in> set ?cs. set (DeviceNodes (ContainerEdits c))) =
      set (concat (map (\<lambda>c. DeviceNodes (ContainerEdits c)) ?cs))" by simp
  also have "\<dots> = (\<Union>ad \<in> set ?ads. set (DeviceNodes (editsFor (snd ad))))"
    unfolding nodes using claim_state_nodes by blast
  finally have union: "(\<Union>c \<in> set ?cs. set (DeviceNodes (ContainerEdits c))) =
      (\<Union>ad \<in> set ?ads. set (DeviceNodes (editsFor (snd ad))))" .
  have "distinct (concat (map (\<lambda>c. DeviceNodes (ContainerEdits c)) ?cs))"
    unfolding nodes using claim_state_nodes by blast
  with rs seen ids union show "\<exists>rs ads cs. Allocation claim = Some rs \<and> map fst ads = own_results rs \<and>
      (\<forall>k < length ads. inventory_lookup (snap k) (resDevice (fst (ads ! k))) = Some (snd (ads ! k))) \<and>
      map_of (last dirs) (spec_file (claimUID claim)) = Some (spec_text cs) \<and>
      map CDIDeviceIDs devs = map (\<lambda>c. [qualifiedName (cdiName c)]) cs \<and>
      distinct (concat (map (\<lambda>c. DeviceNodes (ContainerEdits c)) cs)) \<and>
      (\<Union>c \<in> set cs. set (DeviceNodes (ContainerEdits c))) =
        (\<Union>ad \<in> set ads. set (DeviceNodes (editsFor (snd ad))))"
    unfolding spec_of_def by (intro exI [of _ rs] exI [of _ ?ads] exI [of _ ?cs] conjI allI impI) simp_all
next
  show "prepareClaim_at (\<lambda>_. invt) io claim dir = prepareClaim invt io claim dir"
    by (rule prepareClaim_at_const)
qed

text \<open>The second card has gone when the GPUs are counted: both are still handed out.\<close>

definition sample_snap :: "nat \<Rightarrow> inventory" where
  "sample_snap k =
     (if k < 2 then sample_stock
      else inventory_set [sample_gpu ''0000:03:00.0'' ''/dev/dri/card0'' ''/dev/dri/renderD128'' ''aa01''])"

theorem prepare_under_reprobe_witness:
  "\<exists>devs dirs cs. prepareClaim_at sample_snap sample_io sample_claimed [] = (Inr devs, dirs) \<and>
     map_of (last dirs) (spec_file ''u1'') = Some (spec_text cs) \<and>
     map CDIDeviceIDs devs = map (\<lambda>c. [qualifiedName (cdiName c)]) cs"
proof -
  have alloc: "Allocation sample_claimed = Some (the (Allocation sample_claimed))"
    by (simp add: sample_claimed_def)
  have "missed_by sample_snap (the (Allocation sample_claimed)) = None"
    by (simp add: missed_by_def sample_own sample_snap_def sample_lookup)
  then have "\<not> isl (fst (prepareClaim_at sample_snap sample_io sample_claimed []))"
    by (subst prepareClaim_at_eq, subst alloc) (simp add: sample_own writeSpec_error sample_io_def)
  then obtain devs dirs where p: "prepareClaim_at sample_snap sample_io sample_claimed [] = (Inr devs, dirs)"
    by (metis prod.collapse sum.collapse(2))
  have uid: "claimUID sample_claimed = ''u1''" by (simp add: sample_claimed_def)
  from prepare_under_reprobe [of sample_snap sample_io sample_claimed "[]", THEN conjunct1, rule_format, OF p]
  obtain cs where "map_of (last dirs) (spec_file ''u1'') = Some (spec_text cs)"
    "map CDIDeviceIDs devs = map (\<lambda>c. [qualifiedName (cdiName c)]) cs"
    unfolding uid by blast
  with p show ?thesis by blast
qed

end
