(* ===== verification/Lifecycle.thy ===== *)
theory Lifecycle
  imports NodePlugin
begin

text \<open>
  The spec file of a claim over the life of a node: preparing, unpreparing and collecting
  (\<open>internal/nodeplugin/plugin.go\<close>) in any order, with the plugin dying and starting in between.
\<close>

section \<open>What happens to the directory of a node\<close>

text \<open>
  The calls of the kubelet and the deaths and starts of the plugin, with what the file system and
  the API server answer.  A plugin killed while it prepares a claim leaves one of the states that a
  watcher could have seen.
\<close>

datatype plugin_event =
  PrepareCall inventory "(resource_claim \<times> write_io) list"
| UnprepareCall "string \<Rightarrow> string option" "string list"
| Killed inventory write_io resource_claim nat
| Started "string option" "string list result" "string \<Rightarrow> string option"

fun after_event :: "plugin_event \<Rightarrow> cdi_dir \<Rightarrow> cdi_dir" where
  "after_event (PrepareCall invt claims) dir = snd (snd (PrepareResourceClaims invt claims dir))"
| "after_event (UnprepareCall faults uids) dir = snd (snd (UnprepareResourceClaims faults uids dir))"
| "after_event (Killed invt io claim k) dir =
     (let states = snd (prepareClaim invt io claim dir) in states ! (k mod length states))"
| "after_event (Started mkdir_error listed faults) dir = snd (Start mkdir_error listed faults [] [] dir)"

definition run_events :: "plugin_event list \<Rightarrow> cdi_dir \<Rightarrow> cdi_dir" where
  "run_events evs dir = fold after_event evs dir"

text \<open>An event that does not end the life of a claim: it is not unprepared, its allocation does
  not change, and when the claims can be listed it is among them.\<close>

fun spares :: "resource_claim \<Rightarrow> plugin_event \<Rightarrow> bool" where
  "spares c (PrepareCall invt claims) \<longleftrightarrow>
     (\<forall>(c', io) \<in> set claims. claimUID c' = claimUID c \<longrightarrow> Allocation c' = Allocation c)"
| "spares c (UnprepareCall faults uids) \<longleftrightarrow> claimUID c \<notin> set uids"
| "spares c (Killed invt io c' k) \<longleftrightarrow> (claimUID c' = claimUID c \<longrightarrow> Allocation c' = Allocation c)"
| "spares c (Started mkdir_error listed faults) \<longleftrightarrow>
     (case listed of Inl _ \<Rightarrow> True | Inr live \<Rightarrow> claimUID c \<in> set live)"

text \<open>The file of a claim declares these CDI ids.\<close>

definition declares :: "cdi_dir \<Rightarrow> string \<Rightarrow> string list \<Rightarrow> bool" where
  "declares dir uid ids \<longleftrightarrow>
     (\<exists>cs. spec_of dir uid = Some (spec_text cs) \<and> map (\<lambda>d. qualifiedName (cdiName d)) cs = ids)"

definition claim_cdi_ids :: "resource_claim \<Rightarrow> string list" where
  "claim_cdi_ids c =
     map (\<lambda>a. qualifiedName (claim_device_name (claimUID c) a)) (own_results (the (Allocation c)))"

lemma claim_specs_ids:
  "map (\<lambda>d. qualifiedName (cdiName d)) (claim_specs invt (claimUID c) (allocated invt (the (Allocation c)))) =
     claim_cdi_ids c"
  using arg_cong [OF claim_specs_names_nodes [of invt "claimUID c" "allocated invt (the (Allocation c))",
      THEN conjunct1], of "map qualifiedName"]
  by (simp add: comp_def claim_cdi_ids_def allocated_def)

lemma written_declares:
  assumes "claimUID c' = claimUID c" "Allocation c' = Allocation c"
    and "spec_of d (claimUID c) = Some (spec_text (claim_specs invt (claimUID c) (allocated invt (the (Allocation c')))))"
  shows "declares d (claimUID c) (claim_cdi_ids c)"
  using assms claim_specs_ids [of invt c] unfolding declares_def by auto

lemma prepareClaim_nonempty: "snd (prepareClaim invt io claim dir) \<noteq> []"
proof -
  have "snd (writeSpec io uid cs dir) \<noteq> []" for uid cs
    by (auto simp: writeSpec_def tmp_states_def split: option.splits write_stage.splits)
  then show ?thesis
    by (auto simp: prepareClaim_eq claim_result_def split: option.splits prod.splits) (metis snd_conv)+
qed

lemma state_declares:
  assumes "declares dir (claimUID c) (claim_cdi_ids c)"
    and "claimUID c' = claimUID c \<longrightarrow> Allocation c' = Allocation c"
    and "d \<in> set (snd (prepareClaim invt io c' dir))"
  shows "declares d (claimUID c) (claim_cdi_ids c)"
  using prepareClaim_states [OF assms(3), of "claimUID c"] assms(1,2) written_declares [of c' c d invt]
  by (auto simp: declares_def)

lemma prepare_one_dir:
  "snd (snd (prepare_one invt (c, io) s)) = last (snd (prepareClaim invt io c (snd (snd s))))"
  by (cases s) (simp add: prepare_one_def case_prod_beta)

lemma spared_declares:
  assumes "declares dir (claimUID c) (claim_cdi_ids c)" and "spares c e"
  shows "declares (after_event e dir) (claimUID c) (claim_cdi_ids c)"
proof (cases e)
  case (PrepareCall invt claims)
  have "declares (snd (snd (fold (prepare_one invt) claims s))) (claimUID c) (claim_cdi_ids c)"
    if "declares (snd (snd s)) (claimUID c) (claim_cdi_ids c)" "spares c (PrepareCall invt claims)" for s
    using that
  proof (induction claims arbitrary: s)
    case (Cons x claims)
    obtain c' io where x: "x = (c', io)" by (cases x)
    have "declares (snd (snd s)) (claimUID c) (claim_cdi_ids c)"
      "claimUID c' = claimUID c \<longrightarrow> Allocation c' = Allocation c"
      using Cons.prems by (simp_all add: x)
    then have "declares (snd (snd (prepare_one invt x s))) (claimUID c) (claim_cdi_ids c)"
      unfolding x prepare_one_dir by (rule state_declares [OF _ _ last_in_set]) (rule prepareClaim_nonempty)
    with Cons show ?case by simp
  qed simp
  with assms show ?thesis by (simp add: PrepareCall PrepareResourceClaims_def)
next
  case (UnprepareCall faults uids)
  obtain rs ms d where u: "UnprepareResourceClaims faults uids dir = (rs, ms, d)" by (metis prod_cases3)
  show ?thesis using assms unprepare_exact [OF u, of "claimUID c"] by (simp add: UnprepareCall u declares_def)
next
  case (Killed invt io c' k)
  have "snd (prepareClaim invt io c' dir) ! (k mod length (snd (prepareClaim invt io c' dir))) \<in>
      set (snd (prepareClaim invt io c' dir))"
    by (simp add: prepareClaim_nonempty)
  with assms show ?thesis using state_declares by (simp add: Killed Let_def)
next
  case (Started mk listed faults)
  obtain er n d where g: "gcOrphanedSpecs listed faults dir = (er, n, d)" by (metis prod_cases3)
  show ?thesis
    using assms gc_spec_of [OF g, of "claimUID c"]
    by (auto simp: Started Start_def g declares_def split: option.split sum.splits)
qed

lemma spared_run_declares:
  assumes "\<forall>e \<in> set evs. spares c e" and "declares dir (claimUID c) (claim_cdi_ids c)"
  shows "declares (run_events evs dir) (claimUID c) (claim_cdi_ids c)"
  using assms
proof (induction evs arbitrary: dir)
  case (Cons e evs)
  then show ?case using spared_declares [of dir c e] by (simp add: run_events_def)
qed (simp add: run_events_def)

section \<open>Where specs come from\<close>

fun may_write :: "string \<Rightarrow> plugin_event \<Rightarrow> bool" where
  "may_write u (PrepareCall invt claims) \<longleftrightarrow> (\<exists>(c, io) \<in> set claims. claimUID c = u \<and> Allocation c \<noteq> None)"
| "may_write u (Killed invt io c k) \<longleftrightarrow> claimUID c = u \<and> Allocation c \<noteq> None"
| "may_write u _ \<longleftrightarrow> False"

fun removes :: "string \<Rightarrow> plugin_event \<Rightarrow> bool" where
  "removes u (UnprepareCall faults uids) \<longleftrightarrow> u \<in> set uids \<and> faults u = None"
| "removes u (Started mkdir_error listed faults) \<longleftrightarrow>
     mkdir_error = None \<and> (case listed of Inl _ \<Rightarrow> False | Inr live \<Rightarrow> u \<notin> set live \<and> faults u = None)"
| "removes u _ \<longleftrightarrow> False"

lemma prepareClaim_quiet:
  assumes "d \<in> set (snd (prepareClaim invt io c dir))"
    and "spec_of dir u = None" "\<not> (claimUID c = u \<and> Allocation c \<noteq> None)"
  shows "spec_of d u = None"
  using prepareClaim_states [OF assms(1), of u] assms(2,3) by auto

lemma event_spec:
  "(removes u e \<longrightarrow> spec_of (after_event e dir) u = None) \<and>
   (\<not> may_write u e \<longrightarrow> spec_of dir u = None \<longrightarrow> spec_of (after_event e dir) u = None)"
proof (cases e)
  case (PrepareCall invt claims)
  have "spec_of (snd (snd (fold (prepare_one invt) claims s))) u = None"
    if "spec_of (snd (snd s)) u = None" "\<not> may_write u (PrepareCall invt claims)" for s
    using that
  proof (induction claims arbitrary: s)
    case (Cons x claims)
    obtain c io where x: "x = (c, io)" by (cases x)
    have "spec_of (snd (snd (prepare_one invt x s))) u = None"
      unfolding x prepare_one_dir
      by (rule prepareClaim_quiet [OF last_in_set [OF prepareClaim_nonempty]]) (use Cons.prems in \<open>auto simp: x\<close>)
    with Cons show ?case by simp
  qed simp
  then show ?thesis by (simp add: PrepareCall PrepareResourceClaims_def)
next
  case (UnprepareCall faults uids)
  obtain rs ms d where "UnprepareResourceClaims faults uids dir = (rs, ms, d)"
    by (cases "UnprepareResourceClaims faults uids dir") auto
  then show ?thesis using unprepare_exact by (simp add: UnprepareCall)
next
  case (Killed invt io c k)
  have "snd (prepareClaim invt io c dir) ! (k mod length (snd (prepareClaim invt io c dir))) \<in>
      set (snd (prepareClaim invt io c dir))"
    by (simp add: prepareClaim_nonempty)
  then show ?thesis using prepareClaim_quiet by (auto simp: Killed Let_def)
next
  case (Started mk listed faults)
  obtain er n d where g: "gcOrphanedSpecs listed faults dir = (er, n, d)"
    by (cases "gcOrphanedSpecs listed faults dir") auto
  show ?thesis
    using gc_spec_of [OF g, of u]
    by (auto simp: Started Start_def g split: option.split sum.splits)
qed

section \<open>Properties\<close>

text \<open>
  C25: a claim keeps its spec for life.  From a successful preparation on, through any sequence of
  batches, retries against other inventories, deaths of the plugin in the middle of a write, starts and
  removals of other claims, the claim's file holds a complete spec that declares exactly the CDI ids
  that were handed to the kubelet.
\<close>

theorem claim_spec_lifetime:
  assumes "prepareClaim invt io c dir = (Inr devs, dirs)" and "\<forall>e \<in> set evs. spares c e"
  shows "\<exists>cs. spec_of (run_events evs (last dirs)) (claimUID c) = Some (spec_text cs) \<and>
    map CDIDeviceIDs devs = map (\<lambda>d. [qualifiedName (cdiName d)]) cs"
proof -
  obtain rs where rs: "Allocation c = Some rs" "devs = map (handed_out (claimUID c)) (own_results rs)"
    "spec_of (last dirs) (claimUID c) = Some (spec_text (claim_specs invt (claimUID c) (allocated invt rs)))"
    using assms(1) by (rule prepareClaim_success)
  have "declares (last dirs) (claimUID c) (claim_cdi_ids c)"
    using written_declares [of c c "last dirs" invt] rs(1,3) by simp
  from spared_run_declares [OF assms(2) this] obtain cs where
    cs: "spec_of (run_events evs (last dirs)) (claimUID c) = Some (spec_text cs)"
      "map (\<lambda>d. qualifiedName (cdiName d)) cs = claim_cdi_ids c"
    by (auto simp: declares_def)
  have "map CDIDeviceIDs devs = map (\<lambda>i. [i]) (claim_cdi_ids c)"
    by (simp add: rs claim_cdi_ids_def handed_out_def)
  then have "map CDIDeviceIDs devs = map (\<lambda>d. [qualifiedName (cdiName d)]) cs"
    by (simp add: comp_def flip: cs(2))
  with cs(1) show ?thesis by blast
qed

text \<open>
  C39: no spec outlives its claim unnoticed.  On a directory that starts empty, a spec that exists
  was written for an allocated claim of that UID, and since then the claim has not been unprepared
  with success, and no start has listed the claims without it and been able to remove the file.
\<close>

theorem every_spec_accounted:
  assumes "spec_of (run_events evs []) u \<noteq> None"
  shows "\<exists>pre e post. evs = pre @ e # post \<and> may_write u e \<and> (\<forall>e' \<in> set post. \<not> removes u e')"
  using assms
proof (induction evs rule: rev_induct)
  case (snoc e evs)
  have step: "run_events (evs @ [e]) [] = after_event e (run_events evs [])" by (simp add: run_events_def)
  have kept: "\<not> removes u e" "may_write u e \<or> spec_of (run_events evs []) u \<noteq> None"
    using snoc.prems event_spec [of u e "run_events evs []"] unfolding step by auto
  show ?case
  proof (cases "may_write u e")
    case True
    then show ?thesis by (intro exI [of _ evs] exI [of _ e] exI [of _ "[]"]) simp
  next
    case False
    with kept snoc.IH obtain pre e' post where
      "evs = pre @ e' # post" "may_write u e'" "\<forall>x \<in> set post. \<not> removes u x" by blast
    with kept(1) show ?thesis by (intro exI [of _ pre] exI [of _ e'] exI [of _ "post @ [e]"]) simp
  qed
qed (simp add: run_events_def spec_of_def)

definition sample_history :: "plugin_event list" where
  "sample_history =
     [Killed [] sample_io sample_claimed 2,
      Started None (Inr [''u1'']) (\<lambda>_. None),
      PrepareCall sample_stock [(sample_claimed, sample_io)],
      UnprepareCall (\<lambda>_. None) [''u2''],
      Killed sample_stock sample_io sample_claimed 2]"

theorem claim_spec_lifetime_witness:
  "\<exists>devs dirs cs. prepareClaim sample_stock sample_io sample_claimed [] = (Inr devs, dirs) \<and>
     spec_of (run_events sample_history (last dirs)) ''u1'' = Some (spec_text cs) \<and>
     map CDIDeviceIDs devs = map (\<lambda>d. [qualifiedName (cdiName d)]) cs"
proof -
  obtain devs dirs where p: "prepareClaim sample_stock sample_io sample_claimed [] = (Inr devs, dirs)"
    using sample_prepared by blast
  have uid: "claimUID sample_claimed = ''u1''" by (simp add: sample_claimed_def)
  have "\<forall>e \<in> set sample_history. spares sample_claimed e" by (simp add: sample_history_def uid)
  from claim_spec_lifetime [OF p this] p uid show ?thesis by auto
qed

theorem every_spec_accounted_witness:
  "\<exists>pre e post. PrepareCall sample_stock [(sample_claimed, sample_io)] # sample_history = pre @ e # post \<and>
     may_write ''u1'' e \<and> \<not> (\<exists>e' \<in> set post. removes ''u1'' e')"
proof -
  obtain devs dirs where p: "prepareClaim sample_stock sample_io sample_claimed [] = (Inr devs, dirs)"
    using sample_prepared by blast
  have uid: "claimUID sample_claimed = ''u1''" by (simp add: sample_claimed_def)
  have "\<forall>e \<in> set sample_history. spares sample_claimed e" by (simp add: sample_history_def uid)
  moreover have "declares (last dirs) ''u1'' (claim_cdi_ids sample_claimed)"
    using prepareClaim_success [OF p] written_declares [of sample_claimed sample_claimed "last dirs" sample_stock] uid
    by (metis option.sel)
  ultimately have "declares (run_events sample_history (last dirs)) ''u1'' (claim_cdi_ids sample_claimed)"
    using spared_run_declares [of sample_history sample_claimed "last dirs"] uid by simp
  moreover have "run_events (PrepareCall sample_stock [(sample_claimed, sample_io)] # sample_history) [] =
      run_events sample_history (last dirs)"
    by (simp add: run_events_def PrepareResourceClaims_def prepare_one_def p)
  ultimately have "spec_of (run_events (PrepareCall sample_stock [(sample_claimed, sample_io)] # sample_history) [])
      ''u1'' \<noteq> None"
    by (auto simp: declares_def)
  then show ?thesis using every_spec_accounted by metis
qed

end
