(* ===== verification/Hotplug.thy ===== *)
theory Hotplug
  imports GoStrings "HOL-Library.Transitive_Closure_Table"
begin

text \<open>
  The uevent listener (\<open>internal/hotplug/hotplug.go\<close>): parsing a kernel message, the reaction
  to read errors, and the three goroutines that turn a burst of relevant events into one
  coalesced signal: the reader, the debouncer and the probe loop that receives the signals.

  The goroutines are an interleaving of atomic channel operations, the step relation
  \<open>listener_step\<close>; a timer may fire at any moment.  The bit \<open>unseen\<close> is a history variable: it
  says that a relevant event was read that no probe has begun after.
\<close>

section \<open>Messages\<close>

record uevent =
  ueAction :: string
  ueSubsystem :: string

definition subsystems :: "string list" where
  "subsystems = [''drm'', ''accel'']"

definition last_subsystem :: "string list \<Rightarrow> string" where
  \<comment> \<open>the value of the last field with the prefix \<open>SUBSYSTEM=\<close>\<close>
  "last_subsystem fs =
     fold (\<lambda>f sub. case cut_prefix f ''SUBSYSTEM='' of Some v \<Rightarrow> v | None \<Rightarrow> sub) fs []"

definition parse_fields :: "string list \<Rightarrow> uevent option" where
  "parse_fields fs =
     (if fs = [] \<or> \<not> contains (hd fs) ''@'' then None
      else Some \<lparr>ueAction = hd (split_on (CHR ''@'') (hd fs)), ueSubsystem = last_subsystem (tl fs)\<rparr>)"

definition parseUevent :: "string \<Rightarrow> uevent option" where
  "parseUevent buf = parse_fields (split_on (CHR 0x00) buf)"

definition relevant :: "uevent \<Rightarrow> bool" where
  "relevant ev \<longleftrightarrow> ueSubsystem ev \<in> set subsystems"

section \<open>Read errors\<close>

datatype errno = EINTR | EAGAIN | ENOBUFS | OtherErrno string

datatype readAction = actRetry | actOverrun | actFatal

fun classifyReadErr :: "errno \<Rightarrow> readAction" where
  "classifyReadErr EINTR = actRetry"
| "classifyReadErr EAGAIN = actRetry"
| "classifyReadErr ENOBUFS = actOverrun"
| "classifyReadErr (OtherErrno _) = actFatal"

section \<open>The goroutines\<close>

datatype coalescer = Waiting | Draining | Signalling | Finished

record listener =
  reading :: bool
  raw :: "uevent list"
  debouncer :: coalescer
  pending :: bool
  unseen :: bool

definition raw_capacity :: nat where "raw_capacity = 16"

definition offer :: "uevent \<Rightarrow> uevent list \<Rightarrow> uevent list" where
  \<comment> \<open>a send that gives up when the buffer is full\<close>
  "offer ev q = (if length q < raw_capacity then q @ [ev] else q)"

definition overrun :: uevent where
  "overrun = \<lparr>ueAction = ''overrun'', ueSubsystem = ''drm''\<rparr>"

definition on_message :: "string \<Rightarrow> listener \<Rightarrow> listener" where
  "on_message buf s =
     (case parseUevent buf of
        None \<Rightarrow> s
      | Some ev \<Rightarrow> if relevant ev then s\<lparr>raw := offer ev (raw s), unseen := True\<rparr> else s)"

definition on_read_error :: "bool \<Rightarrow> errno \<Rightarrow> listener \<Rightarrow> listener" where
  \<comment> \<open>the first argument: the context is already cancelled\<close>
  "on_read_error cancelled e s =
     (if cancelled then s\<lparr>reading := False\<rparr>
      else case classifyReadErr e of
             actRetry \<Rightarrow> s
           | actOverrun \<Rightarrow> s\<lparr>raw := offer overrun (raw s), unseen := True\<rparr>
           | actFatal \<Rightarrow> s\<lparr>reading := False\<rparr>)"

definition listener_start :: listener where
  "listener_start = \<lparr>reading = True, raw = [], debouncer = Waiting, pending = False, unseen = False\<rparr>"

text \<open>The channel \<open>raw\<close> is closed exactly when the reader has stopped.\<close>

inductive debounce_step :: "listener \<Rightarrow> listener \<Rightarrow> bool" where
  take: "debouncer s = Waiting \<Longrightarrow> raw s = ev # q \<Longrightarrow>
    debounce_step s (s\<lparr>raw := q, debouncer := Draining\<rparr>)"
| finish: "debouncer s = Waiting \<Longrightarrow> raw s = [] \<Longrightarrow> \<not> reading s \<Longrightarrow>
    debounce_step s (s\<lparr>debouncer := Finished\<rparr>)"
| drain: "debouncer s = Draining \<Longrightarrow> raw s = ev # q \<Longrightarrow> debounce_step s (s\<lparr>raw := q\<rparr>)"
| drained: "debouncer s = Draining \<Longrightarrow> raw s = [] \<Longrightarrow> \<not> reading s \<Longrightarrow>
    debounce_step s (s\<lparr>debouncer := Signalling\<rparr>)"
| settled: "debouncer s = Draining \<Longrightarrow> debounce_step s (s\<lparr>debouncer := Signalling\<rparr>)"
| signal: "debouncer s = Signalling \<Longrightarrow> debounce_step s (s\<lparr>pending := True, debouncer := Waiting\<rparr>)"

inductive listener_step :: "listener \<Rightarrow> listener \<Rightarrow> bool" where
  message: "reading s \<Longrightarrow> listener_step s (on_message buf s)"
| read_error: "reading s \<Longrightarrow> listener_step s (on_read_error cancelled e s)"
| debounce: "debounce_step s s' \<Longrightarrow> listener_step s s'"
| probe: "pending s \<Longrightarrow> listener_step s (s\<lparr>pending := False, unseen := False\<rparr>)"

inductive_cases debounce_stepE: "debounce_step s s'"
inductive_cases listener_stepE: "listener_step s s'"

abbreviation reachable :: "listener \<Rightarrow> bool" where
  "reachable s \<equiv> listener_step\<^sup>*\<^sup>* listener_start s"

section \<open>The invariant\<close>

definition covered :: "listener \<Rightarrow> bool" where
  \<comment> \<open>an unseen event is on its way: pending, being debounced or in the buffer\<close>
  "covered s \<longleftrightarrow>
     (unseen s \<longrightarrow> pending s \<or> debouncer s = Draining \<or> debouncer s = Signalling \<or> raw s \<noteq> [])"

definition listener_inv :: "listener \<Rightarrow> bool" where
  "listener_inv s \<longleftrightarrow>
     covered s \<and> length (raw s) \<le> raw_capacity \<and>
     (debouncer s = Finished \<longrightarrow> \<not> reading s \<and> raw s = [])"

lemma offer_facts: "offer ev q \<noteq> []" "length q \<le> raw_capacity \<Longrightarrow> length (offer ev q) \<le> raw_capacity"
  by (auto simp: offer_def raw_capacity_def)

lemma debounce_inv: "debounce_step s s' \<Longrightarrow> listener_inv s \<Longrightarrow> listener_inv s'"
  by (induction rule: debounce_step.induct) (auto simp: listener_inv_def covered_def)

lemma listener_step_inv: "listener_step s s' \<Longrightarrow> listener_inv s \<Longrightarrow> listener_inv s'"
proof (induction rule: listener_step.induct)
  case (message s buf)
  then show ?case
    by (auto simp: on_message_def listener_inv_def covered_def offer_facts split: option.split)
next
  case (read_error s cancelled e)
  then show ?case
    by (auto simp: on_read_error_def listener_inv_def covered_def offer_facts split: readAction.split)
next
  case (debounce s s')
  then show ?case by (blast intro: debounce_inv)
next
  case (probe s)
  then show ?case by (simp add: listener_inv_def covered_def)
qed

lemma reachable_inv: "reachable s \<Longrightarrow> listener_inv s"
proof (induction rule: rtranclp_induct)
  case base
  show ?case by (simp add: listener_start_def listener_inv_def covered_def)
next
  case (step s s')
  then show ?case by (blast intro: listener_step_inv)
qed

section \<open>Progress of the debouncer\<close>

definition debounce_rank :: "listener \<Rightarrow> nat" where
  "debounce_rank s =
     3 * length (raw s) +
     (case debouncer s of Finished \<Rightarrow> 0 | Waiting \<Rightarrow> 1 | Signalling \<Rightarrow> 2 | Draining \<Rightarrow> 3)"

lemma debounce_rank_decreases: "debounce_step s s' \<Longrightarrow> debounce_rank s' < debounce_rank s"
  by (induction rule: debounce_step.induct) (auto simp: debounce_rank_def)

lemma debounce_keeps: "debounce_step s s' \<Longrightarrow> unseen s' = unseen s \<and> (pending s \<longrightarrow> pending s')"
  by (induction rule: debounce_step.induct) auto



lemma debounce_run:
  assumes "(debounce_step ^^ n) s t" and "listener_inv s"
  shows "listener_inv t \<and> n + debounce_rank t \<le> debounce_rank s \<and> reading t = reading s \<and>
    unseen t = unseen s"
  using assms(1)
proof (induction n arbitrary: t)
  case 0
  with assms(2) show ?case by simp
next
  case (Suc n)
  then obtain u where u: "(debounce_step ^^ n) s u" and ut: "debounce_step u t" by (auto elim: relpowp_Suc_E)
  have "reading t = reading u" using ut by (induction rule: debounce_step.induct) simp_all
  moreover have "unseen t = unseen u" using debounce_keeps [OF ut] by blast
  ultimately show ?case
    using Suc.IH [OF u] debounce_inv [OF ut] debounce_rank_decreases [OF ut] by simp
qed

lemma stuck_finished:
  assumes "\<not> reading s" and "\<not> (\<exists>s'. debounce_step s s')"
  shows "debouncer s = Finished"
proof (cases "debouncer s")
  case Waiting
  show ?thesis
  proof (cases "raw s")
    case Nil
    show ?thesis using debounce_step.finish [OF Waiting Nil assms(1)] assms(2) by blast
  next
    case (Cons ev q)
    show ?thesis using debounce_step.take [OF Waiting Cons] assms(2) by blast
  qed
next
  case Draining
  show ?thesis using debounce_step.settled [OF Draining] assms(2) by blast
next
  case Signalling
  show ?thesis using debounce_step.signal [OF Signalling] assms(2) by blast
qed

lemma finished_stuck: "debouncer s = Finished \<Longrightarrow> \<not> (\<exists>s'. debounce_step s s')"
proof
  assume s: "debouncer s = Finished" and "\<exists>s'. debounce_step s s'"
  then obtain s' where "debounce_step s s'" by blast
  then show False using s by cases simp_all
qed

section \<open>Splitting what was joined\<close>

lemma split_on_no_sep: "c \<notin> set s \<Longrightarrow> split_on c s = [s]"
  by (induction s) auto

lemma split_on_append: "c \<notin> set p \<Longrightarrow> split_on c (p @ c # s) = p # split_on c s"
  by (induction p) auto

lemma split_on_join:
  "parts \<noteq> [] \<Longrightarrow> \<forall>p \<in> set parts. c \<notin> set p \<Longrightarrow> split_on c (join_with [c] parts) = parts"
proof (induction parts)
  case (Cons x xs)
  then show ?case by (cases xs) (simp_all add: split_on_append split_on_no_sep)
qed simp

lemma contains_infix: "contains (a @ p @ b) p"
proof (induction a)
  case Nil
  show ?case using has_prefix_append [of p b] by (cases "p @ b") auto
qed (simp add: has_prefix_def)

section \<open>Properties\<close>

text \<open>
  C15: no relevant event is lost.  In every reachable state of the listener, dropped messages,
  full buffers, pending signals and the reader's death included, an event that no probe has
  begun after is still pending, being debounced or buffered; the buffer keeps its capacity, and
  the debouncer ends only when the reader has stopped and the buffer is empty.
\<close>

theorem no_event_lost:
  assumes "reachable s"
  shows "(unseen s \<longrightarrow> pending s \<or> debouncer s = Draining \<or> debouncer s = Signalling \<or> raw s \<noteq> []) \<and>
    length (raw s) \<le> 16 \<and> (debouncer s = Finished \<longrightarrow> \<not> reading s \<and> raw s = [])"
  using reachable_inv [OF assms] by (simp add: listener_inv_def covered_def raw_capacity_def)


text \<open>
  The listener shuts down.  Once the reader has stopped, from every reachable state the
  debouncer runs at most as many steps as its rank, at most 51, and whenever it cannot go on it
  has closed the event channel, with a signal pending if a relevant event is still unseen.
\<close>

theorem listener_shuts_down:
  assumes "reachable s" "\<not> reading s" "(debounce_step ^^ n) s t"
  shows "n \<le> debounce_rank s \<and> debounce_rank s \<le> 51 \<and>
    ((\<exists>t'. debounce_step t t') \<or> debouncer t = Finished \<and> (unseen s \<longrightarrow> pending t))"
proof -
  have inv_s: "listener_inv s" using assms(1) by (rule reachable_inv)
  have t: "listener_inv t" "n + debounce_rank t \<le> debounce_rank s" "\<not> reading t" "unseen t = unseen s"
    using debounce_run [OF assms(3) inv_s] assms(2) by simp_all
  have "length (raw s) \<le> 16" using inv_s by (simp add: listener_inv_def raw_capacity_def)
  then have "debounce_rank s \<le> 51" by (cases "debouncer s") (simp_all add: debounce_rank_def)
  moreover have "debouncer t = Finished \<and> (unseen s \<longrightarrow> pending t)" if stuck: "\<not> (\<exists>t'. debounce_step t t')"
  proof -
    have f: "debouncer t = Finished" using t(3) stuck by (rule stuck_finished)
    with t(1) have "covered t" "raw t = []" by (simp_all add: listener_inv_def)
    with f t(4) show ?thesis by (simp add: covered_def)
  qed
  moreover have "n \<le> debounce_rank s" using t(2) by simp
  ultimately show ?thesis by blast
qed

text \<open>
  A kernel message is read back.  From a header and fields without the separators, the
  parser returns the action and the value of the last subsystem field, and rejects messages
  without a header.
\<close>

theorem uevent_roundtrip:
  assumes "CHR ''@'' \<notin> set act" "\<forall>f \<in> set ((act @ ''@'' @ path) # fs @ [''SUBSYSTEM='' @ sub]). CHR 0x00 \<notin> set f"
  shows "parseUevent (join_with [CHR 0x00] ((act @ ''@'' @ path) # fs @ [''SUBSYSTEM='' @ sub])) =
    Some \<lparr>ueAction = act, ueSubsystem = sub\<rparr>"
proof -
  have "split_on (CHR 0x00) (join_with [CHR 0x00] ((act @ ''@'' @ path) # fs @ [''SUBSYSTEM='' @ sub])) =
      (act @ ''@'' @ path) # fs @ [''SUBSYSTEM='' @ sub]"
    by (rule split_on_join) (use assms(2) in auto)
  moreover have "hd (split_on (CHR ''@'') (act @ ''@'' @ path)) = act"
    using split_on_append [of "CHR ''@''" act path] assms(1) by simp
  moreover have "contains (act @ ''@'' @ path) ''@''" by (rule contains_infix)
  ultimately show ?thesis
    by (simp add: parseUevent_def parse_fields_def last_subsystem_def cut_prefix_def has_prefix_def)
qed

section \<open>Examples\<close>

definition sample_message :: string where
  "sample_message =
     ''add@/devices/pci0000:00/drm/card0'' @ [CHR 0x00] @ ''ACTION=add'' @ [CHR 0x00] @ ''SUBSYSTEM=drm''"

lemma sample_message_parsed: "parseUevent sample_message = Some \<lparr>ueAction = ''add'', ueSubsystem = ''drm''\<rparr>"
  by (simp add: sample_message_def parseUevent_def parse_fields_def last_subsystem_def cut_prefix_def has_prefix_def)

definition after_message :: listener where
  "after_message = on_message sample_message listener_start"

lemma after_message: "reachable after_message" "unseen after_message" "\<not> pending after_message"
proof -
  show "reachable after_message"
    unfolding after_message_def
    by (rule r_into_rtranclp, rule listener_step.message) (simp add: listener_start_def)
qed (simp_all add: after_message_def on_message_def sample_message_parsed relevant_def subsystems_def listener_start_def)

theorem no_event_lost_witness: "reachable after_message \<and> unseen after_message \<and> raw after_message \<noteq> []"
  using no_event_lost [OF after_message(1)] after_message
  by (simp add: after_message_def on_message_def sample_message_parsed relevant_def subsystems_def listener_start_def)


theorem uevent_roundtrip_witness:
  "parseUevent (join_with [CHR 0x00] [''remove@/devices/x'', ''SUBSYSTEM=pci'', ''SUBSYSTEM=accel'']) =
     Some \<lparr>ueAction = ''remove'', ueSubsystem = ''accel''\<rparr>"
proof -
  have "parseUevent (join_with [CHR 0x00] ((''remove'' @ ''@'' @ ''/devices/x'') # [''SUBSYSTEM=pci''] @ [''SUBSYSTEM='' @ ''accel''])) =
     Some \<lparr>ueAction = ''remove'', ueSubsystem = ''accel''\<rparr>"
    by (rule uevent_roundtrip) simp_all
  then show ?thesis by simp
qed

theorem listener_shuts_down_witness:
  "reachable (on_read_error False (OtherErrno ''EBADF'') listener_start) \<and>
   (\<exists>n t. (debounce_step ^^ n) (on_read_error False (OtherErrno ''EBADF'') listener_start) t \<and>
      debouncer t = Finished)"
proof -
  let ?s = "on_read_error False (OtherErrno ''EBADF'') listener_start"
  have r: "reachable ?s"
    by (rule r_into_rtranclp, rule listener_step.read_error) (simp add: listener_start_def)
  have "debounce_step ?s (?s\<lparr>debouncer := Finished\<rparr>)"
    by (rule debounce_step.finish) (simp_all add: on_read_error_def listener_start_def)
  then have run: "(debounce_step ^^ 1) ?s (?s\<lparr>debouncer := Finished\<rparr>)"
    by (simp only: relpowp_1)
  have stop: "\<not> reading ?s" by (simp add: on_read_error_def listener_start_def)
  have "\<not> (\<exists>t'. debounce_step (?s\<lparr>debouncer := Finished\<rparr>) t')"
    by (rule finished_stuck) simp
  then have "debouncer (?s\<lparr>debouncer := Finished\<rparr>) = Finished"
    using listener_shuts_down [OF r stop run] by (elim conjE disjE) simp_all
  then show ?thesis
    using r run by (intro conjI exI [of _ 1] exI [of _ "?s\<lparr>debouncer := Finished\<rparr>"])
qed

end
