(* ===== verification/Listening.thy ===== *)
theory Listening
  imports Hotplug
begin

text \<open>
  The life of the uevent listener (\<open>Listen\<close> of \<open>internal/hotplug/hotplug.go\<close>) around the
  pipeline of theory Hotplug: opening and binding the socket, the watcher that closes it on
  shutdown, the reader's exit with its three deferred closes, and the once-only close they share.

  Each goroutine is at one of a few points between its channel, lock and system calls, and a
  step moves one of them.  A read that has begun may return at any time with a message or an
  error, also after the socket is closed; a read that begins on a closed socket fails with
  EBADF.  The field \<open>reading\<close> of the pipeline now says that the channel \<open>raw\<close> is open.
\<close>

section \<open>The goroutines\<close>

datatype reader_at = AtRead | InRead | ClosingSocket | ClosingDone | ClosingRaw | ReaderGone

datatype watcher_at = Watching | WatcherClosing | WatcherGone

record listening =
  lReader :: reader_at
  lWatcher :: watcher_at
  lCancelled :: bool
  lOnce :: bool
  lCloses :: nat
  lDone :: nat
  lRawClosed :: nat
  lPipe :: listener

definition listening_start :: listening where
  "listening_start =
     \<lparr>lReader = AtRead, lWatcher = Watching, lCancelled = False, lOnce = False, lCloses = 0,
      lDone = 0, lRawClosed = 0, lPipe = listener_start\<rparr>"

text \<open>What \<open>Listen\<close> returns, with the sockets it has opened and those it has closed by then.\<close>

definition Listen :: "unit result \<Rightarrow> unit result \<Rightarrow> listening result \<times> nat \<times> nat" where
  "Listen socket bound =
     (case socket of
        Inl err \<Rightarrow> (Inl err, 0, 0)
      | Inr _ \<Rightarrow>
          (case bound of
             Inl err \<Rightarrow> (Inl err, 1, 1)
           | Inr _ \<Rightarrow> (Inr listening_start, 1, 0)))"

definition closeFd :: "listening \<Rightarrow> listening" where
  \<comment> \<open>the close behind the \<open>Once\<close>\<close>
  "closeFd l = (if lOnce l then l else l\<lparr>lOnce := True, lCloses := Suc (lCloses l)\<rparr>)"

definition read_failed :: "errno \<Rightarrow> listening \<Rightarrow> listening" where
  "read_failed e l =
     (if lCancelled l then l\<lparr>lReader := ClosingSocket\<rparr>
      else case classifyReadErr e of
             actRetry \<Rightarrow> l\<lparr>lReader := AtRead\<rparr>
           | actOverrun \<Rightarrow> l\<lparr>lReader := AtRead, lPipe := on_read_error False e (lPipe l)\<rparr>
           | actFatal \<Rightarrow> l\<lparr>lReader := ClosingSocket\<rparr>)"

definition EBADF :: errno where
  "EBADF = OtherErrno ''bad file descriptor''"

inductive life_step :: "listening \<Rightarrow> listening \<Rightarrow> bool" where
  watch: "lWatcher l = Watching \<Longrightarrow> lCancelled l \<or> 0 < lDone l \<Longrightarrow>
    life_step l (l\<lparr>lWatcher := WatcherClosing\<rparr>)"
| watcher_close: "lWatcher l = WatcherClosing \<Longrightarrow> life_step l ((closeFd l)\<lparr>lWatcher := WatcherGone\<rparr>)"
| begin_read: "lReader l = AtRead \<Longrightarrow> lCloses l = 0 \<Longrightarrow> life_step l (l\<lparr>lReader := InRead\<rparr>)"
| read_closed: "lReader l = AtRead \<Longrightarrow> 0 < lCloses l \<Longrightarrow> life_step l (read_failed EBADF l)"
| received: "lReader l = InRead \<Longrightarrow>
    life_step l (l\<lparr>lReader := AtRead, lPipe := on_message buf (lPipe l)\<rparr>)"
| failed: "lReader l = InRead \<Longrightarrow> life_step l (read_failed e l)"
| close_socket: "lReader l = ClosingSocket \<Longrightarrow> life_step l ((closeFd l)\<lparr>lReader := ClosingDone\<rparr>)"
| close_done: "lReader l = ClosingDone \<Longrightarrow>
    life_step l (l\<lparr>lReader := ClosingRaw, lDone := Suc (lDone l)\<rparr>)"
| close_raw: "lReader l = ClosingRaw \<Longrightarrow>
    life_step l (l\<lparr>lReader := ReaderGone, lRawClosed := Suc (lRawClosed l),
                   lPipe := (lPipe l)\<lparr>reading := False\<rparr>\<rparr>)"
| coalesce: "debounce_step (lPipe l) p \<Longrightarrow> life_step l (l\<lparr>lPipe := p\<rparr>)"
| reprobe: "pending (lPipe l) \<Longrightarrow>
    life_step l (l\<lparr>lPipe := (lPipe l)\<lparr>pending := False, unseen := False\<rparr>\<rparr>)"

inductive_cases life_stepE: "life_step l l'"

inductive lives :: "listening \<Rightarrow> bool" where
  starts: "lives listening_start"
| steps: "lives l \<Longrightarrow> life_step l l' \<Longrightarrow> lives l'"
| cancelled: "lives l \<Longrightarrow> lives (l\<lparr>lCancelled := True\<rparr>)"

section \<open>The invariant\<close>

abbreviation exiting :: "listening \<Rightarrow> bool" where
  "exiting l \<equiv> lReader l \<in> {ClosingDone, ClosingRaw, ReaderGone}"

definition life_inv :: "listening \<Rightarrow> bool" where
  "life_inv l \<longleftrightarrow>
     lCloses l = of_bool (lOnce l) \<and>
     lDone l = of_bool (lReader l \<in> {ClosingRaw, ReaderGone}) \<and>
     lRawClosed l = of_bool (lReader l = ReaderGone) \<and>
     (reading (lPipe l) \<longleftrightarrow> lReader l \<noteq> ReaderGone) \<and>
     (exiting l \<or> lWatcher l = WatcherGone \<longleftrightarrow> lOnce l) \<and>
     (lWatcher l = Watching \<or> lCancelled l \<or> lReader l \<in> {ClosingRaw, ReaderGone})"

lemma life_inv_start: "life_inv listening_start"
  by (simp add: life_inv_def listening_start_def listener_start_def)

lemma life_inv_cancelled: "life_inv l \<Longrightarrow> life_inv (l\<lparr>lCancelled := True\<rparr>)"
  by (auto simp: life_inv_def)

lemma pipe_reading [simp]:
  "reading (on_message buf s) = reading s"
  "classifyReadErr e = actOverrun \<Longrightarrow> reading (on_read_error False e s) = reading s"
  by (auto simp: on_message_def on_read_error_def split: option.splits)

lemma read_failed_inv: "life_inv l \<Longrightarrow> lReader l \<in> {AtRead, InRead} \<Longrightarrow> life_inv (read_failed e l)"
  by (auto simp: life_inv_def read_failed_def split: readAction.splits)

lemma debounce_reading: "debounce_step s t \<Longrightarrow> reading t = reading s"
  by (induction rule: debounce_step.induct) simp_all

lemma life_step_inv: "life_step l l' \<Longrightarrow> life_inv l \<Longrightarrow> life_inv l'"
proof (induction rule: life_step.induct)
  case (read_closed l)
  then show ?case by (simp add: read_failed_inv)
next
  case (failed l e)
  then show ?case by (simp add: read_failed_inv)
next
  case (coalesce l p)
  then show ?case by (auto simp: life_inv_def debounce_reading split: if_splits)
qed (auto simp: life_inv_def closeFd_def split: if_splits)

lemma lives_inv: "lives l \<Longrightarrow> life_inv l"
  by (induction rule: lives.induct) (auto intro: life_inv_start life_step_inv life_inv_cancelled)

section \<open>The pipeline is the one of theory Hotplug\<close>

lemma read_failed_pipe:
  assumes "reading (lPipe l)"
  shows "lPipe (read_failed e l) = lPipe l \<or> listener_step (lPipe l) (lPipe (read_failed e l))"
  using assms listener_step.read_error [of "lPipe l" False e]
  by (auto simp: read_failed_def split: readAction.split)

lemma life_step_pipe:
  "life_step l l' \<Longrightarrow> life_inv l \<Longrightarrow> lPipe l' = lPipe l \<or> listener_step (lPipe l) (lPipe l')"
proof (induction rule: life_step.induct)
  case (read_closed l)
  then show ?case using read_failed_pipe by (simp add: life_inv_def)
next
  case (failed l e)
  then show ?case using read_failed_pipe by (simp add: life_inv_def)
next
  case (received l buf)
  then show ?case using listener_step.message [of "lPipe l" buf] by (simp add: life_inv_def)
next
  case (close_raw l)
  then show ?case
    using listener_step.read_error [of "lPipe l" True] by (simp add: life_inv_def on_read_error_def)
next
  case (coalesce l p)
  then show ?case by (simp add: listener_step.debounce)
next
  case (reprobe l)
  then show ?case by (simp add: listener_step.probe)
qed (simp_all add: closeFd_def)

lemma lives_pipe: "lives l \<Longrightarrow> reachable (lPipe l)"
proof (induction rule: lives.induct)
  case starts
  show ?case by (simp add: listening_start_def)
next
  case (steps l l')
  then show ?case
    using life_step_pipe [OF steps(2) lives_inv [OF steps(1)]] by (metis rtranclp.rtrancl_into_rtrancl)
qed simp

section \<open>Progress\<close>










section \<open>Properties\<close>

text \<open>
  C16: the listener owns its socket.  If binding fails the socket is closed before the error is
  returned.  Afterwards, in every state that any interleaving of the goroutines, the kernel and
  a cancellation can reach, the socket has been closed at most once, and each channel at most
  once; it is not closed while the reader still reads, unless the context is cancelled; when the
  reader or the watcher has ended it is closed; and the pipeline is in a reachable state of the
  listener of theory Hotplug, in which no event is lost.
\<close>

theorem listener_owns_socket:
  assumes "lives l"
  shows "(\<forall>err. Listen (Inr ()) (Inl err) = (Inl err, 1, 1)) \<and>
    lCloses l \<le> 1 \<and> lDone l \<le> 1 \<and> lRawClosed l \<le> 1 \<and>
    (lCloses l = 1 \<and> lReader l \<in> {AtRead, InRead} \<longrightarrow> lCancelled l) \<and>
    (lReader l = ReaderGone \<or> lWatcher l = WatcherGone \<longrightarrow> lCloses l = 1) \<and>
    (lRawClosed l = 1 \<longleftrightarrow> \<not> reading (lPipe l)) \<and> reachable (lPipe l)"
  using lives_inv [OF assms] lives_pipe [OF assms]
  by (auto simp: life_inv_def Listen_def split: if_splits)


text \<open>A fatal error of a read that was waiting when the context was cancelled.\<close>

definition shut_listening :: listening where
  "shut_listening =
     (closeFd (read_failed EINTR (listening_start\<lparr>lReader := InRead, lCancelled := True\<rparr>)))\<lparr>lReader := ClosingDone\<rparr>"

lemma shut_listening_lives: "lives shut_listening" "lCloses shut_listening = 1"
proof -
  have "lives (listening_start\<lparr>lReader := InRead\<rparr>)"
    by (rule lives.steps [OF lives.starts life_step.begin_read]) (simp_all add: listening_start_def)
  then have "lives ((listening_start\<lparr>lReader := InRead\<rparr>)\<lparr>lCancelled := True\<rparr>)" by (rule lives.cancelled)
  then have "lives (listening_start\<lparr>lReader := InRead, lCancelled := True\<rparr>)" by simp
  then have "lives (read_failed EINTR (listening_start\<lparr>lReader := InRead, lCancelled := True\<rparr>))"
    by (rule lives.steps) (rule life_step.failed, simp)
  then show "lives shut_listening"
    unfolding shut_listening_def
    by (rule lives.steps) (rule life_step.close_socket, simp add: read_failed_def)
  show "lCloses shut_listening = 1"
    by (simp add: shut_listening_def read_failed_def closeFd_def listening_start_def)
qed

theorem listener_owns_socket_witness:
  "lives shut_listening \<and> lCloses shut_listening = 1 \<and> lRawClosed shut_listening = 0 \<and>
   reachable (lPipe shut_listening)"
  using listener_owns_socket [OF shut_listening_lives(1)] shut_listening_lives
  by (auto simp: shut_listening_def read_failed_def closeFd_def listening_start_def)


end
