(* ===== verification/Copier.thy ===== *)
theory Copier
  imports Prelude
begin

text \<open>
  Copying Go values that hold references.  The memory is the list of its cells and a reference
  the index of its cell, so a new cell is appended and nothing is ever freed.  A deep copier is
  a function that copies such a value: the locale states what it promises, and the lemmas build
  copiers of pointers, slices and structs from the copiers of their parts.
\<close>

section \<open>The contract\<close>

locale deep_copier =
  fixes copy :: "'a \<Rightarrow> 'c list \<Rightarrow> 'a \<times> 'c list"
    and cells :: "'a \<Rightarrow> 'c list \<Rightarrow> nat set"
    and val :: "'a \<Rightarrow> 'c list \<Rightarrow> 'v"
    and ok :: "'a \<Rightarrow> 'c list \<Rightarrow> bool"
  assumes copy_grows: "ok x h \<Longrightarrow> \<exists>new. snd (copy x h) = h @ new"
    and copy_ok: "ok x h \<Longrightarrow> ok (fst (copy x h)) (snd (copy x h))"
    and copy_val: "ok x h \<Longrightarrow> val (fst (copy x h)) (snd (copy x h)) = val x h"
    and copy_fresh: "ok x h \<Longrightarrow> cells (fst (copy x h)) (snd (copy x h)) \<inter> {..<length h} = {}"
    and cells_bound: "ok x h \<Longrightarrow> cells x h \<subseteq> {..<length h}"
    and frame: "ok x h \<Longrightarrow> length h \<le> length h' \<Longrightarrow> (\<forall>a \<in> cells x h. h' ! a = h ! a) \<Longrightarrow>
        ok x h' \<and> val x h' = val x h \<and> cells x h' = cells x h"
begin

lemma frame_append: "ok x h \<Longrightarrow> ok x (h @ new) \<and> val x (h @ new) = val x h \<and> cells x (h @ new) = cells x h"
proof -
  assume x: "ok x h"
  then have "\<forall>a \<in> cells x h. (h @ new) ! a = h ! a"
    using cells_bound [OF x] by (auto simp: nth_append)
  then show ?thesis by (rule frame [OF x, rotated]) simp
qed

lemma frame_update: "ok x h \<Longrightarrow> a \<notin> cells x h \<Longrightarrow>
    ok x (h[a := c]) \<and> val x (h[a := c]) = val x h \<and> cells x (h[a := c]) = cells x h"
  by (rule frame) (auto intro!: nth_list_update_neq)

lemma original_kept:
  assumes "ok x h"
  shows "ok x (snd (copy x h))" "val x (snd (copy x h)) = val x h" "cells x (snd (copy x h)) = cells x h"
proof -
  obtain new where "snd (copy x h) = h @ new" using copy_grows [OF assms] by blast
  with frame_append [OF assms, of new]
  show "ok x (snd (copy x h))" "val x (snd (copy x h)) = val x h" "cells x (snd (copy x h)) = cells x h"
    by simp_all
qed

text \<open>
  Whatever is written later, through the copy or through the original, is not seen through the
  other: a later memory that agrees outside the one's cells leaves the other's value.
\<close>

lemma isolated:
  assumes x: "ok x h" and copy: "copy x h = (y, h')" and len: "length h' \<le> length h''"
  shows "(\<And>a. a < length h' \<Longrightarrow> a \<notin> cells y h' \<Longrightarrow> h'' ! a = h' ! a) \<Longrightarrow> val x h'' = val x h"
    "(\<And>a. a < length h' \<Longrightarrow> a \<notin> cells x h' \<Longrightarrow> h'' ! a = h' ! a) \<Longrightarrow> val y h'' = val x h"
proof -
  have x': "ok x h'" "val x h' = val x h" "cells x h' = cells x h"
    using original_kept [OF x] by (simp_all add: copy)
  have y: "ok y h'" "val y h' = val x h" "cells y h' \<inter> {..<length h} = {}"
    using copy_ok [OF x] copy_val [OF x] copy_fresh [OF x] by (simp_all add: copy)
  have apart: "cells x h' \<inter> cells y h' = {}" using y(3) cells_bound [OF x] x'(3) by blast
  show "val x h'' = val x h" if "\<And>a. a < length h' \<Longrightarrow> a \<notin> cells y h' \<Longrightarrow> h'' ! a = h' ! a"
  proof -
    have "\<forall>a \<in> cells x h'. h'' ! a = h' ! a" using that apart cells_bound [OF x'(1)] by blast
    then have "val x h'' = val x h'" using frame [OF x'(1) len] by blast
    then show ?thesis by (simp add: x'(2))
  qed
  show "val y h'' = val x h" if "\<And>a. a < length h' \<Longrightarrow> a \<notin> cells x h' \<Longrightarrow> h'' ! a = h' ! a"
  proof -
    have "\<forall>a \<in> cells y h'. h'' ! a = h' ! a" using that apart cells_bound [OF y(1)] by blast
    then have "val y h'' = val y h'" using frame [OF y(1) len] by blast
    then show ?thesis by (simp add: y(2))
  qed
qed

end

section \<open>Values without references\<close>

definition assign :: "'a \<Rightarrow> 'c list \<Rightarrow> 'a \<times> 'c list" where
  "assign x h = (x, h)"

lemma assign_copier: "deep_copier assign (\<lambda>_ _. {}) (\<lambda>x _. x) (\<lambda>_ _. True)"
  by unfold_locales (auto simp: assign_def)

section \<open>Pairs, and structs as pairs\<close>

definition copy_both ::
  "('a \<Rightarrow> 'c list \<Rightarrow> 'a \<times> 'c list) \<Rightarrow> ('b \<Rightarrow> 'c list \<Rightarrow> 'b \<times> 'c list) \<Rightarrow>
   'a \<times> 'b \<Rightarrow> 'c list \<Rightarrow> ('a \<times> 'b) \<times> 'c list" where
  "copy_both f g p h =
     (case f (fst p) h of (x, h1) \<Rightarrow> case g (snd p) h1 of (y, h2) \<Rightarrow> ((x, y), h2))"

lemma pair_copier:
  assumes "deep_copier f fc fv fo" "deep_copier g gc gv go"
  shows "deep_copier (copy_both f g) (\<lambda>p h. fc (fst p) h \<union> gc (snd p) h)
    (\<lambda>p h. (fv (fst p) h, gv (snd p) h)) (\<lambda>p h. fo (fst p) h \<and> go (snd p) h)"
proof
  fix p h assume p: "fo (fst p) h \<and> go (snd p) h"
  obtain x h1 where f: "f (fst p) h = (x, h1)" by fastforce
  obtain y h2 where g: "g (snd p) h1 = (y, h2)" by fastforce
  have r: "copy_both f g p h = ((x, y), h2)" by (simp add: copy_both_def f g)
  obtain n1 where h1: "h1 = h @ n1" using deep_copier.copy_grows [OF assms(1) p [THEN conjunct1]] by (auto simp: f)
  have q: "go (snd p) h1" "gv (snd p) h1 = gv (snd p) h"
    using deep_copier.frame_append [OF assms(2) p [THEN conjunct2], of n1] by (simp_all add: h1)
  obtain n2 where h2: "h2 = h1 @ n2" using deep_copier.copy_grows [OF assms(2) q(1)] by (auto simp: g)
  note p1 = p [THEN conjunct1]
  have x: "fo x h1" "fv x h1 = fv (fst p) h" "fc x h1 \<inter> {..<length h} = {}"
    using deep_copier.copy_ok [OF assms(1) p1] deep_copier.copy_val [OF assms(1) p1]
      deep_copier.copy_fresh [OF assms(1) p1] by (simp_all add: f)
  have x2: "fo x h2" "fv x h2 = fv x h1" "fc x h2 = fc x h1"
    using deep_copier.frame_append [OF assms(1) x(1), of n2] by (simp_all add: h2)
  have y: "go y h2" "gv y h2 = gv (snd p) h1" "gc y h2 \<inter> {..<length h1} = {}"
    using deep_copier.copy_ok [OF assms(2) q(1)] deep_copier.copy_val [OF assms(2) q(1)]
      deep_copier.copy_fresh [OF assms(2) q(1)] by (simp_all add: g)
  show "\<exists>new. snd (copy_both f g p h) = h @ new" by (simp add: r h1 h2)
  show "fo (fst (fst (copy_both f g p h))) (snd (copy_both f g p h)) \<and>
      go (snd (fst (copy_both f g p h))) (snd (copy_both f g p h))"
    using x2 y by (simp add: r)
  show "(fv (fst (fst (copy_both f g p h))) (snd (copy_both f g p h)),
      gv (snd (fst (copy_both f g p h))) (snd (copy_both f g p h))) = (fv (fst p) h, gv (snd p) h)"
    using x x2 y q by (simp add: r)
  have "fc x h2 \<inter> {..<length h} = {}" unfolding x2(3) by (rule x(3))
  moreover have "gc y h2 \<inter> {..<length h} = {}"
    by (rule subset_empty [THEN iffD1], rule subset_trans [OF _ y(3) [THEN equalityD1]], rule Int_mono)
      (simp_all add: h1)
  ultimately show "(fc (fst (fst (copy_both f g p h))) (snd (copy_both f g p h)) \<union>
      gc (snd (fst (copy_both f g p h))) (snd (copy_both f g p h))) \<inter> {..<length h} = {}"
    by (simp add: r Int_Un_distrib2)
  show "fc (fst p) h \<union> gc (snd p) h \<subseteq> {..<length h}"
    using deep_copier.cells_bound [OF assms(1) p1] deep_copier.cells_bound [OF assms(2) p [THEN conjunct2]]
    by blast
next
  fix p h h' assume p: "fo (fst p) h \<and> go (snd p) h" and len: "length h \<le> length h'"
    and same: "\<forall>a \<in> fc (fst p) h \<union> gc (snd p) h. h' ! a = h ! a"
  have "fo (fst p) h' \<and> fv (fst p) h' = fv (fst p) h \<and> fc (fst p) h' = fc (fst p) h"
    by (rule deep_copier.frame [OF assms(1) _ len]) (use p same in auto)
  moreover have "go (snd p) h' \<and> gv (snd p) h' = gv (snd p) h \<and> gc (snd p) h' = gc (snd p) h"
    by (rule deep_copier.frame [OF assms(2) _ len]) (use p same in auto)
  ultimately show "(fo (fst p) h' \<and> go (snd p) h') \<and> (fv (fst p) h', gv (snd p) h') = (fv (fst p) h, gv (snd p) h) \<and>
      fc (fst p) h' \<union> gc (snd p) h' = fc (fst p) h \<union> gc (snd p) h"
    by simp
qed

text \<open>A struct is copied as the tuple of the parts that hold references, the rest being kept.\<close>

definition copy_parts ::
  "('s \<Rightarrow> 'a) \<Rightarrow> ('a \<Rightarrow> 's \<Rightarrow> 's) \<Rightarrow> ('a \<Rightarrow> 'c list \<Rightarrow> 'a \<times> 'c list) \<Rightarrow> 's \<Rightarrow> 'c list \<Rightarrow> 's \<times> 'c list" where
  "copy_parts get put f s h = (case f (get s) h of (x, h') \<Rightarrow> (put x s, h'))"

lemma struct_copier:
  assumes c: "deep_copier f fc fv fo"
    and get: "\<And>x s. get (put x s) = x" and rest: "\<And>x s. rest (put x s) = rest s"
  shows "deep_copier (copy_parts get put f) (\<lambda>s. fc (get s)) (\<lambda>s h. (rest s, fv (get s) h)) (\<lambda>s. fo (get s))"
proof
  fix s h assume s: "fo (get s) h"
  obtain x h1 where f: "f (get s) h = (x, h1)" by fastforce
  note laws = deep_copier.copy_grows [OF c s] deep_copier.copy_ok [OF c s] deep_copier.copy_val [OF c s]
    deep_copier.copy_fresh [OF c s] deep_copier.cells_bound [OF c s]
  show "\<exists>new. snd (copy_parts get put f s h) = h @ new"
    "fo (get (fst (copy_parts get put f s h))) (snd (copy_parts get put f s h))"
    "(rest (fst (copy_parts get put f s h)),
      fv (get (fst (copy_parts get put f s h))) (snd (copy_parts get put f s h))) = (rest s, fv (get s) h)"
    "fc (get (fst (copy_parts get put f s h))) (snd (copy_parts get put f s h)) \<inter> {..<length h} = {}"
    "fc (get s) h \<subseteq> {..<length h}"
    using laws by (simp_all add: copy_parts_def f get rest)
next
  fix s h h' assume "fo (get s) h" "length h \<le> length h'" "\<forall>a \<in> fc (get s) h. h' ! a = h ! a"
  then show "fo (get s) h' \<and> (rest s, fv (get s) h') = (rest s, fv (get s) h) \<and> fc (get s) h' = fc (get s) h"
    using deep_copier.frame [OF c, of "get s" h h'] by blast
qed

section \<open>Pointers and slices\<close>

text \<open>
  A pointer to a value stored in a cell by \<open>K\<close> and read by \<open>D\<close>: a new cell takes the value, then
  the copy of its parts.  A nil pointer stays nil.
\<close>

definition new_copy ::
  "('a \<Rightarrow> 'c) \<Rightarrow> ('c \<Rightarrow> 'a) \<Rightarrow> ('a \<Rightarrow> 'c list \<Rightarrow> 'a \<times> 'c list) \<Rightarrow> nat \<Rightarrow> 'c list \<Rightarrow> nat \<times> 'c list" where
  "new_copy K D into a h =
     (case into (D (h ! a)) (h @ [K (D (h ! a))]) of (v, h1) \<Rightarrow> (length h, h1[length h := K v]))"

definition unless_nil ::
  "('a \<Rightarrow> 'c list \<Rightarrow> 'a \<times> 'c list) \<Rightarrow> 'a option \<Rightarrow> 'c list \<Rightarrow> 'a option \<times> 'c list" where
  "unless_nil f p h =
     (case p of None \<Rightarrow> (None, h) | Some a \<Rightarrow> (case f a h of (b, h') \<Rightarrow> (Some b, h')))"

text \<open>
  A slice is a window of a backing array, which is one cell.  Its copy is a new array of the
  window's length, filled element by element.
\<close>

record go_slice =
  sBase :: nat
  sOff :: nat
  sLen :: nat
  sCap :: nat

definition window :: "('c \<Rightarrow> 'a list) \<Rightarrow> go_slice \<Rightarrow> 'c list \<Rightarrow> 'a list" where
  "window D s h = take (sLen s) (drop (sOff s) (D (h ! sBase s)))"

fun copy_each :: "('a \<Rightarrow> 'c list \<Rightarrow> 'a \<times> 'c list) \<Rightarrow> 'a list \<Rightarrow> 'c list \<Rightarrow> 'a list \<times> 'c list" where
  "copy_each f [] h = ([], h)"
| "copy_each f (x # xs) h =
     (case f x h of (y, h1) \<Rightarrow> case copy_each f xs h1 of (ys, h2) \<Rightarrow> (y # ys, h2))"

definition new_array ::
  "('a list \<Rightarrow> 'c) \<Rightarrow> ('c \<Rightarrow> 'a list) \<Rightarrow> ('a \<Rightarrow> 'c list \<Rightarrow> 'a \<times> 'c list) \<Rightarrow> go_slice \<Rightarrow> 'c list \<Rightarrow>
   go_slice \<times> 'c list" where
  \<comment> \<open>what the array holds before it is filled is never read\<close>
  "new_array K D into s h =
     (case copy_each into (window D s h) (h @ [K (window D s h)]) of (ys, h1) \<Rightarrow>
        (\<lparr>sBase = length h, sOff = 0, sLen = sLen s, sCap = sLen s\<rparr>, h1[length h := K ys]))"

definition slice_ok :: "('a list \<Rightarrow> 'c) \<Rightarrow> ('c \<Rightarrow> 'a list) \<Rightarrow> go_slice \<Rightarrow> 'c list \<Rightarrow> bool" where
  "slice_ok K D s h \<longleftrightarrow> sBase s < length h \<and> h ! sBase s = K (D (h ! sBase s)) \<and>
     sOff s + sLen s \<le> length (D (h ! sBase s))"

context deep_copier
begin

text \<open>What holds after a freshly allocated cell has been filled with a copy.\<close>

lemma filled:
  assumes x: "ok x h" and r: "copy x (h @ [z]) = (v, h1)"
  shows "\<exists>new. h1[length h := w] = h @ [w] @ new" "h1[length h := w] ! length h = w"
    "ok v (h1[length h := w])" "val v (h1[length h := w]) = val x h"
    "insert (length h) (cells v (h1[length h := w])) \<inter> {..<length h} = {}"
proof -
  have x1: "ok x (h @ [z])" "val x (h @ [z]) = val x h" using frame_append [OF x, of "[z]"] by simp_all
  obtain new where h1: "h1 = (h @ [z]) @ new" using copy_grows [OF x1(1)] by (auto simp: r)
  have v: "ok v h1" "val v h1 = val x h" "cells v h1 \<inter> {..<length (h @ [z])} = {}"
    using copy_ok [OF x1(1)] copy_val [OF x1(1)] copy_fresh [OF x1(1)] x1(2) by (simp_all add: r)
  have n: "length h \<notin> cells v h1" using v(3) by auto
  note upd = frame_update [OF v(1) n, of w]
  show "\<exists>new. h1[length h := w] = h @ [w] @ new" "h1[length h := w] ! length h = w" by (simp_all add: h1)
  show "ok v (h1[length h := w])" "val v (h1[length h := w]) = val x h" using upd v(2) by simp_all
  have "cells v h1 \<inter> {..<length h} = {}" using v(3) by (auto simp: lessThan_Suc)
  then show "insert (length h) (cells v (h1[length h := w])) \<inter> {..<length h} = {}"
    using upd by simp
qed

lemma pointer_copier:
  assumes KD: "\<And>v. D (K v) = v"
  shows "deep_copier (new_copy K D copy) (\<lambda>a h. insert a (cells (D (h ! a)) h)) (\<lambda>a h. val (D (h ! a)) h)
    (\<lambda>a h. a < length h \<and> h ! a = K (D (h ! a)) \<and> ok (D (h ! a)) h)"
proof
  fix a h assume a: "a < length h \<and> h ! a = K (D (h ! a)) \<and> ok (D (h ! a)) h"
  obtain v h1 where r: "copy (D (h ! a)) (h @ [K (D (h ! a))]) = (v, h1)" by fastforce
  have c: "new_copy K D copy a h = (length h, h1[length h := K v])" by (simp add: new_copy_def r)
  note f = filled [OF a [THEN conjunct2, THEN conjunct2] r, of "K v"]
  obtain new where new: "h1[length h := K v] = h @ [K v] @ new" using f(1) by blast
  then show "\<exists>new. snd (new_copy K D copy a h) = h @ new" by (simp add: c)
  show "fst (new_copy K D copy a h) < length (snd (new_copy K D copy a h)) \<and>
      snd (new_copy K D copy a h) ! fst (new_copy K D copy a h) =
        K (D (snd (new_copy K D copy a h) ! fst (new_copy K D copy a h))) \<and>
      ok (D (snd (new_copy K D copy a h) ! fst (new_copy K D copy a h))) (snd (new_copy K D copy a h))"
    using f(3) by (simp add: c KD new)
  show "val (D (snd (new_copy K D copy a h) ! fst (new_copy K D copy a h))) (snd (new_copy K D copy a h)) =
      val (D (h ! a)) h"
    using f(4) by (simp add: c KD new)
  show "insert (fst (new_copy K D copy a h))
      (cells (D (snd (new_copy K D copy a h) ! fst (new_copy K D copy a h))) (snd (new_copy K D copy a h)))
        \<inter> {..<length h} = {}"
    using f(5) by (simp add: c KD f(2))
  show "insert a (cells (D (h ! a)) h) \<subseteq> {..<length h}" using a cells_bound by blast
next
  fix a h h' assume a: "a < length h \<and> h ! a = K (D (h ! a)) \<and> ok (D (h ! a)) h"
    and len: "length h \<le> length h'" and same: "\<forall>b \<in> insert a (cells (D (h ! a)) h). h' ! b = h ! b"
  have eq: "h' ! a = h ! a" using same by blast
  have "ok (D (h ! a)) h' \<and> val (D (h ! a)) h' = val (D (h ! a)) h \<and> cells (D (h ! a)) h' = cells (D (h ! a)) h"
    by (rule frame [OF _ len]) (use a same in auto)
  then show "(a < length h' \<and> h' ! a = K (D (h' ! a)) \<and> ok (D (h' ! a)) h') \<and>
      val (D (h' ! a)) h' = val (D (h ! a)) h \<and>
      insert a (cells (D (h' ! a)) h') = insert a (cells (D (h ! a)) h)"
    using a len by (simp add: eq)
qed

lemma nil_copier:
  "deep_copier (unless_nil copy) (\<lambda>p h. case p of None \<Rightarrow> {} | Some x \<Rightarrow> cells x h)
     (\<lambda>p h. map_option (\<lambda>x. val x h) p) (\<lambda>p h. case p of None \<Rightarrow> True | Some x \<Rightarrow> ok x h)"
proof
  fix p h assume p: "case p of None \<Rightarrow> True | Some x \<Rightarrow> ok x h"
  have some: "unless_nil copy (Some x) h = (Some (fst (copy x h)), snd (copy x h))" for x
    by (simp add: unless_nil_def split: prod.split)
  have none: "unless_nil copy None h = (None, h)" by (simp add: unless_nil_def)
  have ok: "ok x h" if "p = Some x" for x using p that by simp
  show "\<exists>new. snd (unless_nil copy p h) = h @ new"
    by (cases p) (simp_all add: none some copy_grows ok)
  show "case fst (unless_nil copy p h) of None \<Rightarrow> True | Some x \<Rightarrow> ok x (snd (unless_nil copy p h))"
    by (cases p) (simp_all add: none some copy_ok ok)
  show "map_option (\<lambda>x. val x (snd (unless_nil copy p h))) (fst (unless_nil copy p h)) = map_option (\<lambda>x. val x h) p"
    by (cases p) (simp_all add: none some copy_val ok)
  show "(case fst (unless_nil copy p h) of None \<Rightarrow> {} | Some x \<Rightarrow> cells x (snd (unless_nil copy p h))) \<inter>
      {..<length h} = {}"
    by (cases p) (simp_all add: none some copy_fresh ok)
  show "(case p of None \<Rightarrow> {} | Some x \<Rightarrow> cells x h) \<subseteq> {..<length h}"
    by (cases p) (simp_all add: cells_bound ok)
next
  fix p h h' assume p: "case p of None \<Rightarrow> True | Some x \<Rightarrow> ok x h" and len: "length h \<le> length h'"
    and same: "\<forall>a \<in> (case p of None \<Rightarrow> {} | Some x \<Rightarrow> cells x h). h' ! a = h ! a"
  show "(case p of None \<Rightarrow> True | Some x \<Rightarrow> ok x h') \<and>
      map_option (\<lambda>x. val x h') p = map_option (\<lambda>x. val x h) p \<and>
      (case p of None \<Rightarrow> {} | Some x \<Rightarrow> cells x h') = (case p of None \<Rightarrow> {} | Some x \<Rightarrow> cells x h)"
  proof (cases p)
    case (Some x)
    have "ok x h' \<and> val x h' = val x h \<and> cells x h' = cells x h"
      by (rule frame [OF _ len]) (use p same Some in simp_all)
    then show ?thesis by (simp add: Some)
  qed simp
qed

lemma copy_each_laws:
  "\<forall>x \<in> set xs. ok x h \<Longrightarrow> copy_each copy xs h = (ys, h') \<Longrightarrow>
     (\<exists>new. h' = h @ new) \<and> (\<forall>y \<in> set ys. ok y h') \<and> map (\<lambda>y. val y h') ys = map (\<lambda>x. val x h) xs \<and>
     (\<Union>y \<in> set ys. cells y h') \<inter> {..<length h} = {}"
proof (induction xs arbitrary: h ys)
  case (Cons x xs)
  obtain y h1 where f: "copy x h = (y, h1)" by fastforce
  obtain zs where g: "copy_each copy xs h1 = (zs, h')" and ys: "ys = y # zs"
    using Cons(3) by (auto simp: f split: prod.splits)
  have x: "ok x h" using Cons(2) by simp
  obtain n1 where h1: "h1 = h @ n1" using copy_grows [OF x] by (auto simp: f)
  have rest: "ok z h1 \<and> val z h1 = val z h" if "z \<in> set xs" for z
    using frame_append [of z h n1] Cons(2) that by (simp add: h1)
  then have IH: "\<exists>new. h' = h1 @ new" "\<forall>z \<in> set zs. ok z h'" "map (\<lambda>z. val z h') zs = map (\<lambda>x. val x h1) xs"
    "(\<Union>z \<in> set zs. cells z h') \<inter> {..<length h1} = {}"
    using Cons(1) [OF _ g] by blast+
  obtain n2 where h': "h' = h1 @ n2" using IH(1) by blast
  have y: "ok y h1" "val y h1 = val x h" "cells y h1 \<inter> {..<length h} = {}"
    using copy_ok [OF x] copy_val [OF x] copy_fresh [OF x] by (simp_all add: f)
  have y': "ok y h'" "val y h' = val x h" "cells y h' = cells y h1"
    using frame_append [OF y(1), of n2] y(2) by (simp_all add: h')
  have vals: "map (\<lambda>x. val x h1) xs = map (\<lambda>x. val x h) xs" using rest by simp
  have "{..<length h} \<subseteq> {..<length h1}" by (simp add: h1)
  then have fresh: "(\<Union>z \<in> set zs. cells z h') \<inter> {..<length h} = {}" using IH(4) by (meson disjoint_iff subsetD)
  have "(\<Union>z \<in> set ys. cells z h') \<inter> {..<length h} = {}"
    using fresh y(3) by (simp add: ys y'(3) Int_Un_distrib2)
  moreover have "\<exists>new. h' = h @ new" by (simp add: h' h1)
  ultimately show ?case using IH(2,3) y' vals by (simp add: ys)
qed simp

lemma each_copier:
  "deep_copier (copy_each copy) (\<lambda>xs h. \<Union>x \<in> set xs. cells x h) (\<lambda>xs h. map (\<lambda>x. val x h) xs)
     (\<lambda>xs h. \<forall>x \<in> set xs. ok x h)"
proof
  fix xs h assume xs: "\<forall>x \<in> set xs. ok x h"
  obtain ys h' where r: "copy_each copy xs h = (ys, h')" by fastforce
  note laws = copy_each_laws [OF xs r]
  show "\<exists>new. snd (copy_each copy xs h) = h @ new"
    "\<forall>x \<in> set (fst (copy_each copy xs h)). ok x (snd (copy_each copy xs h))"
    "map (\<lambda>x. val x (snd (copy_each copy xs h))) (fst (copy_each copy xs h)) = map (\<lambda>x. val x h) xs"
    "(\<Union>x \<in> set (fst (copy_each copy xs h)). cells x (snd (copy_each copy xs h))) \<inter> {..<length h} = {}"
    using laws by (simp_all add: r)
  show "(\<Union>x \<in> set xs. cells x h) \<subseteq> {..<length h}" using xs cells_bound by blast
next
  fix xs h h' assume xs: "\<forall>x \<in> set xs. ok x h" and len: "length h \<le> length h'"
    and same: "\<forall>a \<in> \<Union>x \<in> set xs. cells x h. h' ! a = h ! a"
  have "ok x h' \<and> val x h' = val x h \<and> cells x h' = cells x h" if "x \<in> set xs" for x
    by (rule frame [OF _ len]) (use xs same that in auto)
  then show "(\<forall>x \<in> set xs. ok x h') \<and> map (\<lambda>x. val x h') xs = map (\<lambda>x. val x h) xs \<and>
      (\<Union>x \<in> set xs. cells x h') = (\<Union>x \<in> set xs. cells x h)"
    by simp
qed

lemma length_copy_each: "length (fst (copy_each f xs h)) = length xs"
  by (induction xs arbitrary: h) (auto split: prod.splits, metis fst_conv)

lemma slice_copier:
  assumes KD: "\<And>v. D (K v) = v"
  shows "deep_copier (new_array K D copy) (\<lambda>s h. insert (sBase s) (\<Union>x \<in> set (window D s h). cells x h))
    (\<lambda>s h. map (\<lambda>x. val x h) (window D s h))
    (\<lambda>s h. slice_ok K D s h \<and> (\<forall>x \<in> set (window D s h). ok x h))"
proof
  fix s h assume s: "slice_ok K D s h \<and> (\<forall>x \<in> set (window D s h). ok x h)"
  obtain ys h1 where r: "copy_each copy (window D s h) (h @ [K (window D s h)]) = (ys, h1)" by fastforce
  define t where "t = \<lparr>sBase = length h, sOff = 0, sLen = sLen s, sCap = sLen s\<rparr>"
  define h2 where "h2 = h1[length h := K ys]"
  have c: "new_array K D copy s h = (t, h2)" by (simp add: new_array_def r t_def h2_def)
  note f = deep_copier.filled [OF each_copier s [THEN conjunct2] r, of "K ys", folded h2_def]
  have "length ys = sLen s"
  proof -
    have "length ys = length (window D s h)"
      using length_copy_each [of copy "window D s h" "h @ [K (window D s h)]"] by (simp add: r)
    moreover have "sOff s + sLen s \<le> length (D (h ! sBase s))" using s by (simp add: slice_ok_def)
    ultimately show ?thesis by (simp add: window_def)
  qed
  then have w: "window D t h2 = ys" by (simp add: window_def t_def f(2) KD)
  obtain new where new: "h2 = h @ [K ys] @ new" using f(1) by blast
  show "\<exists>new. snd (new_array K D copy s h) = h @ new" by (simp add: c new)
  show "slice_ok K D (fst (new_array K D copy s h)) (snd (new_array K D copy s h)) \<and>
      (\<forall>x \<in> set (window D (fst (new_array K D copy s h)) (snd (new_array K D copy s h))).
         ok x (snd (new_array K D copy s h)))"
    using f(3) \<open>length ys = sLen s\<close> by (simp add: c w) (simp add: slice_ok_def t_def new KD)
  show "map (\<lambda>x. val x (snd (new_array K D copy s h)))
      (window D (fst (new_array K D copy s h)) (snd (new_array K D copy s h))) =
      map (\<lambda>x. val x h) (window D s h)"
    using f(4) by (simp add: c w)
  have "insert (sBase t) (\<Union>x \<in> set ys. cells x h2) \<inter> {..<length h} = {}"
    using f(5) by (simp add: t_def)
  then show "insert (sBase (fst (new_array K D copy s h)))
      (\<Union>x \<in> set (window D (fst (new_array K D copy s h)) (snd (new_array K D copy s h))).
         cells x (snd (new_array K D copy s h))) \<inter> {..<length h} = {}"
    by (simp only: c fst_conv snd_conv w)
  show "insert (sBase s) (\<Union>x \<in> set (window D s h). cells x h) \<subseteq> {..<length h}"
    using s cells_bound by (auto simp: slice_ok_def)
next
  fix s h h' assume s: "slice_ok K D s h \<and> (\<forall>x \<in> set (window D s h). ok x h)" and len: "length h \<le> length h'"
    and same: "\<forall>a \<in> insert (sBase s) (\<Union>x \<in> set (window D s h). cells x h). h' ! a = h ! a"
  have base: "h' ! sBase s = h ! sBase s" using same by blast
  then have w: "window D s h' = window D s h" by (simp add: window_def)
  have "ok x h' \<and> val x h' = val x h \<and> cells x h' = cells x h" if "x \<in> set (window D s h)" for x
    by (rule frame [OF _ len]) (use s same that in auto)
  then show "(slice_ok K D s h' \<and> (\<forall>x \<in> set (window D s h'). ok x h')) \<and>
      map (\<lambda>x. val x h') (window D s h') = map (\<lambda>x. val x h) (window D s h) \<and>
      insert (sBase s) (\<Union>x \<in> set (window D s h'). cells x h') =
        insert (sBase s) (\<Union>x \<in> set (window D s h). cells x h)"
    using s len by (simp add: w slice_ok_def base)
qed

text \<open>A coarser value is preserved as well.\<close>

lemma view_copier: "deep_copier copy cells (\<lambda>x h. g (val x h)) ok"
proof
  fix x h assume x: "ok x h"
  show "\<exists>new. snd (copy x h) = h @ new" "ok (fst (copy x h)) (snd (copy x h))"
    "g (val (fst (copy x h)) (snd (copy x h))) = g (val x h)"
    "cells (fst (copy x h)) (snd (copy x h)) \<inter> {..<length h} = {}" "cells x h \<subseteq> {..<length h}"
    using copy_grows [OF x] copy_ok [OF x] copy_val [OF x] copy_fresh [OF x] cells_bound [OF x] by simp_all
next
  fix x h h' assume "ok x h" "length h \<le> length h'" "\<forall>a \<in> cells x h. h' ! a = h ! a"
  from frame [OF this] show "ok x h' \<and> g (val x h') = g (val x h) \<and> cells x h' = cells x h" by simp
qed

end

end
