(* ===== verification/DeepCopy.thy ===== *)
theory DeepCopy
  imports ClaimApi Copier
begin

text \<open>
  The generated copies of the API types (\<open>api/v1alpha1/zz_generated.deepcopy.go\<close>).  Here the
  types have their pointers: an optional field is a reference to a cell, a list a slice of a
  backing array.  The metadata of a claim and of a list of claims, and the conditions, belong to
  the Kubernetes library: how they are copied is a parameter.
\<close>

section \<open>The types with their references\<close>

record spec_obj =
  oModel :: string
  oMinTps :: "nat option"
  oQuant :: string
  oEfficiencyPct :: "nat option"
  oDeviceClassName :: string
  oTargetDriver :: string
  oMinComputeTFLOPS :: "nat option"
  oExtraSelectors :: "go_slice option"

record status_obj =
  oObservedGeneration :: int
  oResolved :: "nat option"
  oTemplateRef :: "nat option"
  oCandidates :: "nat option"
  oConditions :: "go_slice option"

record 'm claim_obj =
  oTypeMeta :: "string \<times> string"
  oMeta :: 'm
  oSpec :: spec_obj
  oStatus :: status_obj

record 'l list_obj =
  lTypeMeta :: "string \<times> string"
  lMeta :: 'l
  lItems :: "go_slice option"

text \<open>A cell holds one value of a Go type; \<open>Foreign\<close> cells belong to the metadata.\<close>

datatype ('m, 'l, 'x) cell =
    Float64 (float64_of: rat)
  | Int32 (int32_of: int)
  | Int64 (int64_of: int)
  | Strings (strings_of: "string list")
  | Physics (physics_of: resolved_physics)
  | TemplateName (template_of: string)
  | CandidateCounts (candidates_of: candidates_status)
  | ConditionArray (conditions_of: "condition list")
  | SpecCell (spec_of: spec_obj)
  | StatusCell (status_of: status_obj)
  | ClaimCell (claim_of: "'m claim_obj")
  | ClaimArray (claims_of: "'m claim_obj list")
  | ListCell (list_of: "'l list_obj")
  | Foreign (foreign_of: 'x)

section \<open>The copies\<close>

text \<open>The structs without references: \<open>*out = *in\<close>.\<close>

definition Candidates_DeepCopyInto :: "candidates_status \<Rightarrow> 'c list \<Rightarrow> candidates_status \<times> 'c list" where
  "Candidates_DeepCopyInto = assign"

definition ResolvedPhysics_DeepCopyInto :: "resolved_physics \<Rightarrow> 'c list \<Rightarrow> resolved_physics \<times> 'c list" where
  "ResolvedPhysics_DeepCopyInto = assign"

definition TemplateRef_DeepCopyInto :: "string \<Rightarrow> 'c list \<Rightarrow> string \<times> 'c list" where
  "TemplateRef_DeepCopyInto = assign"

definition Spec_DeepCopyInto :: "spec_obj \<Rightarrow> ('m, 'l, 'x) cell list \<Rightarrow> spec_obj \<times> ('m, 'l, 'x) cell list" where
  "Spec_DeepCopyInto s h =
     (case unless_nil (new_copy Float64 float64_of assign) (oMinTps s) h of (tps, h1) \<Rightarrow>
      case unless_nil (new_copy Int32 int32_of assign) (oEfficiencyPct s) h1 of (eff, h2) \<Rightarrow>
      case unless_nil (new_copy Int64 int64_of assign) (oMinComputeTFLOPS s) h2 of (tflops, h3) \<Rightarrow>
      case unless_nil (new_array Strings strings_of assign) (oExtraSelectors s) h3 of (sels, h4) \<Rightarrow>
        (s\<lparr>oMinTps := tps, oEfficiencyPct := eff, oMinComputeTFLOPS := tflops, oExtraSelectors := sels\<rparr>, h4))"

definition Status_DeepCopyInto ::
  "(condition \<Rightarrow> condition) \<Rightarrow> status_obj \<Rightarrow> ('m, 'l, 'x) cell list \<Rightarrow> status_obj \<times> ('m, 'l, 'x) cell list" where
  "Status_DeepCopyInto copyCondition s h =
     (case unless_nil (new_copy Physics physics_of assign) (oResolved s) h of (res, h1) \<Rightarrow>
      case unless_nil (new_copy TemplateName template_of assign) (oTemplateRef s) h1 of (ref, h2) \<Rightarrow>
      case unless_nil (new_copy CandidateCounts candidates_of assign) (oCandidates s) h2 of (cand, h3) \<Rightarrow>
      case unless_nil (new_array ConditionArray conditions_of (\<lambda>c. assign (copyCondition c)))
             (oConditions s) h3 of (conds, h4) \<Rightarrow>
        (s\<lparr>oResolved := res, oTemplateRef := ref, oCandidates := cand, oConditions := conds\<rparr>, h4))"

type_synonym ('a, 'm, 'l, 'x) copy = "'a \<Rightarrow> ('m, 'l, 'x) cell list \<Rightarrow> 'a \<times> ('m, 'l, 'x) cell list"

definition Claim_DeepCopyInto ::
  "(condition \<Rightarrow> condition) \<Rightarrow> ('m, 'm, 'l, 'x) copy \<Rightarrow> ('m claim_obj, 'm, 'l, 'x) copy" where
  "Claim_DeepCopyInto copyCondition copyMeta c h =
     (case copyMeta (oMeta c) h of (m, h1) \<Rightarrow>
      case Spec_DeepCopyInto (oSpec c) h1 of (s, h2) \<Rightarrow>
      case Status_DeepCopyInto copyCondition (oStatus c) h2 of (st, h3) \<Rightarrow>
        (c\<lparr>oMeta := m, oSpec := s, oStatus := st\<rparr>, h3))"

definition List_DeepCopyInto ::
  "(condition \<Rightarrow> condition) \<Rightarrow> ('m, 'm, 'l, 'x) copy \<Rightarrow> ('l, 'm, 'l, 'x) copy \<Rightarrow> ('l list_obj, 'm, 'l, 'x) copy" where
  "List_DeepCopyInto copyCondition copyMeta copyListMeta l h =
     (case copyListMeta (lMeta l) h of (m, h1) \<Rightarrow>
      case unless_nil (new_array ClaimArray claims_of (Claim_DeepCopyInto copyCondition copyMeta))
             (lItems l) h1 of (items, h2) \<Rightarrow>
        (l\<lparr>lMeta := m, lItems := items\<rparr>, h2))"

text \<open>\<open>DeepCopy\<close>: nil for nil, else a new value that the copy goes into.\<close>

definition Candidates_DeepCopy :: "(nat option, 'm, 'l, 'x) copy" where
  "Candidates_DeepCopy = unless_nil (new_copy CandidateCounts candidates_of Candidates_DeepCopyInto)"

definition ResolvedPhysics_DeepCopy :: "(nat option, 'm, 'l, 'x) copy" where
  "ResolvedPhysics_DeepCopy = unless_nil (new_copy Physics physics_of ResolvedPhysics_DeepCopyInto)"

definition TemplateRef_DeepCopy :: "(nat option, 'm, 'l, 'x) copy" where
  "TemplateRef_DeepCopy = unless_nil (new_copy TemplateName template_of TemplateRef_DeepCopyInto)"

definition Spec_DeepCopy :: "(nat option, 'm, 'l, 'x) copy" where
  "Spec_DeepCopy = unless_nil (new_copy SpecCell spec_of Spec_DeepCopyInto)"

definition Status_DeepCopy :: "(condition \<Rightarrow> condition) \<Rightarrow> (nat option, 'm, 'l, 'x) copy" where
  "Status_DeepCopy copyCondition = unless_nil (new_copy StatusCell status_of (Status_DeepCopyInto copyCondition))"

definition Claim_DeepCopy ::
  "(condition \<Rightarrow> condition) \<Rightarrow> ('m, 'm, 'l, 'x) copy \<Rightarrow> (nat option, 'm, 'l, 'x) copy" where
  "Claim_DeepCopy copyCondition copyMeta =
     unless_nil (new_copy ClaimCell claim_of (Claim_DeepCopyInto copyCondition copyMeta))"

definition List_DeepCopy ::
  "(condition \<Rightarrow> condition) \<Rightarrow> ('m, 'm, 'l, 'x) copy \<Rightarrow> ('l, 'm, 'l, 'x) copy \<Rightarrow> (nat option, 'm, 'l, 'x) copy" where
  "List_DeepCopy copyCondition copyMeta copyListMeta =
     unless_nil (new_copy ListCell list_of (List_DeepCopyInto copyCondition copyMeta copyListMeta))"

text \<open>
  \<open>DeepCopyObject\<close> wraps the pointer in an interface, which is nil for a nil pointer rather than
  a pointer of the type.
\<close>

datatype runtime_object = ClaimObject nat | ListObject nat

definition Claim_DeepCopyObject ::
  "(condition \<Rightarrow> condition) \<Rightarrow> ('m, 'm, 'l, 'x) copy \<Rightarrow> nat option \<Rightarrow> ('m, 'l, 'x) cell list \<Rightarrow>
   runtime_object option \<times> ('m, 'l, 'x) cell list" where
  "Claim_DeepCopyObject copyCondition copyMeta p h =
     (case Claim_DeepCopy copyCondition copyMeta p h of
        (None, h') \<Rightarrow> (None, h') | (Some a, h') \<Rightarrow> (Some (ClaimObject a), h'))"

definition List_DeepCopyObject ::
  "(condition \<Rightarrow> condition) \<Rightarrow> ('m, 'm, 'l, 'x) copy \<Rightarrow> ('l, 'm, 'l, 'x) copy \<Rightarrow> nat option \<Rightarrow>
   ('m, 'l, 'x) cell list \<Rightarrow> runtime_object option \<times> ('m, 'l, 'x) cell list" where
  "List_DeepCopyObject copyCondition copyMeta copyListMeta p h =
     (case List_DeepCopy copyCondition copyMeta copyListMeta p h of
        (None, h') \<Rightarrow> (None, h') | (Some a, h') \<Rightarrow> (Some (ListObject a), h'))"

section \<open>What the objects denote\<close>

text \<open>
  The value behind the references, and whether a list was nil, which the values do not tell;
  the cells that can be written through an object; and the objects without dangling or
  ill-typed references.
\<close>

definition ptr_ok :: "('a \<Rightarrow> 'c) \<Rightarrow> ('c \<Rightarrow> 'a) \<Rightarrow> nat option \<Rightarrow> 'c list \<Rightarrow> bool" where
  "ptr_ok K D p h = pred_option (\<lambda>a. a < length h \<and> h ! a = K (D (h ! a))) p"

definition read_ptr :: "('c \<Rightarrow> 'a) \<Rightarrow> nat option \<Rightarrow> 'c list \<Rightarrow> 'a option" where
  "read_ptr D p h = map_option (\<lambda>a. D (h ! a)) p"

definition read_slice :: "('c \<Rightarrow> 'a list) \<Rightarrow> go_slice option \<Rightarrow> 'c list \<Rightarrow> 'a list option" where
  "read_slice D s h = map_option (\<lambda>s. window D s h) s"

definition or_empty :: "'a list option \<Rightarrow> 'a list" where
  "or_empty l = (case l of None \<Rightarrow> [] | Some xs \<Rightarrow> xs)"

definition base_cell :: "go_slice option \<Rightarrow> nat set" where
  "base_cell s = set_option (map_option sBase s)"

definition spec_value :: "spec_obj \<Rightarrow> ('m, 'l, 'x) cell list \<Rightarrow> model_claim_spec \<times> bool" where
  "spec_value s h =
     (\<lparr>Model = oModel s, MinTps = read_ptr float64_of (oMinTps s) h, Quant = oQuant s,
       EfficiencyPct = read_ptr int32_of (oEfficiencyPct s) h, DeviceClassName = oDeviceClassName s,
       TargetDriver = oTargetDriver s, MinComputeTFLOPS = read_ptr int64_of (oMinComputeTFLOPS s) h,
       ExtraSelectors = or_empty (read_slice strings_of (oExtraSelectors s) h)\<rparr>,
      oExtraSelectors s = None)"

definition spec_cells :: "spec_obj \<Rightarrow> ('m, 'l, 'x) cell list \<Rightarrow> nat set" where
  "spec_cells s h = set_option (oMinTps s) \<union> set_option (oEfficiencyPct s) \<union>
     set_option (oMinComputeTFLOPS s) \<union> base_cell (oExtraSelectors s)"

definition spec_ok :: "spec_obj \<Rightarrow> ('m, 'l, 'x) cell list \<Rightarrow> bool" where
  "spec_ok s h \<longleftrightarrow> ptr_ok Float64 float64_of (oMinTps s) h \<and> ptr_ok Int32 int32_of (oEfficiencyPct s) h \<and>
     ptr_ok Int64 int64_of (oMinComputeTFLOPS s) h \<and>
     pred_option (\<lambda>s. slice_ok Strings strings_of s h) (oExtraSelectors s)"

lemma ptr_copier:
  assumes "\<And>v. D (K v) = v"
  shows "deep_copier (unless_nil (new_copy K D assign)) (\<lambda>p _. set_option p) (read_ptr D) (ptr_ok K D)"
proof -
  have "deep_copier (unless_nil (new_copy K D assign))
      (\<lambda>p h. case p of None \<Rightarrow> {} | Some x \<Rightarrow> insert x {}) (\<lambda>p h. map_option (\<lambda>x. D (h ! x)) p)
      (\<lambda>p h. case p of None \<Rightarrow> True | Some a \<Rightarrow> a < length h \<and> h ! a = K (D (h ! a)) \<and> True)"
    by (rule deep_copier.nil_copier, rule deep_copier.pointer_copier, rule assign_copier) (rule assms)
  also have "(\<lambda>p h. case p of None \<Rightarrow> {} | Some x \<Rightarrow> insert x {}) = (\<lambda>p _. set_option p)"
    by (intro ext) (auto split: option.splits)
  also have "(\<lambda>p h. map_option (\<lambda>x. D (h ! x)) p) = read_ptr D" by (intro ext) (simp add: read_ptr_def)
  also have "(\<lambda>p h. case p of None \<Rightarrow> True | Some a \<Rightarrow> a < length h \<and> h ! a = K (D (h ! a)) \<and> True) = ptr_ok K D"
    by (intro ext) (auto simp: ptr_ok_def split: option.splits)
  finally show ?thesis .
qed


lemma deep_copier_eq:
  "deep_copier f c v k \<Longrightarrow> f = f' \<Longrightarrow> c = c' \<Longrightarrow> v = v' \<Longrightarrow> k = k' \<Longrightarrow> deep_copier f' c' v' k'"
  by simp

lemma array_copier:
  assumes "\<And>v. D (K v) = v"
  shows "deep_copier (unless_nil (new_array K D assign)) (\<lambda>s _. base_cell s) (read_slice D)
    (\<lambda>s h. pred_option (\<lambda>s. slice_ok K D s h) s)"
proof -
  have "deep_copier (unless_nil (new_array K D assign))
      (\<lambda>p h. case p of None \<Rightarrow> {} | Some s \<Rightarrow> insert (sBase s) (\<Union>x \<in> set (window D s h). {}))
      (\<lambda>p h. map_option (\<lambda>s. map (\<lambda>x. x) (window D s h)) p)
      (\<lambda>p h. case p of None \<Rightarrow> True | Some s \<Rightarrow> slice_ok K D s h \<and> (\<forall>x \<in> set (window D s h). True))"
    by (rule deep_copier.nil_copier, rule deep_copier.slice_copier, rule assign_copier) (rule assms)
  then show ?thesis
  proof (rule deep_copier_eq)
    show "(\<lambda>p h. case p of None \<Rightarrow> {} | Some s \<Rightarrow> insert (sBase s) (\<Union>x \<in> set (window D s h). {})) =
        (\<lambda>s (_ :: _). base_cell s)"
      by (intro ext) (auto simp: base_cell_def split: option.splits)
    show "(\<lambda>p h. map_option (\<lambda>s. map (\<lambda>x. x) (window D s h)) p) = read_slice D"
      by (intro ext) (simp add: read_slice_def)
    show "(\<lambda>p h. case p of None \<Rightarrow> True | Some s \<Rightarrow> slice_ok K D s h \<and> (\<forall>x \<in> set (window D s h). True)) =
        (\<lambda>s h. pred_option (\<lambda>s. slice_ok K D s h) s)"
      by (intro ext) (auto split: option.splits)
  qed simp
qed

section \<open>Every generated copy is a deep copy\<close>

definition spec_get :: "spec_obj \<Rightarrow> nat option \<times> nat option \<times> nat option \<times> go_slice option" where
  "spec_get s = (oMinTps s, oEfficiencyPct s, oMinComputeTFLOPS s, oExtraSelectors s)"

definition spec_put :: "nat option \<times> nat option \<times> nat option \<times> go_slice option \<Rightarrow> spec_obj \<Rightarrow> spec_obj" where
  "spec_put t s = (case t of (tps, eff, tflops, sels) \<Rightarrow>
     s\<lparr>oMinTps := tps, oEfficiencyPct := eff, oMinComputeTFLOPS := tflops, oExtraSelectors := sels\<rparr>)"

lemma Spec_DeepCopyInto_parts:
  "Spec_DeepCopyInto = copy_parts spec_get spec_put
     (copy_both (unless_nil (new_copy Float64 float64_of assign))
     (copy_both (unless_nil (new_copy Int32 int32_of assign))
     (copy_both (unless_nil (new_copy Int64 int64_of assign))
       (unless_nil (new_array Strings strings_of assign)))))"
  by (intro ext)
    (simp add: Spec_DeepCopyInto_def copy_parts_def copy_both_def spec_get_def spec_put_def split: prod.split)

lemma spec_copier: "deep_copier Spec_DeepCopyInto spec_cells spec_value spec_ok"
proof -
  let ?rest = "\<lambda>s. (oModel s, oQuant s, oDeviceClassName s, oTargetDriver s)"
  let ?view = "\<lambda>((m, q, cl, dr), tps, eff, tf, sels).
    (\<lparr>Model = m, MinTps = tps, Quant = q, EfficiencyPct = eff, DeviceClassName = cl, TargetDriver = dr,
      MinComputeTFLOPS = tf, ExtraSelectors = or_empty sels\<rparr>, sels = None)"
  have parts: "deep_copier (copy_both (unless_nil (new_copy Float64 float64_of assign))
     (copy_both (unless_nil (new_copy Int32 int32_of assign))
     (copy_both (unless_nil (new_copy Int64 int64_of assign))
       (unless_nil (new_array Strings strings_of assign)))))
    (\<lambda>p h. set_option (fst p) \<union> (set_option (fst (snd p)) \<union> (set_option (fst (snd (snd p))) \<union> base_cell (snd (snd (snd p))))))
    (\<lambda>p h. (read_ptr float64_of (fst p) h, read_ptr int32_of (fst (snd p)) h,
       read_ptr int64_of (fst (snd (snd p))) h, read_slice strings_of (snd (snd (snd p))) h))
    (\<lambda>p (h :: ('m, 'l, 'x) cell list). ptr_ok Float64 float64_of (fst p) h \<and> ptr_ok Int32 int32_of (fst (snd p)) h \<and>
       ptr_ok Int64 int64_of (fst (snd (snd p))) h \<and>
       pred_option (\<lambda>s. slice_ok Strings strings_of s h) (snd (snd (snd p))))"
    by (intro pair_copier ptr_copier array_copier) simp_all
  show ?thesis
  proof (rule deep_copier_eq [OF deep_copier.view_copier [OF struct_copier [OF parts,
        of spec_get spec_put ?rest], of ?view]])
    show "spec_get (spec_put x s) = x" "?rest (spec_put x s) = ?rest s" for x s
      by (simp_all add: spec_get_def spec_put_def split: prod.split)
    show "copy_parts spec_get spec_put (copy_both (unless_nil (new_copy Float64 float64_of assign))
     (copy_both (unless_nil (new_copy Int32 int32_of assign))
     (copy_both (unless_nil (new_copy Int64 int64_of assign))
       (unless_nil (new_array Strings strings_of assign))))) = Spec_DeepCopyInto"
      by (simp add: Spec_DeepCopyInto_parts)
  qed (auto simp: fun_eq_iff spec_cells_def spec_value_def spec_ok_def spec_get_def read_slice_def)
qed


definition status_value :: "status_obj \<Rightarrow> ('m, 'l, 'x) cell list \<Rightarrow> model_claim_status \<times> bool" where
  "status_value s h =
     (\<lparr>ObservedGeneration = oObservedGeneration s, ResolvedField = read_ptr physics_of (oResolved s) h,
       TemplateRef = read_ptr template_of (oTemplateRef s) h,
       CandidatesField = read_ptr candidates_of (oCandidates s) h,
       Conditions = or_empty (read_slice conditions_of (oConditions s) h)\<rparr>,
      oConditions s = None)"

definition status_cells :: "status_obj \<Rightarrow> ('m, 'l, 'x) cell list \<Rightarrow> nat set" where
  "status_cells s h = set_option (oResolved s) \<union> set_option (oTemplateRef s) \<union>
     set_option (oCandidates s) \<union> base_cell (oConditions s)"

definition status_ok :: "status_obj \<Rightarrow> ('m, 'l, 'x) cell list \<Rightarrow> bool" where
  "status_ok s h \<longleftrightarrow> ptr_ok Physics physics_of (oResolved s) h \<and>
     ptr_ok TemplateName template_of (oTemplateRef s) h \<and>
     ptr_ok CandidateCounts candidates_of (oCandidates s) h \<and>
     pred_option (\<lambda>s. slice_ok ConditionArray conditions_of s h) (oConditions s)"

definition status_get :: "status_obj \<Rightarrow> nat option \<times> nat option \<times> nat option \<times> go_slice option" where
  "status_get s = (oResolved s, oTemplateRef s, oCandidates s, oConditions s)"

definition status_put :: "nat option \<times> nat option \<times> nat option \<times> go_slice option \<Rightarrow> status_obj \<Rightarrow> status_obj" where
  "status_put t s = (case t of (res, ref, cand, conds) \<Rightarrow>
     s\<lparr>oResolved := res, oTemplateRef := ref, oCandidates := cand, oConditions := conds\<rparr>)"

lemma Status_DeepCopyInto_parts:
  assumes "\<And>c. copyCondition c = c"
  shows "Status_DeepCopyInto copyCondition = copy_parts status_get status_put
     (copy_both (unless_nil (new_copy Physics physics_of assign))
     (copy_both (unless_nil (new_copy TemplateName template_of assign))
     (copy_both (unless_nil (new_copy CandidateCounts candidates_of assign))
       (unless_nil (new_array ConditionArray conditions_of assign)))))"
  by (intro ext)
    (simp add: Status_DeepCopyInto_def copy_parts_def copy_both_def status_get_def status_put_def assms
      split: prod.split)

lemma status_copier:
  assumes "\<And>c. copyCondition c = c"
  shows "deep_copier (Status_DeepCopyInto copyCondition) status_cells status_value status_ok"
proof -
  let ?copy = "copy_both (unless_nil (new_copy Physics physics_of assign))
     (copy_both (unless_nil (new_copy TemplateName template_of assign))
     (copy_both (unless_nil (new_copy CandidateCounts candidates_of assign))
       (unless_nil (new_array ConditionArray conditions_of assign))))"
  let ?rest = "\<lambda>s. oObservedGeneration s"
  let ?view = "\<lambda>(g, res, ref, cand, conds).
    (\<lparr>ObservedGeneration = g, ResolvedField = res, TemplateRef = ref, CandidatesField = cand,
      Conditions = or_empty conds\<rparr>, conds = None)"
  have parts: "deep_copier ?copy
    (\<lambda>p h. set_option (fst p) \<union> (set_option (fst (snd p)) \<union> (set_option (fst (snd (snd p))) \<union> base_cell (snd (snd (snd p))))))
    (\<lambda>p h. (read_ptr physics_of (fst p) h, read_ptr template_of (fst (snd p)) h,
       read_ptr candidates_of (fst (snd (snd p))) h, read_slice conditions_of (snd (snd (snd p))) h))
    (\<lambda>p (h :: ('m, 'l, 'x) cell list). ptr_ok Physics physics_of (fst p) h \<and>
       ptr_ok TemplateName template_of (fst (snd p)) h \<and>
       ptr_ok CandidateCounts candidates_of (fst (snd (snd p))) h \<and>
       pred_option (\<lambda>s. slice_ok ConditionArray conditions_of s h) (snd (snd (snd p))))"
    by (intro pair_copier ptr_copier array_copier) simp_all
  show ?thesis
  proof (rule deep_copier_eq [OF deep_copier.view_copier [OF struct_copier [OF parts,
        of status_get status_put ?rest], of ?view]])
    show "status_get (status_put x s) = x" "?rest (status_put x s) = ?rest s" for x s
      by (simp_all add: status_get_def status_put_def split: prod.split)
    show "copy_parts status_get status_put ?copy = Status_DeepCopyInto copyCondition"
      by (simp add: Status_DeepCopyInto_parts assms)
  qed (auto simp: fun_eq_iff status_cells_def status_value_def status_ok_def status_get_def read_slice_def)
qed

interpretation spec_copies: deep_copier Spec_DeepCopyInto spec_cells spec_value spec_ok
  by (rule spec_copier)

interpretation status_copies: deep_copier "Status_DeepCopyInto (\<lambda>c. c)" status_cells status_value status_ok
  by (rule status_copier) simp

text \<open>
  A claim is copied deeply if its metadata is, whose cells, value and soundness are parameters
  as well.
\<close>

definition claim_value ::
  "('m \<Rightarrow> ('m, 'l, 'x) cell list \<Rightarrow> 'v) \<Rightarrow> 'm claim_obj \<Rightarrow> ('m, 'l, 'x) cell list \<Rightarrow>
   (string \<times> string) \<times> 'v \<times> (model_claim_spec \<times> bool) \<times> (model_claim_status \<times> bool)" where
  "claim_value mv c h = (oTypeMeta c, mv (oMeta c) h, spec_value (oSpec c) h, status_value (oStatus c) h)"

definition claim_cells ::
  "('m \<Rightarrow> ('m, 'l, 'x) cell list \<Rightarrow> nat set) \<Rightarrow> 'm claim_obj \<Rightarrow> ('m, 'l, 'x) cell list \<Rightarrow> nat set" where
  "claim_cells mc c h = mc (oMeta c) h \<union> spec_cells (oSpec c) h \<union> status_cells (oStatus c) h"

definition claim_ok ::
  "('m \<Rightarrow> ('m, 'l, 'x) cell list \<Rightarrow> bool) \<Rightarrow> 'm claim_obj \<Rightarrow> ('m, 'l, 'x) cell list \<Rightarrow> bool" where
  "claim_ok mo c h \<longleftrightarrow> mo (oMeta c) h \<and> spec_ok (oSpec c) h \<and> status_ok (oStatus c) h"

definition claim_get :: "'m claim_obj \<Rightarrow> 'm \<times> spec_obj \<times> status_obj" where
  "claim_get c = (oMeta c, oSpec c, oStatus c)"

definition claim_put :: "'m \<times> spec_obj \<times> status_obj \<Rightarrow> 'm claim_obj \<Rightarrow> 'm claim_obj" where
  "claim_put t c = (case t of (m, s, st) \<Rightarrow> c\<lparr>oMeta := m, oSpec := s, oStatus := st\<rparr>)"

lemma claim_copier:
  assumes cond: "\<And>c. copyCondition c = c" and meta: "deep_copier copyMeta mc mv mo"
  shows "deep_copier (Claim_DeepCopyInto copyCondition copyMeta) (claim_cells mc) (claim_value mv) (claim_ok mo)"
proof -
  let ?copy = "copy_both copyMeta (copy_both Spec_DeepCopyInto (Status_DeepCopyInto copyCondition))"
  have parts: "deep_copier ?copy
    (\<lambda>p h. mc (fst p) h \<union> (spec_cells (fst (snd p)) h \<union> status_cells (snd (snd p)) h))
    (\<lambda>p h. (mv (fst p) h, spec_value (fst (snd p)) h, status_value (snd (snd p)) h))
    (\<lambda>p h. mo (fst p) h \<and> spec_ok (fst (snd p)) h \<and> status_ok (snd (snd p)) h)"
    by (intro pair_copier meta spec_copier status_copier cond)
  show ?thesis
  proof (rule deep_copier_eq [OF struct_copier [OF parts, of claim_get claim_put oTypeMeta]])
    show "claim_get (claim_put x c) = x" "oTypeMeta (claim_put x c) = oTypeMeta c" for x c
      by (simp_all add: claim_get_def claim_put_def split: prod.split)
    show "copy_parts claim_get claim_put ?copy = Claim_DeepCopyInto copyCondition copyMeta"
      by (intro ext) (simp add: Claim_DeepCopyInto_def copy_parts_def copy_both_def claim_get_def
          claim_put_def split: prod.split)
  qed (auto simp: fun_eq_iff claim_cells_def claim_value_def claim_ok_def claim_get_def)
qed

text \<open>A list of claims, with its own metadata.\<close>

definition list_value ::
  "('l \<Rightarrow> ('m, 'l, 'x) cell list \<Rightarrow> 'w) \<Rightarrow> ('m \<Rightarrow> ('m, 'l, 'x) cell list \<Rightarrow> 'v) \<Rightarrow> 'l list_obj \<Rightarrow> ('m, 'l, 'x) cell list \<Rightarrow>
   (string \<times> string) \<times> 'w \<times>
   ((string \<times> string) \<times> 'v \<times> (model_claim_spec \<times> bool) \<times> (model_claim_status \<times> bool)) list option" where
  "list_value lv mv l h =
     (lTypeMeta l, lv (lMeta l) h,
      map_option (\<lambda>s. map (\<lambda>c. claim_value mv c h) (window claims_of s h)) (lItems l))"

definition list_cells ::
  "('l \<Rightarrow> ('m, 'l, 'x) cell list \<Rightarrow> nat set) \<Rightarrow> ('m \<Rightarrow> ('m, 'l, 'x) cell list \<Rightarrow> nat set) \<Rightarrow>
   'l list_obj \<Rightarrow> ('m, 'l, 'x) cell list \<Rightarrow> nat set" where
  "list_cells lc mc l h = lc (lMeta l) h \<union>
     (case lItems l of None \<Rightarrow> {}
      | Some s \<Rightarrow> insert (sBase s) (\<Union>c \<in> set (window claims_of s h). claim_cells mc c h))"

definition list_ok ::
  "('l \<Rightarrow> ('m, 'l, 'x) cell list \<Rightarrow> bool) \<Rightarrow> ('m \<Rightarrow> ('m, 'l, 'x) cell list \<Rightarrow> bool) \<Rightarrow>
   'l list_obj \<Rightarrow> ('m, 'l, 'x) cell list \<Rightarrow> bool" where
  "list_ok lo mo l h \<longleftrightarrow> lo (lMeta l) h \<and>
     (case lItems l of None \<Rightarrow> True
      | Some s \<Rightarrow> slice_ok ClaimArray claims_of s h \<and> (\<forall>c \<in> set (window claims_of s h). claim_ok mo c h))"

definition list_get :: "'l list_obj \<Rightarrow> 'l \<times> go_slice option" where
  "list_get l = (lMeta l, lItems l)"

definition list_put :: "'l \<times> go_slice option \<Rightarrow> 'l list_obj \<Rightarrow> 'l list_obj" where
  "list_put t l = (case t of (m, items) \<Rightarrow> l\<lparr>lMeta := m, lItems := items\<rparr>)"

lemma list_copier:
  assumes cond: "\<And>c. copyCondition c = c" and meta: "deep_copier copyMeta mc mv mo"
    and lmeta: "deep_copier copyListMeta lc lv lo"
  shows "deep_copier (List_DeepCopyInto copyCondition copyMeta copyListMeta) (list_cells lc mc)
    (list_value lv mv) (list_ok lo mo)"
proof -
  let ?items = "unless_nil (new_array ClaimArray claims_of (Claim_DeepCopyInto copyCondition copyMeta))"
  have items: "deep_copier ?items
    (\<lambda>p h. case p of None \<Rightarrow> {}
       | Some s \<Rightarrow> insert (sBase s) (\<Union>c \<in> set (window claims_of s h). claim_cells mc c h))
    (\<lambda>p h. map_option (\<lambda>s. map (\<lambda>c. claim_value mv c h) (window claims_of s h)) p)
    (\<lambda>p h. case p of None \<Rightarrow> True
       | Some s \<Rightarrow> slice_ok ClaimArray claims_of s h \<and> (\<forall>c \<in> set (window claims_of s h). claim_ok mo c h))"
    by (rule deep_copier.nil_copier, rule deep_copier.slice_copier, rule claim_copier [OF cond meta]) simp
  show ?thesis
  proof (rule deep_copier_eq [OF struct_copier [OF pair_copier [OF lmeta items], of list_get list_put lTypeMeta]])
    show "list_get (list_put x l) = x" "lTypeMeta (list_put x l) = lTypeMeta l" for x l
      by (simp_all add: list_get_def list_put_def split: prod.split)
    show "copy_parts list_get list_put (copy_both copyListMeta ?items) =
        List_DeepCopyInto copyCondition copyMeta copyListMeta"
      by (intro ext) (simp add: List_DeepCopyInto_def copy_parts_def copy_both_def list_get_def
          list_put_def split: prod.split)
  qed (auto simp: fun_eq_iff list_cells_def list_value_def list_ok_def list_get_def)
qed


section \<open>Properties\<close>

definition claim_at ::
  "('m \<Rightarrow> ('m, 'l, 'x) cell list \<Rightarrow> bool) \<Rightarrow> nat \<Rightarrow> ('m, 'l, 'x) cell list \<Rightarrow> bool" where
  \<comment> \<open>a pointer to a claim without dangling references\<close>
  "claim_at mo a h \<longleftrightarrow> a < length h \<and> h ! a = ClaimCell (claim_of (h ! a)) \<and> claim_ok mo (claim_of (h ! a)) h"

definition list_at ::
  "('l \<Rightarrow> ('m, 'l, 'x) cell list \<Rightarrow> bool) \<Rightarrow> ('m \<Rightarrow> ('m, 'l, 'x) cell list \<Rightarrow> bool) \<Rightarrow>
   nat \<Rightarrow> ('m, 'l, 'x) cell list \<Rightarrow> bool" where
  "list_at lo mo a h \<longleftrightarrow> a < length h \<and> h ! a = ListCell (list_of (h ! a)) \<and> list_ok lo mo (list_of (h ! a)) h"

definition only_changes :: "nat set \<Rightarrow> 'c list \<Rightarrow> 'c list \<Rightarrow> bool" where
  \<comment> \<open>a later memory: new cells, and writes to some of the old ones\<close>
  "only_changes A h h' \<longleftrightarrow> length h \<le> length h' \<and> (\<forall>i < length h. i \<notin> A \<longrightarrow> h' ! i = h ! i)"

lemma copied_pointer:
  assumes c: "deep_copier into cells val ok" and KD: "\<And>v. D (K v) = v"
    and a: "a < length h \<and> h ! a = K (D (h ! a)) \<and> ok (D (h ! a)) h"
    and copy: "unless_nil (new_copy K D into) (Some a) h = (p, h')"
  shows "\<exists>b. p = Some b \<and> val (D (h' ! b)) h' = val (D (h ! a)) h \<and>
    (\<forall>h''. only_changes (insert b (cells (D (h' ! b)) h')) h' h'' \<longrightarrow>
       val (D (h'' ! a)) h'' = val (D (h ! a)) h) \<and>
    (\<forall>h''. only_changes (insert a (cells (D (h' ! a)) h')) h' h'' \<longrightarrow>
       val (D (h'' ! b)) h'' = val (D (h ! a)) h)"
proof -
  note ptr = deep_copier.pointer_copier [OF c KD]
  obtain b where b: "new_copy K D into a h = (b, h')" "p = Some b"
    using copy by (auto simp: unless_nil_def split: prod.splits)
  have "val (D (h' ! b)) h' = val (D (h ! a)) h"
    using deep_copier.copy_val [OF ptr a] by (simp add: b(1))
  moreover have "val (D (h'' ! a)) h'' = val (D (h ! a)) h"
    if "only_changes (insert b (cells (D (h' ! b)) h')) h' h''" for h''
    by (rule deep_copier.isolated(1) [OF ptr a b(1)]) (use that in \<open>auto simp: only_changes_def\<close>)
  moreover have "val (D (h'' ! b)) h'' = val (D (h ! a)) h"
    if "only_changes (insert a (cells (D (h' ! a)) h')) h' h''" for h''
    by (rule deep_copier.isolated(2) [OF ptr a b(1)]) (use that in \<open>auto simp: only_changes_def\<close>)
  ultimately show ?thesis using b(2) by blast
qed

text \<open>
  C30: the copy of a ModelClaim has the same value and shares nothing that can be written.
  Whatever is written later through the copy, every optional field, selector and condition
  included, the original keeps its value, and the other way round.
\<close>

theorem claim_copy_isolated:
  fixes copyMeta :: "('m, 'm, 'l, 'x) copy"
  assumes "\<And>c. copyCondition c = c" "deep_copier copyMeta mc mv mo" "claim_at mo a h"
    and "Claim_DeepCopy copyCondition copyMeta (Some a) h = (p, h')"
  shows "\<exists>b. p = Some b \<and> claim_value mv (claim_of (h' ! b)) h' = claim_value mv (claim_of (h ! a)) h \<and>
    (\<forall>h''. only_changes (insert b (claim_cells mc (claim_of (h' ! b)) h')) h' h'' \<longrightarrow>
       claim_value mv (claim_of (h'' ! a)) h'' = claim_value mv (claim_of (h ! a)) h) \<and>
    (\<forall>h''. only_changes (insert a (claim_cells mc (claim_of (h' ! a)) h')) h' h'' \<longrightarrow>
       claim_value mv (claim_of (h'' ! b)) h'' = claim_value mv (claim_of (h ! a)) h)"
  by (rule copied_pointer [where D = claim_of and K = ClaimCell, OF claim_copier [OF assms(1,2)]])
    (use assms(3,4) in \<open>simp_all add: claim_at_def Claim_DeepCopy_def\<close>)

text \<open>The same for a list of claims: its array and every claim in it are copied.\<close>

theorem list_copy_isolated:
  fixes copyMeta :: "('m, 'm, 'l, 'x) copy"
  assumes "\<And>c. copyCondition c = c" "deep_copier copyMeta mc mv mo" "deep_copier copyListMeta lc lv lo"
    and "list_at lo mo a h" "List_DeepCopy copyCondition copyMeta copyListMeta (Some a) h = (p, h')"
  shows "\<exists>b. p = Some b \<and> list_value lv mv (list_of (h' ! b)) h' = list_value lv mv (list_of (h ! a)) h \<and>
    (\<forall>h''. only_changes (insert b (list_cells lc mc (list_of (h' ! b)) h')) h' h'' \<longrightarrow>
       list_value lv mv (list_of (h'' ! a)) h'' = list_value lv mv (list_of (h ! a)) h) \<and>
    (\<forall>h''. only_changes (insert a (list_cells lc mc (list_of (h' ! a)) h')) h' h'' \<longrightarrow>
       list_value lv mv (list_of (h'' ! b)) h'' = list_value lv mv (list_of (h ! a)) h)"
  by (rule copied_pointer [where D = list_of and K = ListCell, OF list_copier [OF assms(1,2,3)]])
    (use assms(4,5) in \<open>simp_all add: list_at_def List_DeepCopy_def\<close>)

lemma copy_of_nil [simp]:
  "Candidates_DeepCopy None h = (None, h)" "ResolvedPhysics_DeepCopy None h = (None, h)"
  "TemplateRef_DeepCopy None h = (None, h)" "Spec_DeepCopy None h = (None, h)"
  "Status_DeepCopy cc None h = (None, h)" "Claim_DeepCopy cc cm None h = (None, h)"
  "List_DeepCopy cc cm cl None h = (None, h)" "Claim_DeepCopyObject cc cm None h = (None, h)"
  "List_DeepCopyObject cc cm cl None h = (None, h)"
  by (simp_all add: Candidates_DeepCopy_def ResolvedPhysics_DeepCopy_def TemplateRef_DeepCopy_def
      Spec_DeepCopy_def Status_DeepCopy_def Claim_DeepCopy_def List_DeepCopy_def
      Claim_DeepCopyObject_def List_DeepCopyObject_def unless_nil_def)

text \<open>A claim with a label list as its metadata, a minimal speed and one selector.\<close>

definition sample_spec_obj :: spec_obj where
  "sample_spec_obj = \<lparr>oModel = ''m'', oMinTps = Some 1, oQuant = [], oEfficiencyPct = None,
     oDeviceClassName = ''gpu.llmfit.ai'', oTargetDriver = [], oMinComputeTFLOPS = None,
     oExtraSelectors = Some \<lparr>sBase = 2, sOff = 1, sLen = 1, sCap = 1\<rparr>\<rparr>"

definition sample_claim_obj :: "nat option claim_obj" where
  "sample_claim_obj = \<lparr>oTypeMeta = (''ModelClaim'', APIVersion), oMeta = Some 0, oSpec = sample_spec_obj,
     oStatus = \<lparr>oObservedGeneration = 0, oResolved = None, oTemplateRef = None, oCandidates = None,
       oConditions = None\<rparr>\<rparr>"

definition sample_memory :: "(nat option, unit, string list) cell list" where
  "sample_memory = [Foreign [''a=b''], Float64 30, Strings [''x'', ''y''], ClaimCell sample_claim_obj]"

definition sample_copyMeta :: "(nat option, nat option, unit, string list) copy" where
  "sample_copyMeta = unless_nil (new_copy Foreign foreign_of assign)"

theorem claim_copy_isolated_witness:
  "\<exists>b h'. Claim_DeepCopy (\<lambda>c. c) sample_copyMeta (Some 3) sample_memory = (Some b, h') \<and>
     MinTps (fst (spec_value (oSpec (claim_of (h' ! b))) (h'[1 := Float64 5]))) = Some 30"
proof -
  obtain p h' where r: "Claim_DeepCopy (\<lambda>c. c) sample_copyMeta (Some 3) sample_memory = (p, h')" by fastforce
  have meta: "deep_copier sample_copyMeta (\<lambda>p _. set_option p) (read_ptr foreign_of) (ptr_ok Foreign foreign_of)"
    unfolding sample_copyMeta_def by (rule ptr_copier) simp
  have at: "claim_at (ptr_ok Foreign foreign_of) 3 sample_memory"
    by (simp add: claim_at_def claim_ok_def sample_memory_def sample_claim_obj_def sample_spec_obj_def
        spec_ok_def status_ok_def ptr_ok_def slice_ok_def)
  have orig: "spec_value (oSpec (claim_of (sample_memory ! 3))) sample_memory =
      (\<lparr>Model = ''m'', MinTps = Some 30, Quant = [], EfficiencyPct = None,
        DeviceClassName = ''gpu.llmfit.ai'', TargetDriver = [], MinComputeTFLOPS = None,
        ExtraSelectors = [''y'']\<rparr>, False)"
    by (simp add: sample_memory_def sample_claim_obj_def sample_spec_obj_def spec_value_def read_ptr_def
        read_slice_def window_def or_empty_def)
  from claim_copy_isolated [OF _ meta at r] obtain b where b: "p = Some b"
    and later: "\<forall>h''. only_changes (insert 3 (claim_cells (\<lambda>p _. set_option p) (claim_of (h' ! 3)) h')) h' h'' \<longrightarrow>
      claim_value (read_ptr foreign_of) (claim_of (h'' ! b)) h'' =
        claim_value (read_ptr foreign_of) (claim_of (sample_memory ! 3)) sample_memory"
    by auto
  have old: "h' ! 3 = sample_memory ! 3" "b \<noteq> 1"
    using r b by (simp_all add: sample_memory_def Claim_DeepCopy_def unless_nil_def new_copy_def
        Claim_DeepCopyInto_def sample_copyMeta_def sample_claim_obj_def sample_spec_obj_def
        Spec_DeepCopyInto_def Status_DeepCopyInto_def new_array_def window_def assign_def)
      auto
  have "only_changes (insert 3 (claim_cells (\<lambda>p _. set_option p) (claim_of (h' ! 3)) h')) h' (h'[1 := Float64 5])"
    by (auto simp: only_changes_def old claim_cells_def spec_cells_def sample_memory_def
        sample_claim_obj_def sample_spec_obj_def nth_list_update)
  with later have "spec_value (oSpec (claim_of (h'[1 := Float64 5] ! b))) (h'[1 := Float64 5]) =
      spec_value (oSpec (claim_of (sample_memory ! 3))) sample_memory"
    by (simp add: claim_value_def)
  then show ?thesis using r b old(2) by (simp add: orig nth_list_update)
qed

end
