(* ===== verification/Agent.thy ===== *)
theory Agent
  imports NodePlugin Observe Satisfiable
begin

text \<open>
  The per-node agent (\<open>cmd/llmfit-dra/main.go\<close>): start-up, the coexistence check, one
  probe-and-publish cycle, and the loop that runs a cycle per kernel event or tick.  The local
  variables of \<open>run\<close>, the shared inventory and the metric registry form one record; what the
  agent sees of the world during one pass of the loop is a record of observations.
\<close>

section \<open>Configuration and start-up\<close>

text \<open>
  \<open>runDeepEqual\<close> is the helper library's comparison of two published inventories.
  \<open>runApi\<close> and \<open>runExec\<close> say whether a transport is configured.
\<close>

record run_config =
  runNode :: string
  runSysRoot :: string
  runProcRoot :: string
  runIndex :: index
  runVendors :: "string set"
  runApi :: bool
  runExec :: bool
  runPlatform :: platform
  runDeepEqual :: "device list \<Rightarrow> device list \<Rightarrow> bool"

record observation =
  obsSlices :: "resource_slice list result"
  obsTree :: fs
  obsRam :: fs
  obsApi :: "system result"
  obsExec :: "system result"
  obsDetectAt :: int
  obsElapsed :: int
  obsBeatAt :: int

record published_line =
  lName :: string
  lKind :: string
  lVendor :: string
  lDriver :: string
  lModel :: string
  lSource :: string
  lMemory :: "int option"
  lBandwidth :: int
  lHealthy :: bool
  lVendorManaged :: bool

datatype agent_log =
  CoexistCheckFailed string
| DemotionChanged bool
| UnrecognizedDrivers "string list"
| DetectionFailed string
| InitialProbe nat string
| PluginRegistered
| ListenerUnavailable
| ListenerStopped
| UeventReprobe
| ReprobeFailed string
| InventoryChanged nat
| PublishedDevice published_line
| ShuttingDown

record agent =
  aOpts :: options
  aPrevForeign :: "string list"
  aInventory :: inventory
  aDetector :: detector
  aPrev :: "device list"
  aDesired :: "(string \<times> device list list) list"
  aMetrics :: metrics
  aHealth :: health
  aUevents :: bool
  aRunning :: bool
  aLog :: "agent_log list"

definition klog :: "agent_log \<Rightarrow> agent \<Rightarrow> agent" where
  "klog l ag = ag\<lparr>aLog := aLog ag @ [l]\<rparr>"

definition observe :: "(metrics \<Rightarrow> metrics) \<Rightarrow> agent \<Rightarrow> agent" where
  "observe f ag = ag\<lparr>aMetrics := f (aMetrics ag)\<rparr>"

section \<open>The coexistence check\<close>

definition note_demotion :: "bool \<Rightarrow> agent \<Rightarrow> agent" where
  "note_demotion vm ag =
     (if vm \<noteq> VendorManagedGPUs (aOpts ag) then klog (DemotionChanged vm) ag else ag)"

definition note_foreign :: "string list \<Rightarrow> agent \<Rightarrow> agent" where
  "note_foreign foreign ag =
     (if foreign \<noteq> aPrevForeign ag
      then (klog (UnrecognizedDrivers foreign) ag)\<lparr>aPrevForeign := foreign\<rparr> else ag)"

definition refreshOpts :: "run_config \<Rightarrow> resource_slice list result \<Rightarrow> agent \<Rightarrow> agent" where
  "refreshOpts cfg listed ag =
     (case VendorGPUsPresent (runVendors cfg) listed of
        Inl err \<Rightarrow> klog (CoexistCheckFailed err) (observe (ProbeError ''coexist'') ag)
      | Inr (vm, foreign) \<Rightarrow>
          note_foreign foreign (note_demotion vm ag)\<lparr>aOpts := (aOpts ag)\<lparr>VendorManagedGPUs := vm\<rparr>\<rparr>)"

section \<open>One probe\<close>

definition attrStr :: "device \<Rightarrow> string \<Rightarrow> string" where
  "attrStr d key = (case str_of (Attributes d) key of Some s \<Rightarrow> s | None \<Rightarrow> [])"

definition attrBool :: "device \<Rightarrow> string \<Rightarrow> bool" where
  "attrBool d key = (case bool_of (Attributes d) key of Some b \<Rightarrow> b | None \<Rightarrow> False)"

definition deviceInfos :: "device list \<Rightarrow> device_info list" where
  "deviceInfos devices =
     map (\<lambda>d. \<lparr>iKind = attrStr d ''kind'', iVendor = attrStr d ''vendor'',
               iDriver = attrStr d ''driver'', iHealthy = attrBool d ''healthy'',
               iVendorManaged = attrBool d ''vendorManaged''\<rparr>) devices"

definition published_device_line :: "device \<Rightarrow> published_line" where
  "published_device_line d =
     \<lparr>lName = devName d, lKind = attrStr d ''kind'', lVendor = attrStr d ''vendor'',
      lDriver = attrStr d ''driver'', lModel = attrStr d ''model'',
      lSource = attrStr d ''source'', lMemory = Capacity d ''memory'',
      lBandwidth = (case int_of (Attributes d) ''memoryBandwidthGBs'' of Some i \<Rightarrow> i | None \<Rightarrow> 0),
      lHealthy = attrBool d ''healthy'', lVendorManaged = attrBool d ''vendorManaged''\<rparr>"

definition logInventory :: "device list \<Rightarrow> agent \<Rightarrow> agent" where
  "logInventory devices ag = fold (\<lambda>d. klog (PublishedDevice (published_device_line d))) devices ag"

definition ask_detector :: "run_config \<Rightarrow> observation \<Rightarrow> detector \<Rightarrow> system result \<times> detector" where
  "ask_detector cfg obs d =
     Detect (if runApi cfg then Some (obsApi obs) else None)
       (if runExec cfg then Some (obsExec obs) else None) (obsDetectAt obs) d"

definition note_source :: "system result \<Rightarrow> agent \<Rightarrow> agent" where
  "note_source r ag =
     (case r of
        Inl err \<Rightarrow>
          observe (SetCapabilitySource ''index'')
            (klog (DetectionFailed err) (observe (ProbeError ''detect'') ag))
      | Inr _ \<Rightarrow> observe (SetCapabilitySource (transport (aDetector ag))) ag)"

definition detect_source :: "run_config \<Rightarrow> observation \<Rightarrow> agent \<Rightarrow> system option \<times> agent" where
  "detect_source cfg obs ag =
     (let (r, det) = ask_detector cfg obs (aDetector ag)
      in (case r of Inl _ \<Rightarrow> None | Inr s \<Rightarrow> Some s, note_source r (ag\<lparr>aDetector := det\<rparr>)))"

definition build_desired ::
  "run_config \<Rightarrow> probe_device list \<Rightarrow> nat \<Rightarrow> system option \<times> agent \<Rightarrow>
     (device list \<times> (string \<times> device list list) list) result \<times> agent" where
  "build_desired cfg probed ram = (\<lambda>(sys, ag).
     let devices = BuildDevices (runPlatform cfg) probed (runIndex cfg) ram sys (aOpts ag)
     in (Inr (devices, BuildResources (runNode cfg) devices),
         observe (SetInventory (deviceInfos devices)) ag))"

definition desiredState ::
  "run_config \<Rightarrow> observation \<Rightarrow> agent \<Rightarrow>
     (device list \<times> (string \<times> device list list) list) result \<times> agent" where
  "desiredState cfg obs ag =
     (case Walk (runPlatform cfg) (obsTree obs) (runSysRoot cfg) (runProcRoot cfg) of
        Inl err \<Rightarrow> (Inl (''device tree walk: '' @ err), observe (ProbeError ''walk'') ag)
      | Inr probed \<Rightarrow>
          (let ag1 = ag\<lparr>aInventory := inventory_set probed\<rparr>
           in case MemTotalBytes (obsRam obs) (runProcRoot cfg) of
                Inl err \<Rightarrow> (Inl (''reading system RAM: '' @ err), observe (ProbeError ''meminfo'') ag1)
              | Inr ram \<Rightarrow> build_desired cfg probed ram (detect_source cfg obs ag1)))"

section \<open>The slice publisher\<close>

text \<open>
  What \<open>publisher.Start\<close> hands to the slice helper, and what its error handler records.
\<close>

record slice_options =
  soDriver :: string
  soOwnerAPIVersion :: string
  soOwnerKind :: string
  soOwnerName :: string
  soResources :: "(string \<times> device list list) list"

definition publisher_options :: "string \<Rightarrow> (string \<times> device list list) list \<Rightarrow> slice_options" where
  "publisher_options nodeName resources =
     \<lparr>soDriver = DriverName, soOwnerAPIVersion = ''v1'', soOwnerKind = ''Node'',
      soOwnerName = nodeName, soResources = resources\<rparr>"

datatype publish_error = DroppedFields string | OtherPublishError string

definition on_publish_error :: "publish_error \<Rightarrow> metrics \<Rightarrow> metrics" where
  "on_publish_error err =
     SlicePublishError (case err of DroppedFields _ \<Rightarrow> ''dropped_fields'' | OtherPublishError _ \<Rightarrow> ''api'')"

section \<open>The loop\<close>

datatype wakeup = Done | Uevent | UeventsClosed | Tick

definition adopt :: "run_config \<Rightarrow> device list \<Rightarrow> agent \<Rightarrow> agent" where
  \<comment> \<open>remember the inventory when it changed\<close>
  "adopt cfg devices ag =
     (if runDeepEqual cfg (aPrev ag) devices then ag
      else (logInventory devices (klog (InventoryChanged (length devices)) ag))\<lparr>aPrev := devices\<rparr>)"

definition publish ::
  "run_config \<Rightarrow> observation \<Rightarrow> device list \<Rightarrow> (string \<times> device list list) list \<Rightarrow> agent \<Rightarrow> agent" where
  "publish cfg obs devices resources ag =
     (adopt cfg devices ag)
       \<lparr>aDesired := resources,
        aMetrics := ObserveProbe (obsElapsed obs) (\<not> runDeepEqual cfg (aPrev ag) devices) (aMetrics ag),
        aHealth := Beat (obsBeatAt obs) (aHealth ag)\<rparr>"

definition cycle_step :: "run_config \<Rightarrow> observation \<Rightarrow> agent \<Rightarrow> agent" where
  "cycle_step cfg obs ag =
     (case desiredState cfg obs (refreshOpts cfg (obsSlices obs) ag) of
        (Inl err, ag1) \<Rightarrow> klog (ReprobeFailed err) ag1
      | (Inr (devices, resources), ag1) \<Rightarrow> publish cfg obs devices resources ag1)"

definition loop_step :: "run_config \<Rightarrow> wakeup \<Rightarrow> observation \<Rightarrow> agent \<Rightarrow> agent" where
  "loop_step cfg w obs ag =
     (case w of
        Done \<Rightarrow> klog ShuttingDown (ag\<lparr>aRunning := False\<rparr>)
      | UeventsClosed \<Rightarrow>
          klog ListenerStopped (observe (HotplugListener False) (ag\<lparr>aUevents := False\<rparr>))
      | Uevent \<Rightarrow> cycle_step cfg obs (klog UeventReprobe (observe HotplugWakeup ag))
      | Tick \<Rightarrow> cycle_step cfg obs ag)"

text \<open>
  The arms of the \<open>select\<close>: those of the event channel need a channel, and a channel set to nil
  never becomes ready.
\<close>

definition arm_ready :: "agent \<Rightarrow> wakeup \<Rightarrow> bool" where
  "arm_ready ag w \<longleftrightarrow> (w \<in> {Uevent, UeventsClosed} \<longrightarrow> aUevents ag)"

definition wake :: "run_config \<Rightarrow> wakeup \<times> observation \<Rightarrow> agent \<Rightarrow> agent" where
  "wake cfg = (\<lambda>(w, obs) ag.
     if aRunning ag \<and> arm_ready ag w then loop_step cfg w obs ag else ag)"

definition agent_run :: "run_config \<Rightarrow> (wakeup \<times> observation) list \<Rightarrow> agent \<Rightarrow> agent" where
  "agent_run cfg evs ag = fold (wake cfg) evs ag"

section \<open>Start-up\<close>

record flags =
  flagNode :: string
  flagSysRoot :: string
  flagProcRoot :: string
  flagBin :: string
  flagURL :: string
  flagInterval :: int
  flagPlugin :: bool
  flagTaints :: bool
  flagVendors :: string

text \<open>
  What start-up is told by the libraries and services it calls: the kube configuration and
  client, the publisher's and the kubelet plugin's start, the uevent socket; and two clock
  readings.
\<close>

record startup =
  upConfig :: "unit result"
  upClient :: "unit result"
  upIndex :: "index result"
  upPublisher :: "unit result"
  upPlugin :: "unit result"
  upListener :: bool
  upStart :: int
  upBeat :: int
  upPlatform :: platform
  upDeepEqual :: "device list \<Rightarrow> device list \<Rightarrow> bool"

datatype startup_error =
  NodeNameRequired
| IntervalTooShort int
| StartFailed string

definition second :: int where
  "second = 1000000000"

definition envOr :: "(string \<Rightarrow> string) \<Rightarrow> string \<Rightarrow> string \<Rightarrow> string" where
  "envOr env key fallback = (if env key \<noteq> [] then env key else fallback)"

definition check_flags :: "flags \<Rightarrow> startup_error option" where
  "check_flags fl =
     (if flagNode fl = [] then Some NodeNameRequired
      else if flagInterval fl < second then Some (IntervalTooShort (flagInterval fl))
      else None)"

definition first_agent :: "flags \<Rightarrow> startup \<Rightarrow> detector \<Rightarrow> agent" where
  "first_agent fl up det =
     \<lparr>aOpts = \<lparr>optTaints = flagTaints fl, VendorManagedGPUs = False\<rparr>, aPrevForeign = [],
      aInventory = NewInventory, aDetector = det, aPrev = [], aDesired = [],
      aMetrics = fresh_metrics, aHealth = NewHealth (wrap64 (3 * flagInterval fl)) (upStart up),
      aUevents = False, aRunning = True, aLog = []\<rparr>"

definition first_config ::
  "flags \<Rightarrow> startup \<Rightarrow> index \<Rightarrow> api_base option \<Rightarrow> bool \<Rightarrow> run_config" where
  "first_config fl up idx api exec =
     \<lparr>runNode = flagNode fl, runSysRoot = fst (NewProber (flagSysRoot fl) (flagProcRoot fl)),
      runProcRoot = snd (NewProber (flagSysRoot fl) (flagProcRoot fl)),
      runIndex = idx, runVendors = ParseVendorDrivers (flagVendors fl), runApi = (api \<noteq> None),
      runExec = exec, runPlatform = upPlatform up, runDeepEqual = upDeepEqual up\<rparr>"

definition mark_ready :: "startup \<Rightarrow> device list \<Rightarrow> agent \<Rightarrow> agent" where
  \<comment> \<open>ready, the first beat, the event listener, and the variables of the loop\<close>
  "mark_ready up devices ag =
     logInventory devices
       (observe (HotplugListener (upListener up))
         ((if upListener up then ag else klog ListenerUnavailable ag)
            \<lparr>aHealth := Beat (upBeat up) (Ready (aHealth ag)), aUevents := upListener up,
             aPrev := devices\<rparr>))"

definition start_services :: "flags \<Rightarrow> startup \<Rightarrow> device list \<Rightarrow> agent \<Rightarrow> startup_error + agent" where
  "start_services fl up devices ag =
     (case upPublisher up of
        Inl err \<Rightarrow> Inl (StartFailed (''starting resourceslice controller: '' @ err))
      | Inr _ \<Rightarrow>
          if flagPlugin fl
          then (case upPlugin up of
                  Inl err \<Rightarrow> Inl (StartFailed (''starting kubelet plugin: '' @ err))
                | Inr _ \<Rightarrow> Inr (mark_ready up devices (klog PluginRegistered ag)))
          else Inr (mark_ready up devices ag))"

definition first_probe ::
  "flags \<Rightarrow> startup \<Rightarrow> observation \<Rightarrow> run_config \<Rightarrow> agent \<Rightarrow> startup_error + agent" where
  "first_probe fl up obs cfg ag =
     (case desiredState cfg obs (refreshOpts cfg (obsSlices obs) ag) of
        (Inl err, _) \<Rightarrow> Inl (StartFailed err)
      | (Inr (devices, resources), ag1) \<Rightarrow>
          start_services fl up devices
            ((klog (InitialProbe (length devices) (flagNode fl)) ag1)\<lparr>aDesired := resources\<rparr>))"

definition run_start :: "flags \<Rightarrow> startup \<Rightarrow> observation \<Rightarrow> startup_error + (run_config \<times> agent)" where
  "run_start fl up obs =
     (case check_flags fl of Some e \<Rightarrow> Inl e
      | None \<Rightarrow>
     (case upConfig up of Inl err \<Rightarrow> Inl (StartFailed (''building kube config: '' @ err))
      | Inr _ \<Rightarrow>
     (case upClient up of Inl err \<Rightarrow> Inl (StartFailed (''building kube client: '' @ err))
      | Inr _ \<Rightarrow>
     (case upIndex up of Inl err \<Rightarrow> Inl (StartFailed err)
      | Inr idx \<Rightarrow>
     (case NewDetector (flagURL fl) (flagBin fl) (600 * second) of
        Inl err \<Rightarrow> Inl (StartFailed (''configuring llmfit source: '' @ err))
      | Inr (api, exec, det) \<Rightarrow>
          let cfg = first_config fl up idx api exec
          in map_sum id (Pair cfg) (first_probe fl up obs cfg (first_agent fl up det)))))))"

section \<open>Facts about a cycle\<close>

definition published :: "agent \<Rightarrow> device list" where
  \<comment> \<open>the devices of the pools handed to the publisher last\<close>
  "published ag = concat (concat (map snd (aDesired ag)))"

definition cycle_fails :: "run_config \<Rightarrow> observation \<Rightarrow> bool" where
  "cycle_fails cfg obs \<longleftrightarrow>
     (case Walk (runPlatform cfg) (obsTree obs) (runSysRoot cfg) (runProcRoot cfg) of
        Inl _ \<Rightarrow> True
      | Inr _ \<Rightarrow> (case MemTotalBytes (obsRam obs) (runProcRoot cfg) of Inl _ \<Rightarrow> True | Inr _ \<Rightarrow> False))"

lemma klog_fields [simp]:
  "aOpts (klog l ag) = aOpts ag" "aInventory (klog l ag) = aInventory ag"
  "aDetector (klog l ag) = aDetector ag" "aPrev (klog l ag) = aPrev ag"
  "aDesired (klog l ag) = aDesired ag" "aMetrics (klog l ag) = aMetrics ag"
  "aHealth (klog l ag) = aHealth ag" "aUevents (klog l ag) = aUevents ag"
  "aRunning (klog l ag) = aRunning ag"
  by (simp_all add: klog_def)

lemma observe_fields [simp]:
  "aOpts (observe f ag) = aOpts ag" "aInventory (observe f ag) = aInventory ag"
  "aDetector (observe f ag) = aDetector ag" "aPrev (observe f ag) = aPrev ag"
  "aDesired (observe f ag) = aDesired ag" "aMetrics (observe f ag) = f (aMetrics ag)"
  "aHealth (observe f ag) = aHealth ag" "aUevents (observe f ag) = aUevents ag"
  "aRunning (observe f ag) = aRunning ag"
  by (simp_all add: observe_def)

text \<open>The part of the state that only a completed probe or the listener's end changes.\<close>

definition kept :: "agent \<Rightarrow> agent \<Rightarrow> bool" where
  "kept ag ag' \<longleftrightarrow>
     aDesired ag' = aDesired ag \<and> aHealth ag' = aHealth ag \<and> aUevents ag' = aUevents ag \<and>
     aRunning ag' = aRunning ag \<and>
     devicesGauge (aMetrics ag') = devicesGauge (aMetrics ag) \<and>
     devicesVendorManaged (aMetrics ag') = devicesVendorManaged (aMetrics ag) \<and>
     hotplugListenerUp (aMetrics ag') = hotplugListenerUp (aMetrics ag)"

lemma kept_trans: "kept a b \<Longrightarrow> kept b c \<Longrightarrow> kept a c"
  by (simp add: kept_def)

lemma kept_refresh: "kept ag (refreshOpts cfg listed ag)"
  by (simp add: kept_def refreshOpts_def note_foreign_def note_demotion_def metric_simps
      split: sum.split prod.split)

lemma refresh_opts:
  "aOpts (refreshOpts cfg listed ag) =
     (case VendorGPUsPresent (runVendors cfg) listed of
        Inl _ \<Rightarrow> aOpts ag | Inr (vm, _) \<Rightarrow> (aOpts ag)\<lparr>VendorManagedGPUs := vm\<rparr>)"
  by (simp add: refreshOpts_def note_foreign_def note_demotion_def split: sum.split prod.split)

lemma kept_detect:
  "kept ag (snd (detect_source cfg obs ag))"
  "aOpts (snd (detect_source cfg obs ag)) = aOpts ag"
  "aInventory (snd (detect_source cfg obs ag)) = aInventory ag"
  "aPrev (snd (detect_source cfg obs ag)) = aPrev ag"
  by (simp_all add: kept_def detect_source_def note_source_def metric_simps Let_def case_prod_unfold
      split: sum.split)

lemma desiredState_error:
  assumes "cycle_fails cfg obs"
  shows "\<exists>e ag'. desiredState cfg obs ag = (Inl e, ag') \<and> kept ag ag' \<and> aOpts ag' = aOpts ag"
  using assms
  by (auto simp: cycle_fails_def desiredState_def kept_def metric_simps split: sum.splits)

lemma desiredState_ok:
  assumes "\<not> cycle_fails cfg obs"
  shows "\<exists>probed ram sys ag1.
    Walk (runPlatform cfg) (obsTree obs) (runSysRoot cfg) (runProcRoot cfg) = Inr probed \<and>
    MemTotalBytes (obsRam obs) (runProcRoot cfg) = Inr ram \<and>
    (sys, ag1) = detect_source cfg obs (ag\<lparr>aInventory := inventory_set probed\<rparr>) \<and>
    desiredState cfg obs ag = build_desired cfg probed ram (sys, ag1) \<and>
    kept ag ag1 \<and> aOpts ag1 = aOpts ag \<and> aInventory ag1 = inventory_set probed"
proof -
  obtain probed ram where
    w: "Walk (runPlatform cfg) (obsTree obs) (runSysRoot cfg) (runProcRoot cfg) = Inr probed"
    and m: "MemTotalBytes (obsRam obs) (runProcRoot cfg) = Inr ram"
    using assms by (auto simp: cycle_fails_def split: sum.splits)
  obtain sys ag1 where d: "detect_source cfg obs (ag\<lparr>aInventory := inventory_set probed\<rparr>) = (sys, ag1)"
    by (cases "detect_source cfg obs (ag\<lparr>aInventory := inventory_set probed\<rparr>)")
  have "kept (ag\<lparr>aInventory := inventory_set probed\<rparr>) ag1"
    using kept_detect(1) [of "ag\<lparr>aInventory := inventory_set probed\<rparr>" cfg obs] by (simp add: d)
  then have "kept ag ag1" by (simp add: kept_def)
  moreover have "aOpts ag1 = aOpts ag" "aInventory ag1 = inventory_set probed"
    using kept_detect(2,3) [of cfg obs "ag\<lparr>aInventory := inventory_set probed\<rparr>"] by (simp_all add: d)
  moreover have "desiredState cfg obs ag = build_desired cfg probed ram (sys, ag1)"
    using d by (simp add: desiredState_def w m)
  ultimately show ?thesis using w m d by metis
qed

lemma logInventory_fields [simp]:
  "aOpts (logInventory ds ag) = aOpts ag" "aInventory (logInventory ds ag) = aInventory ag"
  "aDesired (logInventory ds ag) = aDesired ag" "aMetrics (logInventory ds ag) = aMetrics ag"
  "aHealth (logInventory ds ag) = aHealth ag" "aUevents (logInventory ds ag) = aUevents ag"
  "aRunning (logInventory ds ag) = aRunning ag" "aPrev (logInventory ds ag) = aPrev ag"
  unfolding logInventory_def by (induction ds arbitrary: ag) simp_all

lemma adopt_fields [simp]:
  "aOpts (adopt cfg ds ag) = aOpts ag" "aInventory (adopt cfg ds ag) = aInventory ag"
  "aDesired (adopt cfg ds ag) = aDesired ag" "aMetrics (adopt cfg ds ag) = aMetrics ag"
  "aHealth (adopt cfg ds ag) = aHealth ag" "aUevents (adopt cfg ds ag) = aUevents ag"
  "aRunning (adopt cfg ds ag) = aRunning ag"
  by (simp_all add: adopt_def)

text \<open>A failed cycle, and a completed one.\<close>

lemma cycle_failed:
  assumes "cycle_fails cfg obs"
  shows "kept ag (cycle_step cfg obs ag) \<and>
    aOpts (cycle_step cfg obs ag) = aOpts (refreshOpts cfg (obsSlices obs) ag)"
proof -
  obtain e ag' where s: "desiredState cfg obs (refreshOpts cfg (obsSlices obs) ag) = (Inl e, ag')"
    and k: "kept (refreshOpts cfg (obsSlices obs) ag) ag'" "aOpts ag' = aOpts (refreshOpts cfg (obsSlices obs) ag)"
    using desiredState_error [OF assms] by blast
  have "kept ag ag'" using kept_refresh k(1) by (rule kept_trans)
  then show ?thesis using k(2) by (simp add: cycle_step_def s kept_def)
qed

lemma cycle_completed:
  assumes "\<not> cycle_fails cfg obs"
  shows "\<exists>probed ram sys.
    (let ag' = cycle_step cfg obs ag; opts = aOpts (refreshOpts cfg (obsSlices obs) ag);
         devs = BuildDevices (runPlatform cfg) probed (runIndex cfg) ram sys opts
     in Walk (runPlatform cfg) (obsTree obs) (runSysRoot cfg) (runProcRoot cfg) = Inr probed \<and>
        aDesired ag' = BuildResources (runNode cfg) devs \<and> aOpts ag' = opts \<and>
        aInventory ag' = inventory_set probed \<and> aHealth ag' = Beat (obsBeatAt obs) (aHealth ag) \<and>
        aUevents ag' = aUevents ag \<and> aRunning ag' = aRunning ag \<and>
        (\<forall>m. devicesGauge (aMetrics ag') = devicesGauge (SetInventory (deviceInfos devs) m) \<and>
          devicesVendorManaged (aMetrics ag') = devicesVendorManaged (SetInventory (deviceInfos devs) m)) \<and>
        hotplugListenerUp (aMetrics ag') = hotplugListenerUp (aMetrics ag))"
proof -
  let ?r = "refreshOpts cfg (obsSlices obs) ag"
  obtain probed ram sys ag1 where
    w: "Walk (runPlatform cfg) (obsTree obs) (runSysRoot cfg) (runProcRoot cfg) = Inr probed"
    and d: "desiredState cfg obs ?r = build_desired cfg probed ram (sys, ag1)"
    and k: "kept ?r ag1" "aOpts ag1 = aOpts ?r" "aInventory ag1 = inventory_set probed"
    using desiredState_ok [OF assms] by metis
  have k': "kept ag ag1" using kept_refresh k(1) by (rule kept_trans)
  show ?thesis
    using k' k(2,3)
    by (intro exI [of _ probed] exI [of _ ram] exI [of _ sys])
      (auto simp: cycle_step_def d build_desired_def Let_def publish_def kept_def w metric_simps
        intro: SetInventory_resets)
qed

section \<open>Invariants of the loop\<close>

text \<open>
  A property of the agent that start-up gives and that a completed cycle, a failed cycle and
  the end of the listener keep, holds after every run.
\<close>

lemma agent_run_induct:
  assumes start: "I ag"
    and cycle: "\<And>w obs a. (w, obs) \<in> set evs \<Longrightarrow> I a \<Longrightarrow> I (cycle_step cfg obs a)"
    and closed: "\<And>a. I a \<Longrightarrow>
      I (klog ListenerStopped (observe (HotplugListener False) (a\<lparr>aUevents := False\<rparr>)))"
    and stop: "\<And>a. I a \<Longrightarrow> I (klog ShuttingDown (a\<lparr>aRunning := False\<rparr>))"
    and event: "\<And>a. I a \<Longrightarrow> I (klog UeventReprobe (observe HotplugWakeup a))"
  shows "I (agent_run cfg evs ag)"
  unfolding agent_run_def
proof (rule fold_invariant_gen [where I = I, OF start])
  fix e a assume e: "e \<in> set evs" and a: "I a"
  obtain w obs where eq: "e = (w, obs)" by (cases e)
  show "I (wake cfg e a)"
    using a cycle [of w obs] e closed [OF a] stop [OF a] event [OF a]
    by (cases w) (simp_all add: wake_def loop_step_def eq)
qed

text \<open>What the publication and the gauges say, at every moment after start-up.\<close>

definition mirrored :: "run_config \<Rightarrow> agent \<Rightarrow> bool" where
  "mirrored cfg ag \<longleftrightarrow>
     (\<exists>probed ram sys opts.
        (let devs = BuildDevices (runPlatform cfg) probed (runIndex cfg) ram sys opts
         in aDesired ag = BuildResources (runNode cfg) devs \<and>
            (\<forall>m. devicesGauge (aMetrics ag) = devicesGauge (SetInventory (deviceInfos devs) m) \<and>
              devicesVendorManaged (aMetrics ag) =
                devicesVendorManaged (SetInventory (deviceInfos devs) m)))) \<and>
     hotplugListenerUp (aMetrics ag) = (if aUevents ag then 1 else 0)"

lemma mirrored_kept: "mirrored cfg ag \<Longrightarrow> kept ag ag' \<Longrightarrow> mirrored cfg ag'"
  by (simp add: mirrored_def kept_def Let_def)

lemma mirrored_cycle:
  assumes "mirrored cfg ag"
  shows "mirrored cfg (cycle_step cfg obs ag)"
proof (cases "cycle_fails cfg obs")
  case True
  show ?thesis by (rule mirrored_kept [OF assms]) (simp add: cycle_failed [OF True])
next
  case False
  with assms cycle_completed [OF False, of ag] show ?thesis
    by (auto simp: mirrored_def Let_def)
qed

lemma mirrored_events:
  "mirrored cfg a \<Longrightarrow>
     mirrored cfg (klog ListenerStopped (observe (HotplugListener False) (a\<lparr>aUevents := False\<rparr>)))"
  "mirrored cfg a \<Longrightarrow> mirrored cfg (klog ShuttingDown (a\<lparr>aRunning := False\<rparr>))"
  "mirrored cfg a \<Longrightarrow> mirrored cfg (klog UeventReprobe (observe HotplugWakeup a))"
  by (simp_all add: mirrored_def metric_simps Let_def)

lemma mirrored_run: "mirrored cfg ag \<Longrightarrow> mirrored cfg (agent_run cfg evs ag)"
  by (rule agent_run_induct [where I = "mirrored cfg"])
    (simp_all only: mirrored_cycle mirrored_events)

lemma run_start_facts:
  assumes "run_start fl up obs = Inr (cfg, ag)"
  shows "\<not> cycle_fails cfg obs" and "mirrored cfg ag" and "runNode cfg = flagNode fl"
    and "runVendors cfg = ParseVendorDrivers (flagVendors fl)"
    and "aHealth ag = \<lparr>lastBeat = upBeat up, ready = True, hMaxStale = wrap64 (3 * flagInterval fl)\<rparr>"
    and "aRunning ag" and "flagNode fl \<noteq> []" and "second \<le> flagInterval fl"
proof -
  obtain idx api exec det where
    f: "check_flags fl = None" and
    n: "NewDetector (flagURL fl) (flagBin fl) (600 * second) = Inr (api, exec, det)" and
    c: "cfg = first_config fl up idx api exec" and
    p: "first_probe fl up obs cfg (first_agent fl up det) = Inr ag"
    using assms
    by (auto simp: run_start_def Let_def map_sum_def split: option.splits sum.splits)
  let ?r = "refreshOpts cfg (obsSlices obs) (first_agent fl up det)"
  show ok: "\<not> cycle_fails cfg obs"
  proof
    assume "cycle_fails cfg obs"
    from desiredState_error [OF this, of ?r] p show False by (auto simp: first_probe_def)
  qed
  obtain probed ram sys ag1 where
    d: "desiredState cfg obs ?r = build_desired cfg probed ram (sys, ag1)" and k: "kept ?r ag1"
    using desiredState_ok [OF ok, of ?r] by metis
  have k': "kept (first_agent fl up det) ag1" using kept_refresh k by (rule kept_trans)
  define devs where "devs = BuildDevices (runPlatform cfg) probed (runIndex cfg) ram sys (aOpts ag1)"
  obtain a where a: "ag = mark_ready up devs a" and b:
      "aDesired a = BuildResources (runNode cfg) devs" "aHealth a = aHealth ag1" "aRunning a = aRunning ag1"
      "aMetrics a = SetInventory (deviceInfos devs) (aMetrics ag1)"
  proof
    let ?a = "(klog (InitialProbe (length devs) (flagNode fl))
        (observe (SetInventory (deviceInfos devs)) ag1))\<lparr>aDesired := BuildResources (runNode cfg) devs\<rparr>"
    let ?b = "if flagPlugin fl then klog PluginRegistered ?a else ?a"
    show "ag = mark_ready up devs ?b"
      using p by (auto simp: first_probe_def d build_desired_def Let_def start_services_def devs_def
          split: sum.splits if_splits)
  qed simp_all
  then show "mirrored cfg ag"
    unfolding mirrored_def a
    by (intro conjI exI [of _ probed] exI [of _ ram] exI [of _ sys] exI [of _ "aOpts ag1"])
      (auto simp: mark_ready_def Let_def devs_def metric_simps intro: SetInventory_resets)
  show "aRunning ag"
    "aHealth ag = \<lparr>lastBeat = upBeat up, ready = True, hMaxStale = wrap64 (3 * flagInterval fl)\<rparr>"
    using k' b by (auto simp: a mark_ready_def kept_def first_agent_def Beat_def Ready_def NewHealth_def)
  show "runNode cfg = flagNode fl" "runVendors cfg = ParseVendorDrivers (flagVendors fl)"
    by (simp_all add: c first_config_def)
  show "flagNode fl \<noteq> []" "second \<le> flagInterval fl"
    using f by (auto simp: check_flags_def split: if_splits)
qed

section \<open>What is published\<close>

lemma BuildDevices_entry:
  "d \<in> set (BuildDevices plat ds idx ram sys opts) \<Longrightarrow>
     \<exists>p \<in> set ds. d = device_entry plat ds idx ram sys opts p"
  using keep_first_names_facts [of "[]" ds] by (auto simp: BuildDevices_def)

lemma BuildDevices_distinct: "distinct (map devName (BuildDevices plat ds idx ram sys opts))"
proof -
  have "map devName (BuildDevices plat ds idx ram sys opts) = map Name (keep_first_names [] ds)"
    by (simp add: BuildDevices_def device_entry_def comp_def)
  then show ?thesis using keep_first_names_facts [of "[]" ds] by simp
qed

lemma published_resources: "aDesired ag = BuildResources node devs \<Longrightarrow> published ag = devs"
  by (simp add: published_def BuildResources_def)

lemma mirrored_published:
  "mirrored cfg ag \<Longrightarrow>
     \<exists>probed ram sys opts. published ag = BuildDevices (runPlatform cfg) probed (runIndex cfg) ram sys opts"
  unfolding mirrored_def Let_def using published_resources by blast

lemma entry_typed: "well_typed (device_entry plat ds idx ram sys opts p)"
  by (auto simp: well_typed_def device_entry_def str_of_def bool_of_def int_of_def entry_kind
      entry_healthy entry_vendorManaged entry_numbers)

lemma entry_driver:
  "dKind p = KindGPU \<Longrightarrow> dDriver p \<noteq> [] \<Longrightarrow>
     device_attrs plat ds idx sys opts p ''driver'' = Some (string_attr (dDriver p))"
  by (simp add: build_simps)

lemma kind_name_gpu: "kind_name k = ''gpu'' \<longleftrightarrow> k = KindGPU"
  by (cases k) simp_all

lemma class_expr_defined:
  assumes "well_typed d"
  shows "cel_eval DriverDomain d (class_expr cls) \<noteq> None"
  using assms
  by (auto simp: class_expr_def well_typed_def and3_defined cel_attr_def str_of_def bool_of_def
      split: option.splits)

text \<open>A device of kind GPU that one of the two classes that may select GPUs selects.\<close>

lemma selected_entry:
  assumes "selects DriverDomain (class_expr cls) (device_entry plat ds idx ram sys opts p)"
    and "cls \<in> {DriverDomain, gpuClass}"
    and "attrStr (device_entry plat ds idx ram sys opts p) ''kind'' = ''gpu''"
  shows "\<not> vendor_managed opts p \<and> dKind p = KindGPU \<and> fst (Healthy p)"
proof -
  have k: "dKind p = KindGPU"
    using assms(3) by (simp add: attrStr_def device_entry_def str_of_def entry_kind kind_name_gpu)
  show ?thesis
    using assms(1,2) k class_names_differ
    by (auto simp: class_expr_def cel_simps device_entry_def entry_vendorManaged entry_healthy
        bool_of_def split: if_splits)
qed

section \<open>Runs without a completed cycle or a clear answer\<close>

lemma failed_run:
  assumes "\<And>w obs. (w, obs) \<in> set evs \<Longrightarrow> cycle_fails cfg obs"
  shows "aDesired (agent_run cfg evs ag) = aDesired ag \<and> aHealth (agent_run cfg evs ag) = aHealth ag \<and>
    devicesGauge (aMetrics (agent_run cfg evs ag)) = devicesGauge (aMetrics ag)"
proof (rule agent_run_induct)
  fix w obs and a :: agent
  assume "(w, obs) \<in> set evs"
    and "aDesired a = aDesired ag \<and> aHealth a = aHealth ag \<and>
         devicesGauge (aMetrics a) = devicesGauge (aMetrics ag)"
  then show "aDesired (cycle_step cfg obs a) = aDesired ag \<and> aHealth (cycle_step cfg obs a) = aHealth ag \<and>
      devicesGauge (aMetrics (cycle_step cfg obs a)) = devicesGauge (aMetrics ag)"
    using cycle_failed [of cfg obs a] assms by (simp add: kept_def)
qed (simp_all add: metric_simps)

lemma health_constants:
  "hMaxStale (aHealth (agent_run cfg evs ag)) = hMaxStale (aHealth ag) \<and>
   ready (aHealth (agent_run cfg evs ag)) = ready (aHealth ag)"
proof (rule agent_run_induct)
  fix w obs and a :: agent
  assume a: "hMaxStale (aHealth a) = hMaxStale (aHealth ag) \<and> ready (aHealth a) = ready (aHealth ag)"
  then show "hMaxStale (aHealth (cycle_step cfg obs a)) = hMaxStale (aHealth ag) \<and>
      ready (aHealth (cycle_step cfg obs a)) = ready (aHealth ag)"
  proof (cases "cycle_fails cfg obs")
    case True
    with cycle_failed [of cfg obs a] a show ?thesis by (simp add: kept_def)
  next
    case False
    with cycle_completed [OF False, of a] a show ?thesis by (auto simp: Let_def Beat_def)
  qed
qed simp_all

definition clear_answer :: "run_config \<Rightarrow> observation \<Rightarrow> bool" where
  "clear_answer cfg obs \<longleftrightarrow>
     (case VendorGPUsPresent (runVendors cfg) (obsSlices obs) of Inl _ \<Rightarrow> False | Inr (vm, _) \<Rightarrow> \<not> vm)"

definition demoted :: "run_config \<Rightarrow> agent \<Rightarrow> bool" where
  "demoted cfg ag \<longleftrightarrow>
     VendorManagedGPUs (aOpts ag) \<and>
     (\<exists>probed ram sys opts. VendorManagedGPUs opts \<and>
        published ag = BuildDevices (runPlatform cfg) probed (runIndex cfg) ram sys opts)"

lemma refresh_demoted:
  "\<not> clear_answer cfg obs \<Longrightarrow> VendorManagedGPUs (aOpts ag) \<Longrightarrow>
     VendorManagedGPUs (aOpts (refreshOpts cfg (obsSlices obs) ag))"
  by (auto simp: refresh_opts clear_answer_def split: sum.splits)

lemma demoted_completed:
  assumes "\<not> cycle_fails cfg obs" and "VendorManagedGPUs (aOpts (refreshOpts cfg (obsSlices obs) ag))"
  shows "demoted cfg (cycle_step cfg obs ag)"
proof -
  obtain probed ram sys where
    "aDesired (cycle_step cfg obs ag) = BuildResources (runNode cfg)
       (BuildDevices (runPlatform cfg) probed (runIndex cfg) ram sys
         (aOpts (refreshOpts cfg (obsSlices obs) ag)))"
    "aOpts (cycle_step cfg obs ag) = aOpts (refreshOpts cfg (obsSlices obs) ag)"
    using cycle_completed [OF assms(1), of ag] by (auto simp: Let_def)
  then show ?thesis unfolding demoted_def using assms(2) published_resources by metis
qed

lemma demoted_cycle:
  assumes "demoted cfg ag" and "\<not> clear_answer cfg obs"
  shows "demoted cfg (cycle_step cfg obs ag)"
proof -
  have vm: "VendorManagedGPUs (aOpts (refreshOpts cfg (obsSlices obs) ag))"
    using assms by (intro refresh_demoted) (simp_all add: demoted_def)
  show ?thesis
  proof (cases "cycle_fails cfg obs")
    case True
    from cycle_failed [OF True, of ag] vm assms(1) show ?thesis
      by (simp add: demoted_def kept_def published_def)
  next
    case False
    from demoted_completed [OF False vm] show ?thesis .
  qed
qed

lemma demoted_run:
  assumes "\<And>w obs. (w, obs) \<in> set evs \<Longrightarrow> \<not> clear_answer cfg obs" and "demoted cfg ag"
  shows "demoted cfg (agent_run cfg evs ag)"
  using assms(2)
proof (rule agent_run_induct [where I = "demoted cfg"])
  fix w obs and a :: agent
  assume "(w, obs) \<in> set evs" "demoted cfg a"
  then show "demoted cfg (cycle_step cfg obs a)" using assms(1) by (blast intro: demoted_cycle)
qed (simp_all add: demoted_def published_def)

section \<open>A sample node\<close>

definition sample_flags :: flags where
  "sample_flags =
     \<lparr>flagNode = ''n1'', flagSysRoot = ''/sys'', flagProcRoot = ''/proc'', flagBin = [], flagURL = [],
      flagInterval = 60 * second, flagPlugin = True, flagTaints = False,
      flagVendors = DefaultVendorDrivers\<rparr>"

definition sample_startup :: startup where
  "sample_startup =
     \<lparr>upConfig = Inr (), upClient = Inr (), upIndex = Inr [], upPublisher = Inr (),
      upPlugin = Inr (), upListener = True, upStart = 0, upBeat = second,
      upPlatform = sample_platform,
      upDeepEqual = (\<lambda>xs ys. map devName xs = map devName ys)\<rparr>"

definition sample_obs :: observation where
  "sample_obs =
     \<lparr>obsSlices = Inr [], obsTree = sample_fs, obsRam = sample_fs, obsApi = Inl [], obsExec = Inl [],
      obsDetectAt = 0, obsElapsed = 1, obsBeatAt = 100 * second\<rparr>"

definition sample_no_ram :: observation where
  "sample_no_ram = sample_obs\<lparr>obsRam := sample_fs\<lparr>fsFile := (\<lambda>_. Inl ''gone'')\<rparr>\<rparr>"

definition sample_fresh_agent :: agent where
  "sample_fresh_agent = first_agent sample_flags sample_startup (new_detector (600 * second))"

definition sample_vendor_slice :: resource_slice where
  "sample_vendor_slice =
     \<lparr>Driver = ''gpu.amd.com'', PoolName = ''n1'', PoolGeneration = 1, NodeName = Some ''n1'', Devices = []\<rparr>"

definition started_devices :: "startup_error + (run_config \<times> agent) \<Rightarrow> (string \<times> bool) list option" where
  "started_devices r =
     (case r of Inl _ \<Rightarrow> None
      | Inr (cfg, ag) \<Rightarrow> Some (map (\<lambda>d. (devName d, selects DriverDomain (class_expr gpuClass) d)) (published ag)))"

lemma sample_started:
  "started_devices (run_start sample_flags sample_startup sample_obs) =
     Some [(''cpu0'', False), (''gpu-0000-c3-00-0'', True), (''nic-0000-03-00-0'', False)]"
  by code_simp

lemma sample_no_ram_fails: "cycle_fails cfg sample_no_ram"
  by (simp add: cycle_fails_def sample_no_ram_def MemTotalBytes_def memTotalBytes_def split: sum.split)

lemma sample_agent:
  obtains cfg ag d where "run_start sample_flags sample_startup sample_obs = Inr (cfg, ag)"
    and "length (published (agent_run cfg [(Tick, sample_no_ram)] ag)) = 3"
    and "d \<in> set (published (agent_run cfg [(Tick, sample_no_ram)] ag))"
    and "devName d = ''gpu-0000-c3-00-0''" and "selects DriverDomain (class_expr gpuClass) d"
proof -
  obtain cfg ag where s: "run_start sample_flags sample_startup sample_obs = Inr (cfg, ag)"
    "map (\<lambda>d. (devName d, selects DriverDomain (class_expr gpuClass) d)) (published ag) =
     [(''cpu0'', False), (''gpu-0000-c3-00-0'', True), (''nic-0000-03-00-0'', False)]"
    using sample_started by (auto simp: started_devices_def split: sum.splits)
  have p: "published (agent_run cfg [(Tick, sample_no_ram)] ag) = published ag"
    unfolding published_def
    using failed_run [of "[(Tick, sample_no_ram)]" cfg ag] sample_no_ram_fails by simp
  have "(''gpu-0000-c3-00-0'', True) \<in>
      set (map (\<lambda>d. (devName d, selects DriverDomain (class_expr gpuClass) d)) (published ag))"
    unfolding s(2) by simp
  then obtain d where d: "d \<in> set (published ag)" "devName d = ''gpu-0000-c3-00-0''"
    "selects DriverDomain (class_expr gpuClass) d"
    unfolding set_map by (elim imageE) simp
  have "length (published ag) = 3" using arg_cong [OF s(2), of length] by simp
  then show ?thesis using that [OF s(1), unfolded p] d by blast
qed

definition sample_config :: run_config where
  "sample_config = first_config sample_flags sample_startup [] None False"

lemma sample_walk_kinds:
  "map_sum id (map (\<lambda>d. (Name d, dKind d))) (Walk sample_platform sample_fs ''/sys'' ''/proc'') =
     Inr [(''cpu0'', KindCPU), (''gpu-0000-c3-00-0'', KindGPU), (''nic-0000-03-00-0'', KindNIC)]"
  by code_simp

lemma sample_cycle_completes:
  "obsTree obs = sample_fs \<Longrightarrow> obsRam obs = sample_fs \<Longrightarrow> \<not> cycle_fails sample_config obs"
proof -
  have "\<not> cycle_fails sample_config sample_obs" by code_simp
  then show "obsTree obs = sample_fs \<Longrightarrow> obsRam obs = sample_fs \<Longrightarrow> \<not> cycle_fails sample_config obs"
    by (simp add: cycle_fails_def sample_obs_def split: sum.splits)
qed

lemma sample_gpu_published:
  assumes "obsTree obs = sample_fs" and "obsRam obs = sample_fs"
  shows "\<exists>d \<in> set (published (cycle_step sample_config obs ag)).
    devName d = ''gpu-0000-c3-00-0'' \<and> attrStr d ''kind'' = ''gpu''"
proof -
  have roots: "runPlatform sample_config = sample_platform" "runSysRoot sample_config = ''/sys''"
    "runProcRoot sample_config = ''/proc''"
    by (simp_all add: sample_config_def first_config_def sample_flags_def sample_startup_def NewProber_def)
  obtain probed ram sys opts where
    w: "Walk sample_platform sample_fs ''/sys'' ''/proc'' = Inr probed" and
    d: "aDesired (cycle_step sample_config obs ag) = BuildResources (runNode sample_config)
          (BuildDevices sample_platform probed (runIndex sample_config) ram sys opts)"
    using cycle_completed [OF sample_cycle_completes [OF assms], of ag]
    by (auto simp: Let_def assms roots)
  have "map (\<lambda>d. (Name d, dKind d)) probed =
      [(''cpu0'', KindCPU), (''gpu-0000-c3-00-0'', KindGPU), (''nic-0000-03-00-0'', KindNIC)]"
    using sample_walk_kinds by (simp add: w)
  then obtain c g n where probed: "probed = [c, g, n]" "Name c = ''cpu0''"
      "Name g = ''gpu-0000-c3-00-0''" "dKind g = KindGPU"
    by (auto simp: map_eq_Cons_conv)
  let ?e = "device_entry sample_platform probed (runIndex sample_config) ram sys opts g"
  have "?e \<in> set (published (cycle_step sample_config obs ag))"
    by (simp add: published_resources [OF d] BuildDevices_def) (simp add: probed)
  moreover have "devName ?e = ''gpu-0000-c3-00-0''" "attrStr ?e ''kind'' = ''gpu''"
    by (simp_all add: probed attrStr_def device_entry_def str_of_def entry_kind)
  ultimately show ?thesis by blast
qed

section \<open>Properties\<close>

text \<open>
  C14: from start-up on, whatever the sequence of events, ticks, failures and vendor drivers, the
  publisher holds one pool, named after the node, whose device names are distinct; the device
  gauges count exactly the published devices of every label combination and the demotion gauge
  exactly the demoted ones; and the listener gauge says whether the event channel is open.
\<close>

theorem metrics_mirror_publication:
  assumes start: "run_start fl up obs = Inr (cfg, ag)" and run: "ag' = agent_run cfg evs ag"
  shows "aDesired ag' = [(flagNode fl, [published ag'])] \<and> distinct (map devName (published ag')) \<and>
    devicesGauge (aMetrics ag') (k, v, drv, FormatBool h) =
      occurrences (k, v, drv, h) (map info_key (deviceInfos (published ag'))) \<and>
    devicesVendorManaged (aMetrics ag') (k, drv) =
      occurrences (k, drv)
        (map (\<lambda>i. (iKind i, iDriver i)) (filter iVendorManaged (deviceInfos (published ag')))) \<and>
    hotplugListenerUp (aMetrics ag') = (if aUevents ag' then 1 else 0)"
proof -
  have "mirrored cfg ag'" using run_start_facts(2) [OF start] by (simp add: run mirrored_run)
  then obtain probed ram sys opts where
    d: "aDesired ag' = BuildResources (runNode cfg)
          (BuildDevices (runPlatform cfg) probed (runIndex cfg) ram sys opts)" and
    g: "devicesGauge (aMetrics ag') = devicesGauge (SetInventory (deviceInfos
          (BuildDevices (runPlatform cfg) probed (runIndex cfg) ram sys opts)) fresh_metrics)"
       "devicesVendorManaged (aMetrics ag') = devicesVendorManaged (SetInventory (deviceInfos
          (BuildDevices (runPlatform cfg) probed (runIndex cfg) ram sys opts)) fresh_metrics)" and
    l: "hotplugListenerUp (aMetrics ag') = (if aUevents ag' then 1 else 0)"
    unfolding mirrored_def Let_def by blast
  show ?thesis
    using run_start_facts(3) [OF start] d
    by (simp add: published_resources [OF d] g SetInventory_gauges l BuildDevices_distinct)
      (simp add: BuildResources_def)
qed

theorem metrics_mirror_publication_witness:
  "\<exists>cfg ag. run_start sample_flags sample_startup sample_obs = Inr (cfg, ag) \<and>
     distinct (map devName (published (agent_run cfg [(Tick, sample_no_ram)] ag))) \<and>
     length (published (agent_run cfg [(Tick, sample_no_ram)] ag)) = 3"
proof -
  obtain cfg ag d where s: "run_start sample_flags sample_startup sample_obs = Inr (cfg, ag)"
    and len: "length (published (agent_run cfg [(Tick, sample_no_ram)] ag)) = 3"
    and d: "d \<in> set (published (agent_run cfg [(Tick, sample_no_ram)] ag))"
    and gpu: "devName d = ''gpu-0000-c3-00-0''" "selects DriverDomain (class_expr gpuClass) d"
    by (rule sample_agent)
  show ?thesis using s len metrics_mirror_publication [OF s refl, of "[(Tick, sample_no_ram)]"] by blast
qed

text \<open>
  C22: every device the agent publishes, at any time, has the attribute types the selectors read:
  neither the selector of a class nor a generated fit expression ever evaluates to an error
  on it, so one odd card cannot break the scheduling of a claim.
\<close>

theorem published_selectors_defined:
  assumes "run_start fl up obs = Inr (cfg, ag)" and "d \<in> set (published (agent_run cfg evs ag))"
  shows "cel_eval DriverDomain d (class_expr cls) \<noteq> None \<and>
    cel_eval DriverDomain d (fit_expr b cls m) \<noteq> None"
proof -
  have "mirrored cfg (agent_run cfg evs ag)"
    using run_start_facts(2) [OF assms(1)] by (rule mirrored_run)
  then obtain probed ram sys opts where
    "d \<in> set (BuildDevices (runPlatform cfg) probed (runIndex cfg) ram sys opts)"
    using assms(2) mirrored_published by metis
  then have "well_typed d" using BuildDevices_entry entry_typed by metis
  then show ?thesis using class_expr_defined fit_expr_defined by blast
qed

theorem published_selectors_defined_witness:
  "\<exists>cfg ag d. run_start sample_flags sample_startup sample_obs = Inr (cfg, ag) \<and>
     d \<in> set (published (agent_run cfg [(Tick, sample_no_ram)] ag)) \<and> devName d = ''gpu-0000-c3-00-0'' \<and>
     cel_eval DriverDomain d (fit_expr sample_bounds gpuClass 10) \<noteq> None"
proof -
  obtain cfg ag d where s: "run_start sample_flags sample_startup sample_obs = Inr (cfg, ag)"
    and len: "length (published (agent_run cfg [(Tick, sample_no_ram)] ag)) = 3"
    and d: "d \<in> set (published (agent_run cfg [(Tick, sample_no_ram)] ag))"
    and gpu: "devName d = ''gpu-0000-c3-00-0''" "selects DriverDomain (class_expr gpuClass) d"
    by (rule sample_agent)
  show ?thesis using s d gpu published_selectors_defined [OF s d] by blast
qed

text \<open>
  C21: a GPU that the base class or the GPU class selects is healthy and bound to a kernel driver
  whose device nodes the kubelet plugin can hand out; a card of any other driver is published
  for information only.
\<close>

theorem selected_gpu_preparable:
  assumes "run_start fl up obs = Inr (cfg, ag)" and "d \<in> set (published (agent_run cfg evs ag))"
    and "selects DriverDomain (class_expr cls) d" and "cls \<in> {DriverDomain, gpuClass}"
    and "attrStr d ''kind'' = ''gpu''"
  shows "attrStr d ''driver'' \<in> set preparableGPUDrivers \<and> attrBool d ''healthy'' \<and>
    \<not> attrBool d ''vendorManaged''"
proof -
  have "mirrored cfg (agent_run cfg evs ag)"
    using run_start_facts(2) [OF assms(1)] by (rule mirrored_run)
  then obtain probed ram sys opts where
    "d \<in> set (BuildDevices (runPlatform cfg) probed (runIndex cfg) ram sys opts)"
    using assms(2) mirrored_published by metis
  then obtain p where p: "d = device_entry (runPlatform cfg) probed (runIndex cfg) ram sys opts p"
    using BuildDevices_entry by blast
  have "\<not> vendor_managed opts p" "dKind p = KindGPU" "fst (Healthy p)"
    using selected_entry assms(3-5) p by blast+
  then show ?thesis
    by (auto simp: p attrStr_def attrBool_def device_entry_def str_of_def bool_of_def
        entry_driver entry_healthy entry_vendorManaged vendor_managed_def preparableGPUDrivers_def)
qed

theorem selected_gpu_preparable_witness:
  "\<exists>cfg ag d. run_start sample_flags sample_startup sample_obs = Inr (cfg, ag) \<and>
     d \<in> set (published (agent_run cfg [(Tick, sample_no_ram)] ag)) \<and>
     attrStr d ''driver'' \<in> set preparableGPUDrivers"
proof -
  obtain cfg ag d where s: "run_start sample_flags sample_startup sample_obs = Inr (cfg, ag)"
    and len: "length (published (agent_run cfg [(Tick, sample_no_ram)] ag)) = 3"
    and d: "d \<in> set (published (agent_run cfg [(Tick, sample_no_ram)] ag))"
    and gpu: "devName d = ''gpu-0000-c3-00-0''" "selects DriverDomain (class_expr gpuClass) d"
    by (rule sample_agent)
  have "attrStr d ''kind'' = ''gpu''"
    using gpu(2) by (auto simp: class_expr_def cel_simps attrStr_def split: if_splits)
  then have "attrStr d ''driver'' \<in> set preparableGPUDrivers"
    using selected_gpu_preparable [OF s d gpu(2)] by blast
  then show ?thesis using s d by blast
qed

text \<open>
  C3: no double booking beside a vendor driver.  Once a completed cycle has seen a slice of a
  vendor driver on the node, no published GPU is selected by the base or the GPU class, and this
  stays so through any number of cycles, completed or failed, until a coexistence check is
  answered and finds no vendor slice: a failing check keeps the demotion.
\<close>

theorem demoted_until_clear_answer:
  assumes "\<not> cycle_fails cfg obs" and "obsSlices obs = Inr slices"
    and "s \<in> set slices" and "Driver s \<in> runVendors cfg"
    and later: "\<forall>(w, o') \<in> set evs. \<not> clear_answer cfg o'"
    and d: "d \<in> set (published (agent_run cfg evs (cycle_step cfg obs ag)))"
    and gpu: "attrStr d ''kind'' = ''gpu''" and cls: "cls \<in> {DriverDomain, gpuClass}"
  shows "\<not> selects DriverDomain (class_expr cls) d"
proof
  assume sel: "selects DriverDomain (class_expr cls) d"
  have "VendorManagedGPUs (aOpts (refreshOpts cfg (obsSlices obs) ag))"
    using assms(2-4) by (auto simp: refresh_opts VendorGPUsPresent_def)
  with assms(1) have "demoted cfg (cycle_step cfg obs ag)" by (rule demoted_completed)
  then have "demoted cfg (agent_run cfg evs (cycle_step cfg obs ag))"
    using later by (intro demoted_run) auto
  then obtain probed ram sys opts where vm: "VendorManagedGPUs opts" and
    "d \<in> set (BuildDevices (runPlatform cfg) probed (runIndex cfg) ram sys opts)"
    using d by (auto simp: demoted_def)
  then obtain p where "d = device_entry (runPlatform cfg) probed (runIndex cfg) ram sys opts p"
    using BuildDevices_entry by blast
  then have "\<not> vendor_managed opts p \<and> dKind p = KindGPU" using selected_entry sel cls gpu by blast
  then show False using vm by (simp add: vendor_managed_def)
qed

definition sample_vendor_obs :: observation where
  "sample_vendor_obs = sample_obs\<lparr>obsSlices := Inr [sample_vendor_slice]\<rparr>"

definition sample_timeout_obs :: observation where
  "sample_timeout_obs = sample_obs\<lparr>obsSlices := Inl ''timeout''\<rparr>"

lemma sample_vendors: "''gpu.amd.com'' \<in> runVendors sample_config"
  by (simp only: sample_config_def) code_simp

lemma sample_timeout_unclear: "runVendors cfg \<noteq> {} \<Longrightarrow> \<not> clear_answer cfg sample_timeout_obs"
  by (simp add: clear_answer_def VendorGPUsPresent_def sample_timeout_obs_def)

theorem demoted_until_clear_answer_witness:
  "\<exists>d \<in> set (published (agent_run sample_config [(Tick, sample_timeout_obs)]
      (cycle_step sample_config sample_vendor_obs sample_fresh_agent))).
     devName d = ''gpu-0000-c3-00-0'' \<and> \<not> selects DriverDomain (class_expr gpuClass) d"
proof -
  let ?a = "cycle_step sample_config sample_vendor_obs sample_fresh_agent"
  have ok: "\<not> cycle_fails sample_config sample_vendor_obs"
    by (rule sample_cycle_completes) (simp_all add: sample_vendor_obs_def sample_obs_def)
  have "\<exists>d \<in> set (published (agent_run sample_config [(Tick, sample_timeout_obs)] ?a)).
      devName d = ''gpu-0000-c3-00-0'' \<and> attrStr d ''kind'' = ''gpu''"
  proof (cases "aRunning ?a")
    case True
    have "\<exists>d \<in> set (published (cycle_step sample_config sample_timeout_obs ?a)).
        devName d = ''gpu-0000-c3-00-0'' \<and> attrStr d ''kind'' = ''gpu''"
      by (rule sample_gpu_published) (simp_all add: sample_timeout_obs_def sample_obs_def)
    with True show ?thesis by (simp add: agent_run_def wake_def arm_ready_def loop_step_def)
  next
    case False
    have "\<exists>d \<in> set (published ?a). devName d = ''gpu-0000-c3-00-0'' \<and> attrStr d ''kind'' = ''gpu''"
      by (rule sample_gpu_published) (simp_all add: sample_vendor_obs_def sample_obs_def)
    with False show ?thesis by (simp add: agent_run_def wake_def)
  qed
  moreover have "\<not> selects DriverDomain (class_expr gpuClass) d"
    if "d \<in> set (published (agent_run sample_config [(Tick, sample_timeout_obs)] ?a))"
      "attrStr d ''kind'' = ''gpu''" for d
    by (rule demoted_until_clear_answer [OF ok _ _ _ _ that])
      (use sample_vendors sample_timeout_unclear [of sample_config] in
        \<open>auto simp: sample_vendor_obs_def sample_vendor_slice_def\<close>)
  ultimately show ?thesis by blast
qed

text \<open>
  C37: liveness follows real progress.  After a completed cycle, cycles that fail in the walk or in
  the RAM reading leave the publication and its gauges as they are and do not beat: \<open>/healthz\<close>
  answers 200 exactly until three probe intervals (computed at 64 bits) after the completed
  cycle's beat, then 503, and readiness, once given, stays.
\<close>

theorem last_progress_decides_health:
  assumes start: "run_start fl up obs0 = Inr (cfg, ag)" and before: "ag1 = agent_run cfg before ag"
    and ok: "\<not> cycle_fails cfg obs" and ag2: "ag2 = cycle_step cfg obs ag1"
    and failed: "\<forall>(w, o') \<in> set after. cycle_fails cfg o'" and ag3: "ag3 = agent_run cfg after ag2"
  shows "published ag3 = published ag2 \<and>
    devicesGauge (aMetrics ag3) = devicesGauge (aMetrics ag2) \<and>
    healthz now (aHealth ag3) =
      (if now \<le> obsBeatAt obs + wrap64 (3 * flagInterval fl) then (200, []) else (503, ''reconcile loop stalled'')) \<and>
    readyz (aHealth ag3) = (200, [])"
proof -
  have f: "aDesired ag3 = aDesired ag2 \<and> aHealth ag3 = aHealth ag2 \<and>
      devicesGauge (aMetrics ag3) = devicesGauge (aMetrics ag2)"
    unfolding ag3 using failed by (intro failed_run) auto
  have "aHealth ag2 = Beat (obsBeatAt obs) (aHealth ag1)"
    using cycle_completed [OF ok, of ag1] by (auto simp: ag2 Let_def)
  moreover have "hMaxStale (aHealth ag1) = wrap64 (3 * flagInterval fl)" "ready (aHealth ag1)"
    using health_constants [of cfg "before" ag] run_start_facts(5) [OF start] by (simp_all add: before)
  ultimately show ?thesis
    using f by (auto simp: published_def healthz_def live_def readyz_def Beat_def)
qed

theorem last_progress_decides_health_witness:
  "\<exists>cfg ag. run_start sample_flags sample_startup sample_obs = Inr (cfg, ag) \<and>
     fst (healthz (280 * second)
       (aHealth (agent_run cfg [(Tick, sample_no_ram)] (cycle_step cfg sample_obs (agent_run cfg [] ag))))) = 200 \<and>
     fst (healthz (281 * second)
       (aHealth (agent_run cfg [(Tick, sample_no_ram)] (cycle_step cfg sample_obs (agent_run cfg [] ag))))) = 503"
proof -
  obtain cfg ag where s: "run_start sample_flags sample_startup sample_obs = Inr (cfg, ag)"
    by (rule sample_agent)
  have "healthz now (aHealth (agent_run cfg [(Tick, sample_no_ram)]
        (cycle_step cfg sample_obs (agent_run cfg [] ag)))) =
      (if now \<le> obsBeatAt sample_obs + wrap64 (3 * flagInterval sample_flags) then (200, [])
       else (503, ''reconcile loop stalled''))" for now
    using last_progress_decides_health [OF s refl run_start_facts(1) [OF s] refl _ refl,
        of "[(Tick, sample_no_ram)]" "[]" now] sample_no_ram_fails by simp
  then show ?thesis using s by (auto simp: sample_obs_def sample_flags_def second_def wrap64_def)
qed

section \<open>Publication and preparation\<close>

lemma published_in_inventory:
  assumes "\<not> cycle_fails cfg obs"
  shows "\<exists>probed. Walk (runPlatform cfg) (obsTree obs) (runSysRoot cfg) (runProcRoot cfg) = Inr probed \<and>
    aInventory (cycle_step cfg obs ag) = inventory_set probed \<and>
    devName ` set (published (cycle_step cfg obs ag)) \<subseteq> Name ` set probed"
proof -
  obtain probed ram sys opts where
    w: "Walk (runPlatform cfg) (obsTree obs) (runSysRoot cfg) (runProcRoot cfg) = Inr probed" and
    i: "aInventory (cycle_step cfg obs ag) = inventory_set probed" and
    d: "aDesired (cycle_step cfg obs ag) = BuildResources (runNode cfg)
          (BuildDevices (runPlatform cfg) probed (runIndex cfg) ram sys opts)"
    using cycle_completed [OF assms, of ag] by (auto simp: Let_def)
  have "devName ` set (published (cycle_step cfg obs ag)) \<subseteq> Name ` set probed"
    unfolding published_resources [OF d]
    by (auto simp: device_entry_def dest!: BuildDevices_entry)
  with w i show ?thesis by blast
qed

lemma inventory_has: "n \<in> Name ` set ds \<Longrightarrow> inventory_lookup (inventory_set ds) n \<noteq> None"
  by (auto simp: inventory_set_lookup find_None_iff)

text \<open>
  What the scheduler may allocate, the kubelet plugin can prepare.  Right after a completed
  cycle, a claim whose results of this driver all name published devices is never refused for a
  missing device: it is prepared, unless its CDI spec cannot be written.
\<close>

theorem published_claim_prepared:
  assumes ok: "\<not> cycle_fails cfg obs" and alloc: "Allocation claim = Some rs"
    and own: "own_results rs \<noteq> []"
    and names: "\<forall>a \<in> set (own_results rs). resDevice a \<in> devName ` set (published (cycle_step cfg obs ag))"
  shows "fst (prepareClaim (aInventory (cycle_step cfg obs ag)) io claim dir) =
    (case wFault io of
       None \<Rightarrow> Inr (map (handed_out (claimUID claim)) (own_results rs))
     | Some (stage, e) \<Rightarrow> Inl (CdiWrite (if stage = AtMkdir then ''creating CDI dir: '' @ e else e)))"
proof -
  obtain probed where i: "aInventory (cycle_step cfg obs ag) = inventory_set probed"
    and sub: "devName ` set (published (cycle_step cfg obs ag)) \<subseteq> Name ` set probed"
    using published_in_inventory [OF ok, of ag] by blast
  have "inventory_lookup (aInventory (cycle_step cfg obs ag)) (resDevice a) \<noteq> None"
    if a: "a \<in> set (own_results rs)" for a
    unfolding i by (rule inventory_has, rule subsetD [OF sub], rule bspec [OF names a])
  then have "missing_device (aInventory (cycle_step cfg obs ag)) rs = None"
    by (auto simp: missing_device_def find_None_iff)
  then show ?thesis using alloc own by (simp add: prepareClaim_eq writeSpec_error split: option.split)
qed

definition sample_published_claim :: resource_claim where
  "sample_published_claim =
     \<lparr>claimNamespace = ''ml'', claimName = ''c1'', claimUID = ''u1'',
      Allocation = Some [\<lparr>resRequest = ''gpu'', resDriver = DriverName, resPool = ''n1'',
        resDevice = ''gpu-0000-c3-00-0''\<rparr>]\<rparr>"

theorem published_claim_prepared_witness:
  "\<exists>devs. fst (prepareClaim (aInventory (cycle_step sample_config sample_obs sample_fresh_agent)) sample_io
     sample_published_claim []) = Inr devs \<and> length devs = 1"
proof -
  let ?rs = "the (Allocation sample_published_claim)"
  have alloc: "Allocation sample_published_claim = Some ?rs" by (simp add: sample_published_claim_def)
  have own: "own_results ?rs = ?rs" "?rs \<noteq> []" "length ?rs = 1"
    by (simp_all add: own_results_def sample_published_claim_def)
  have "\<exists>d \<in> set (published (cycle_step sample_config sample_obs sample_fresh_agent)). devName d = ''gpu-0000-c3-00-0''"
    using sample_gpu_published [of sample_obs sample_fresh_agent] by (auto simp: sample_obs_def)
  then have "\<forall>a \<in> set (own_results ?rs).
      resDevice a \<in> devName ` set (published (cycle_step sample_config sample_obs sample_fresh_agent))"
    unfolding own by (auto simp: sample_published_claim_def image_iff eq_commute)
  from published_claim_prepared [OF sample_cycle_completes alloc _ this, of sample_io "[]"] show ?thesis
    using own by (simp add: sample_obs_def sample_io_def)
qed

text \<open>
  The inventory runs ahead of the publication when the RAM reading fails after the walk: the
  publication stays, the inventory is already the new walk's, and a claim for a published device
  that this walk no longer saw is refused.
\<close>

theorem inventory_runs_ahead:
  assumes walk: "Walk (runPlatform cfg) (obsTree obs) (runSysRoot cfg) (runProcRoot cfg) = Inr probed"
    and ram: "MemTotalBytes (obsRam obs) (runProcRoot cfg) = Inl err"
    and gone: "resDevice a \<notin> Name ` set probed" "resDriver a = DriverName"
    and alloc: "Allocation claim = Some [a]"
  shows "published (cycle_step cfg obs ag) = published ag \<and>
    aInventory (cycle_step cfg obs ag) = inventory_set probed \<and>
    fst (prepareClaim (aInventory (cycle_step cfg obs ag)) io claim dir) = Inl (DeviceMissing (resDevice a))"
proof -
  have "cycle_fails cfg obs" by (simp add: cycle_fails_def walk ram)
  then have p: "published (cycle_step cfg obs ag) = published ag"
    using cycle_failed [of cfg obs ag] by (simp add: published_def kept_def)
  have i: "aInventory (cycle_step cfg obs ag) = inventory_set probed"
    by (simp add: cycle_step_def desiredState_def walk ram)
  have "inventory_lookup (inventory_set probed) (resDevice a) = None"
    using gone(1) by (force simp: inventory_set_lookup find_None_iff)
  then show ?thesis
    using gone(2) by (simp add: p i prepareClaim_eq alloc missing_device_def own_results_def)
qed

theorem inventory_runs_ahead_witness:
  "\<exists>a claim. Allocation claim = Some [a] \<and>
     published (cycle_step sample_config sample_no_ram sample_fresh_agent) = published sample_fresh_agent \<and>
     fst (prepareClaim (aInventory (cycle_step sample_config sample_no_ram sample_fresh_agent)) sample_io claim []) =
       Inl (DeviceMissing (resDevice a))"
proof -
  have roots: "runPlatform sample_config = sample_platform" "runSysRoot sample_config = ''/sys''"
    "runProcRoot sample_config = ''/proc''"
    by (simp_all add: sample_config_def first_config_def sample_flags_def sample_startup_def NewProber_def)
  obtain probed where w: "Walk sample_platform sample_fs ''/sys'' ''/proc'' = Inr probed"
    and n: "map Name probed = [''cpu0'', ''gpu-0000-c3-00-0'', ''nic-0000-03-00-0'']"
    using sample_walk by (cases "Walk sample_platform sample_fs ''/sys'' ''/proc''") auto
  let ?a = "\<lparr>resRequest = ''gpu'', resDriver = DriverName, resPool = ''n1'', resDevice = ''gpu-0000-01-00-0''\<rparr>"
  let ?c = "sample_published_claim\<lparr>Allocation := Some [?a]\<rparr>"
  have names: "Name ` set probed = set [''cpu0'', ''gpu-0000-c3-00-0'', ''nic-0000-03-00-0'']"
    by (metis n set_map)
  have "published (cycle_step sample_config sample_no_ram sample_fresh_agent) = published sample_fresh_agent \<and>
      aInventory (cycle_step sample_config sample_no_ram sample_fresh_agent) = inventory_set probed \<and>
      fst (prepareClaim (aInventory (cycle_step sample_config sample_no_ram sample_fresh_agent)) sample_io ?c []) =
        Inl (DeviceMissing (resDevice ?a))"
  proof (rule inventory_runs_ahead)
    show "Walk (runPlatform sample_config) (obsTree sample_no_ram) (runSysRoot sample_config)
        (runProcRoot sample_config) = Inr probed"
      using w by (simp add: roots sample_no_ram_def sample_obs_def)
    show "MemTotalBytes (obsRam sample_no_ram) (runProcRoot sample_config) = Inl ''gone''"
      by (simp add: MemTotalBytes_def memTotalBytes_def sample_no_ram_def)
  qed (simp_all add: names)
  moreover have "Allocation ?c = Some [?a]" by simp
  ultimately show ?thesis by blast
qed

end
