(* ===== verification/Tables.thy ===== *)
theory Tables
  imports Boards JsonDecode JsonRoundtrip
begin

text \<open>
  The embedded JSON tables of \<open>internal/index\<close> as the agent and the controller load them: the
  decoding of the two files, the files' text, and the tables they decode to.
\<close>

section \<open>Decoding the tables\<close>

definition zero_entry :: entry where
  "zero_entry = \<lparr>eModel = [], eMemoryBandwidthGBs = 0, eComputeTFLOPS = 0, eUnifiedMemory = False\<rparr>"

definition entry_fields :: "entry fields" where
  "entry_fields =
     [field ''model'' eModel eModel_update decode_string,
      field ''memoryBandwidthGBs'' eMemoryBandwidthGBs eMemoryBandwidthGBs_update decode_int64,
      field ''computeTFLOPS'' eComputeTFLOPS eComputeTFLOPS_update decode_int64,
      field ''unifiedMemory'' eUnifiedMemory eUnifiedMemory_update decode_bool]"

definition decode_index :: "(string \<Rightarrow> string) \<Rightarrow> string \<Rightarrow> index result" where
  "decode_index err = unmarshal (decode_map (decode_struct entry_fields) zero_entry) [] err"

text \<open>The product name has no JSON name: it is set from the key afterwards.\<close>

definition zero_board :: nvidia_board where
  "zero_board = \<lparr>ProductName = [], MemoryMiB = 0, MemoryBandwidthGBs = 0, ComputeTFLOPS = 0,
     SMCount = 0, MemorySlices = 0\<rparr>"

definition board_fields :: "nvidia_board fields" where
  "board_fields =
     [field ''memoryMiB'' MemoryMiB MemoryMiB_update decode_int64,
      field ''memoryBandwidthGBs'' MemoryBandwidthGBs MemoryBandwidthGBs_update decode_int64,
      field ''computeTFLOPS'' ComputeTFLOPS ComputeTFLOPS_update decode_int64,
      field ''smCount'' SMCount SMCount_update decode_int64,
      field ''memorySlices'' MemorySlices MemorySlices_update decode_int64]"

definition decode_boards :: "(string \<Rightarrow> string) \<Rightarrow> string \<Rightarrow> (string \<times> nvidia_board) list result" where
  "decode_boards err = unmarshal (decode_map (decode_struct board_fields) zero_board) [] err"

section \<open>What any table decodes to\<close>

definition entry_in_range :: "entry \<Rightarrow> bool" where
  "entry_in_range e \<longleftrightarrow> in_i64 (eMemoryBandwidthGBs e) \<and> in_i64 (eComputeTFLOPS e)"

definition board_in_range :: "nvidia_board \<Rightarrow> bool" where
  "board_in_range b \<longleftrightarrow> in_i64 (MemoryMiB b) \<and> in_i64 (MemoryBandwidthGBs b) \<and>
     in_i64 (ComputeTFLOPS b) \<and> in_i64 (SMCount b) \<and> in_i64 (MemorySlices b)"

lemma entry_fields_in_range: "list_all (keeps entry_in_range) entry_fields"
  unfolding entry_fields_def list.pred_inject entry_in_range_def
  by (intro conjI TrueI keeps_int64 keeps_any) simp_all

lemma board_fields_in_range: "list_all (keeps board_in_range) board_fields"
  unfolding board_fields_def list.pred_inject board_in_range_def
  by (intro conjI TrueI keeps_int64 keeps_any) simp_all

lemma decode_table:
  assumes "unmarshal (decode_map (decode_struct fs) zero) [] err raw = Inr m"
    and "list_all (keeps I) fs" "I zero"
  shows "distinct (map fst m)" "(k, x) \<in> set m \<Longrightarrow> I x"
proof -
  obtain v where v: "decode_map (decode_struct fs) zero v [] = Some m"
    using assms(1) by (auto simp: unmarshal_Inr)
  then show "distinct (map fst m)" using decode_map_distinct [OF _ v] by simp
  assume "(k, x) \<in> set m"
  with v obtain w where "decode_struct fs w zero = Some x"
    by (auto simp: decode_map_def split: json.splits dest!: decode_entries_values)
  then show "I x" by (rule decode_struct_invariant [OF assms(2,3)])
qed

text \<open>
  Whatever the embedded board table says, a table that loads has distinct product names, each
  board carries its own, and its numbers are int64 values.
\<close>

lemma loaded_boards_ok:
  assumes "LoadNvidiaBoards (decode_boards err) hash raw = Inr n"
  shows "boards_ok n" "b \<in> set (All_boards n) \<Longrightarrow> board_in_range b"
proof -
  obtain bs where bs: "decode_boards err raw = Inr bs"
    using assms by (auto simp: LoadNvidiaBoards_def split: sum.splits)
  have zero: "board_in_range zero_board" by (simp add: board_in_range_def zero_board_def)
  note table = decode_table [OF bs [unfolded decode_boards_def] board_fields_in_range zero]
  show "boards_ok n" by (rule LoadNvidiaBoards_ok [OF assms bs table(1)])
  assume "b \<in> set (All_boards n)"
  then obtain k c where c: "(k, c) \<in> set bs" "b = c\<lparr>ProductName := k\<rparr>"
    using assms bs by (auto simp: LoadNvidiaBoards_def set_All_boards)
  from table(2) [OF c(1)] show "board_in_range b" by (simp add: board_in_range_def c(2))
qed

section \<open>The embedded files\<close>

definition rawData :: string where
  "rawData = ''{
  \"8086:64a0\": {
    \"model\": \"Intel Arc Graphics 140V\",
    \"memoryBandwidthGBs\": 136,
    \"unifiedMemory\": true
  },
  \"8086:643e\": {
    \"model\": \"Intel AI Boost NPU 4\",
    \"memoryBandwidthGBs\": 136,
    \"unifiedMemory\": true
  },
  \"1002:1586\": {
    \"model\": \"AMD Radeon 8060S (Strix Halo)\",
    \"memoryBandwidthGBs\": 256,
    \"computeTFLOPS\": 59,
    \"unifiedMemory\": true
  },
  \"1022:17f0\": {
    \"model\": \"AMD XDNA 2 NPU (Strix Halo)\",
    \"memoryBandwidthGBs\": 256,
    \"unifiedMemory\": true
  },
  \"8086:7d55\": {
    \"model\": \"Intel Arc Graphics (Meteor Lake)\",
    \"memoryBandwidthGBs\": 120,
    \"unifiedMemory\": true
  },
  \"10de:2684\": {
    \"model\": \"NVIDIA GeForce RTX 4090\",
    \"memoryBandwidthGBs\": 1008,
    \"computeTFLOPS\": 165
  },
  \"10de:2b85\": {
    \"model\": \"NVIDIA GeForce RTX 5090\",
    \"memoryBandwidthGBs\": 1792,
    \"computeTFLOPS\": 209
  },
  \"10de:26b9\": {
    \"model\": \"NVIDIA L40S\",
    \"memoryBandwidthGBs\": 864,
    \"computeTFLOPS\": 181
  },
  \"10de:2330\": {
    \"model\": \"NVIDIA H100 SXM5 80GB\",
    \"memoryBandwidthGBs\": 3350,
    \"computeTFLOPS\": 989
  },
  \"10de:2331\": {
    \"model\": \"NVIDIA H100 PCIe 80GB\",
    \"memoryBandwidthGBs\": 2000,
    \"computeTFLOPS\": 756
  },
  \"10de:20b0\": {
    \"model\": \"NVIDIA A100-SXM4-40GB\",
    \"memoryBandwidthGBs\": 1555,
    \"computeTFLOPS\": 312
  },
  \"10de:20b2\": {
    \"model\": \"NVIDIA A100-SXM4-80GB\",
    \"memoryBandwidthGBs\": 2039,
    \"computeTFLOPS\": 312
  },
  \"10de:20f1\": {
    \"model\": \"NVIDIA A100-PCIE-40GB\",
    \"memoryBandwidthGBs\": 1555,
    \"computeTFLOPS\": 312
  },
  \"10de:20b5\": {
    \"model\": \"NVIDIA A100-PCIE-80GB\",
    \"memoryBandwidthGBs\": 1935,
    \"computeTFLOPS\": 312
  },
  \"10de:2236\": {
    \"model\": \"NVIDIA A10\",
    \"memoryBandwidthGBs\": 600,
    \"computeTFLOPS\": 125
  },
  \"10de:27b8\": {
    \"model\": \"NVIDIA L4\",
    \"memoryBandwidthGBs\": 300,
    \"computeTFLOPS\": 121
  },
  \"10de:1eb8\": {
    \"model\": \"NVIDIA Tesla T4\",
    \"memoryBandwidthGBs\": 320,
    \"computeTFLOPS\": 65
  },
  \"1002:744c\": {
    \"model\": \"AMD Radeon RX 7900 XTX\",
    \"memoryBandwidthGBs\": 960,
    \"computeTFLOPS\": 122
  },
  \"1002:74a1\": {
    \"model\": \"AMD Instinct MI300X\",
    \"memoryBandwidthGBs\": 5300,
    \"computeTFLOPS\": 1307
  }
}
''"

definition rawNvidiaBoards :: string where
  "rawNvidiaBoards = ''{
  \"NVIDIA A100-SXM4-40GB\": {
    \"memoryMiB\": 40960,
    \"memoryBandwidthGBs\": 1555,
    \"computeTFLOPS\": 312,
    \"smCount\": 108,
    \"memorySlices\": 8
  },
  \"NVIDIA A100-SXM4-80GB\": {
    \"memoryMiB\": 81920,
    \"memoryBandwidthGBs\": 2039,
    \"computeTFLOPS\": 312,
    \"smCount\": 108,
    \"memorySlices\": 8
  },
  \"NVIDIA A100-PCIE-40GB\": {
    \"memoryMiB\": 40960,
    \"memoryBandwidthGBs\": 1555,
    \"computeTFLOPS\": 312,
    \"smCount\": 108,
    \"memorySlices\": 8
  },
  \"NVIDIA A100 80GB PCIe\": {
    \"memoryMiB\": 81920,
    \"memoryBandwidthGBs\": 1935,
    \"computeTFLOPS\": 312,
    \"smCount\": 108,
    \"memorySlices\": 8
  },
  \"NVIDIA A100-PCIE-80GB\": {
    \"memoryMiB\": 81920,
    \"memoryBandwidthGBs\": 1935,
    \"computeTFLOPS\": 312,
    \"smCount\": 108,
    \"memorySlices\": 8
  },
  \"NVIDIA A30\": {
    \"memoryMiB\": 24576,
    \"memoryBandwidthGBs\": 933,
    \"computeTFLOPS\": 165,
    \"smCount\": 56,
    \"memorySlices\": 4
  },
  \"NVIDIA H100 80GB HBM3\": {
    \"memoryMiB\": 81920,
    \"memoryBandwidthGBs\": 3350,
    \"computeTFLOPS\": 989,
    \"smCount\": 132,
    \"memorySlices\": 8
  },
  \"NVIDIA H100 PCIe\": {
    \"memoryMiB\": 81920,
    \"memoryBandwidthGBs\": 2000,
    \"computeTFLOPS\": 756,
    \"smCount\": 114,
    \"memorySlices\": 8
  },
  \"NVIDIA H100 NVL\": {
    \"memoryMiB\": 96256,
    \"memoryBandwidthGBs\": 3900,
    \"computeTFLOPS\": 835,
    \"smCount\": 132,
    \"memorySlices\": 8
  },
  \"NVIDIA H200\": {
    \"memoryMiB\": 144384,
    \"memoryBandwidthGBs\": 4800,
    \"computeTFLOPS\": 989,
    \"smCount\": 132,
    \"memorySlices\": 8
  },
  \"NVIDIA A10\": {
    \"memoryMiB\": 24576,
    \"memoryBandwidthGBs\": 600,
    \"computeTFLOPS\": 125,
    \"smCount\": 72
  },
  \"NVIDIA L4\": {
    \"memoryMiB\": 24576,
    \"memoryBandwidthGBs\": 300,
    \"computeTFLOPS\": 121,
    \"smCount\": 58
  },
  \"NVIDIA L40S\": {
    \"memoryMiB\": 49152,
    \"memoryBandwidthGBs\": 864,
    \"computeTFLOPS\": 366,
    \"smCount\": 142
  },
  \"Tesla T4\": {
    \"memoryMiB\": 16384,
    \"memoryBandwidthGBs\": 320,
    \"computeTFLOPS\": 65,
    \"smCount\": 40
  }
}
''"

text \<open>The values of the two files, and the index of the first.\<close>

definition index_json :: json where
  "index_json =
    JObject [
      (''8086:64a0'', JObject
        [(''model'', JString ''Intel Arc Graphics 140V''),
         (''memoryBandwidthGBs'', JNumber ''136''), (''unifiedMemory'', JBool True)]),
      (''8086:643e'', JObject
        [(''model'', JString ''Intel AI Boost NPU 4''),
         (''memoryBandwidthGBs'', JNumber ''136''), (''unifiedMemory'', JBool True)]),
      (''1002:1586'', JObject
        [(''model'', JString ''AMD Radeon 8060S (Strix Halo)''),
         (''memoryBandwidthGBs'', JNumber ''256''), (''computeTFLOPS'', JNumber ''59''),
         (''unifiedMemory'', JBool True)]),
      (''1022:17f0'', JObject
        [(''model'', JString ''AMD XDNA 2 NPU (Strix Halo)''),
         (''memoryBandwidthGBs'', JNumber ''256''), (''unifiedMemory'', JBool True)]),
      (''8086:7d55'', JObject
        [(''model'', JString ''Intel Arc Graphics (Meteor Lake)''),
         (''memoryBandwidthGBs'', JNumber ''120''), (''unifiedMemory'', JBool True)]),
      (''10de:2684'', JObject
        [(''model'', JString ''NVIDIA GeForce RTX 4090''),
         (''memoryBandwidthGBs'', JNumber ''1008''), (''computeTFLOPS'', JNumber ''165'')]),
      (''10de:2b85'', JObject
        [(''model'', JString ''NVIDIA GeForce RTX 5090''),
         (''memoryBandwidthGBs'', JNumber ''1792''), (''computeTFLOPS'', JNumber ''209'')]),
      (''10de:26b9'', JObject
        [(''model'', JString ''NVIDIA L40S''), (''memoryBandwidthGBs'', JNumber ''864''),
         (''computeTFLOPS'', JNumber ''181'')]),
      (''10de:2330'', JObject
        [(''model'', JString ''NVIDIA H100 SXM5 80GB''),
         (''memoryBandwidthGBs'', JNumber ''3350''), (''computeTFLOPS'', JNumber ''989'')]),
      (''10de:2331'', JObject
        [(''model'', JString ''NVIDIA H100 PCIe 80GB''),
         (''memoryBandwidthGBs'', JNumber ''2000''), (''computeTFLOPS'', JNumber ''756'')]),
      (''10de:20b0'', JObject
        [(''model'', JString ''NVIDIA A100-SXM4-40GB''),
         (''memoryBandwidthGBs'', JNumber ''1555''), (''computeTFLOPS'', JNumber ''312'')]),
      (''10de:20b2'', JObject
        [(''model'', JString ''NVIDIA A100-SXM4-80GB''),
         (''memoryBandwidthGBs'', JNumber ''2039''), (''computeTFLOPS'', JNumber ''312'')]),
      (''10de:20f1'', JObject
        [(''model'', JString ''NVIDIA A100-PCIE-40GB''),
         (''memoryBandwidthGBs'', JNumber ''1555''), (''computeTFLOPS'', JNumber ''312'')]),
      (''10de:20b5'', JObject
        [(''model'', JString ''NVIDIA A100-PCIE-80GB''),
         (''memoryBandwidthGBs'', JNumber ''1935''), (''computeTFLOPS'', JNumber ''312'')]),
      (''10de:2236'', JObject
        [(''model'', JString ''NVIDIA A10''), (''memoryBandwidthGBs'', JNumber ''600''),
         (''computeTFLOPS'', JNumber ''125'')]),
      (''10de:27b8'', JObject
        [(''model'', JString ''NVIDIA L4''), (''memoryBandwidthGBs'', JNumber ''300''),
         (''computeTFLOPS'', JNumber ''121'')]),
      (''10de:1eb8'', JObject
        [(''model'', JString ''NVIDIA Tesla T4''),
         (''memoryBandwidthGBs'', JNumber ''320''), (''computeTFLOPS'', JNumber ''65'')]),
      (''1002:744c'', JObject
        [(''model'', JString ''AMD Radeon RX 7900 XTX''),
         (''memoryBandwidthGBs'', JNumber ''960''), (''computeTFLOPS'', JNumber ''122'')]),
      (''1002:74a1'', JObject
        [(''model'', JString ''AMD Instinct MI300X''),
         (''memoryBandwidthGBs'', JNumber ''5300''),
         (''computeTFLOPS'', JNumber ''1307'')])]"

definition boards_json :: json where
  "boards_json =
    JObject [
      (''NVIDIA A100-SXM4-40GB'', JObject
        [(''memoryMiB'', JNumber ''40960''), (''memoryBandwidthGBs'', JNumber ''1555''),
         (''computeTFLOPS'', JNumber ''312''), (''smCount'', JNumber ''108''),
         (''memorySlices'', JNumber ''8'')]),
      (''NVIDIA A100-SXM4-80GB'', JObject
        [(''memoryMiB'', JNumber ''81920''), (''memoryBandwidthGBs'', JNumber ''2039''),
         (''computeTFLOPS'', JNumber ''312''), (''smCount'', JNumber ''108''),
         (''memorySlices'', JNumber ''8'')]),
      (''NVIDIA A100-PCIE-40GB'', JObject
        [(''memoryMiB'', JNumber ''40960''), (''memoryBandwidthGBs'', JNumber ''1555''),
         (''computeTFLOPS'', JNumber ''312''), (''smCount'', JNumber ''108''),
         (''memorySlices'', JNumber ''8'')]),
      (''NVIDIA A100 80GB PCIe'', JObject
        [(''memoryMiB'', JNumber ''81920''), (''memoryBandwidthGBs'', JNumber ''1935''),
         (''computeTFLOPS'', JNumber ''312''), (''smCount'', JNumber ''108''),
         (''memorySlices'', JNumber ''8'')]),
      (''NVIDIA A100-PCIE-80GB'', JObject
        [(''memoryMiB'', JNumber ''81920''), (''memoryBandwidthGBs'', JNumber ''1935''),
         (''computeTFLOPS'', JNumber ''312''), (''smCount'', JNumber ''108''),
         (''memorySlices'', JNumber ''8'')]),
      (''NVIDIA A30'', JObject
        [(''memoryMiB'', JNumber ''24576''), (''memoryBandwidthGBs'', JNumber ''933''),
         (''computeTFLOPS'', JNumber ''165''), (''smCount'', JNumber ''56''),
         (''memorySlices'', JNumber ''4'')]),
      (''NVIDIA H100 80GB HBM3'', JObject
        [(''memoryMiB'', JNumber ''81920''), (''memoryBandwidthGBs'', JNumber ''3350''),
         (''computeTFLOPS'', JNumber ''989''), (''smCount'', JNumber ''132''),
         (''memorySlices'', JNumber ''8'')]),
      (''NVIDIA H100 PCIe'', JObject
        [(''memoryMiB'', JNumber ''81920''), (''memoryBandwidthGBs'', JNumber ''2000''),
         (''computeTFLOPS'', JNumber ''756''), (''smCount'', JNumber ''114''),
         (''memorySlices'', JNumber ''8'')]),
      (''NVIDIA H100 NVL'', JObject
        [(''memoryMiB'', JNumber ''96256''), (''memoryBandwidthGBs'', JNumber ''3900''),
         (''computeTFLOPS'', JNumber ''835''), (''smCount'', JNumber ''132''),
         (''memorySlices'', JNumber ''8'')]),
      (''NVIDIA H200'', JObject
        [(''memoryMiB'', JNumber ''144384''), (''memoryBandwidthGBs'', JNumber ''4800''),
         (''computeTFLOPS'', JNumber ''989''), (''smCount'', JNumber ''132''),
         (''memorySlices'', JNumber ''8'')]),
      (''NVIDIA A10'', JObject
        [(''memoryMiB'', JNumber ''24576''), (''memoryBandwidthGBs'', JNumber ''600''),
         (''computeTFLOPS'', JNumber ''125''), (''smCount'', JNumber ''72'')]),
      (''NVIDIA L4'', JObject
        [(''memoryMiB'', JNumber ''24576''), (''memoryBandwidthGBs'', JNumber ''300''),
         (''computeTFLOPS'', JNumber ''121''), (''smCount'', JNumber ''58'')]),
      (''NVIDIA L40S'', JObject
        [(''memoryMiB'', JNumber ''49152''), (''memoryBandwidthGBs'', JNumber ''864''),
         (''computeTFLOPS'', JNumber ''366''), (''smCount'', JNumber ''142'')]),
      (''Tesla T4'', JObject
        [(''memoryMiB'', JNumber ''16384''), (''memoryBandwidthGBs'', JNumber ''320''),
         (''computeTFLOPS'', JNumber ''65''), (''smCount'', JNumber ''40'')])]"

definition index_entry :: "string \<Rightarrow> string \<Rightarrow> int \<Rightarrow> int \<Rightarrow> bool \<Rightarrow> string \<times> entry" where
  "index_entry key name bw tflops unified =
     (key, \<lparr>eModel = name, eMemoryBandwidthGBs = bw, eComputeTFLOPS = tflops, eUnifiedMemory = unified\<rparr>)"

definition shipped_index :: index where
  "shipped_index =
    [index_entry ''8086:64a0'' ''Intel Arc Graphics 140V'' 136 0 True,
     index_entry ''8086:643e'' ''Intel AI Boost NPU 4'' 136 0 True,
     index_entry ''1002:1586'' ''AMD Radeon 8060S (Strix Halo)'' 256 59 True,
     index_entry ''1022:17f0'' ''AMD XDNA 2 NPU (Strix Halo)'' 256 0 True,
     index_entry ''8086:7d55'' ''Intel Arc Graphics (Meteor Lake)'' 120 0 True,
     index_entry ''10de:2684'' ''NVIDIA GeForce RTX 4090'' 1008 165 False,
     index_entry ''10de:2b85'' ''NVIDIA GeForce RTX 5090'' 1792 209 False,
     index_entry ''10de:26b9'' ''NVIDIA L40S'' 864 181 False,
     index_entry ''10de:2330'' ''NVIDIA H100 SXM5 80GB'' 3350 989 False,
     index_entry ''10de:2331'' ''NVIDIA H100 PCIe 80GB'' 2000 756 False,
     index_entry ''10de:20b0'' ''NVIDIA A100-SXM4-40GB'' 1555 312 False,
     index_entry ''10de:20b2'' ''NVIDIA A100-SXM4-80GB'' 2039 312 False,
     index_entry ''10de:20f1'' ''NVIDIA A100-PCIE-40GB'' 1555 312 False,
     index_entry ''10de:20b5'' ''NVIDIA A100-PCIE-80GB'' 1935 312 False,
     index_entry ''10de:2236'' ''NVIDIA A10'' 600 125 False,
     index_entry ''10de:27b8'' ''NVIDIA L4'' 300 121 False,
     index_entry ''10de:1eb8'' ''NVIDIA Tesla T4'' 320 65 False,
     index_entry ''1002:744c'' ''AMD Radeon RX 7900 XTX'' 960 122 False,
     index_entry ''1002:74a1'' ''AMD Instinct MI300X'' 5300 1307 False]"

lemma rawData_text: "json_text 0 index_json @ [CHR 0x0A] = rawData"
  by code_simp

lemma rawNvidiaBoards_text: "json_text 0 boards_json @ [CHR 0x0A] = rawNvidiaBoards"
  by code_simp

lemma newline_rest: "delimited [CHR 0x0A]" "list_all json_space [CHR 0x0A]"
  by (simp_all add: delimited_def json_space_def)

lemma parse_rawData: "json_parse rawData = Some index_json"
proof -
  have "json_plain index_json" "json_depth index_json \<le> max_depth" by code_simp+
  then have "json_parse rawData = Some (json_valid index_json)"
    unfolding rawData_text [symmetric] using newline_rest by (rule json_parse_text)
  also have "json_valid index_json = index_json" by code_simp
  finally show ?thesis .
qed

lemma parse_rawNvidiaBoards: "json_parse rawNvidiaBoards = Some boards_json"
proof -
  have "json_plain boards_json" "json_depth boards_json \<le> max_depth" by code_simp+
  then have "json_parse rawNvidiaBoards = Some (json_valid boards_json)"
    unfolding rawNvidiaBoards_text [symmetric] using newline_rest by (rule json_parse_text)
  also have "json_valid boards_json = boards_json" by code_simp
  finally show ?thesis .
qed

lemma decode_index_json:
  "decode_map (decode_struct entry_fields) zero_entry index_json [] = Some shipped_index"
  by code_simp

lemma decode_boards_json:
  "map_option (map (\<lambda>(name, b). (name, b\<lparr>ProductName := name\<rparr>)))
     (decode_map (decode_struct board_fields) zero_board boards_json []) = Some (boards shipped_boards)"
  by code_simp

text \<open>
  C28: the two embedded files load without error, into exactly the index and the board table
  the rest of the library calls shipped.
\<close>

theorem shipped_tables_load:
  "Load (decode_index err) rawData = Inr shipped_index \<and>
   LoadNvidiaBoards (decode_boards err) hash rawNvidiaBoards =
     Inr \<lparr>boards = boards shipped_boards, version = hash rawNvidiaBoards\<rparr>"
proof -
  have "decode_index err rawData = Inr shipped_index"
    by (simp add: decode_index_def unmarshal_def parse_rawData decode_index_json)
  moreover obtain bs where "decode_boards err rawNvidiaBoards = Inr bs"
    "map (\<lambda>(name, b). (name, b\<lparr>ProductName := name\<rparr>)) bs = boards shipped_boards"
    using decode_boards_json by (auto simp: decode_boards_def unmarshal_def parse_rawNvidiaBoards)
  ultimately show ?thesis by (simp add: Load_def LoadNvidiaBoards_def)
qed

end
