(* ===== verification/Resolver.thy ===== *)
theory Resolver
  imports ClaimApi JsonDecode
begin

text \<open>
  The resolver that runs the llmfit binary (\<open>internal/modelclaim/resolver.go\<close>), with the
  decoding of its answer.  The parameters are the run of the binary, given its path, its time
  limit in nanoseconds and its arguments, and the text of a decoding error.
\<close>

definition zero_bounds :: bounds where
  "zero_bounds = \<lparr>bModel = [], ClaimName = [], bQuant = [], WeightsGb = 0, MemoryGi = 0,
     MinBandwidthGBs = 0, bMinTps = 0, bEfficiencyPct = 0, ResolverVersion = []\<rparr>"

definition bounds_fields :: "bounds fields" where
  "bounds_fields =
     [field ''model'' bModel bModel_update decode_string,
      field ''claimName'' ClaimName ClaimName_update decode_string,
      field ''quant'' bQuant bQuant_update decode_string,
      field ''weightsGb'' WeightsGb WeightsGb_update decode_float,
      field ''memoryGi'' MemoryGi MemoryGi_update (decode_uint 64),
      field ''minBandwidthGBs'' MinBandwidthGBs MinBandwidthGBs_update (decode_uint 64),
      field ''minTps'' bMinTps bMinTps_update decode_float,
      field ''efficiencyPct'' bEfficiencyPct bEfficiencyPct_update (decode_uint 32),
      field ''resolverVersion'' ResolverVersion ResolverVersion_update decode_string]"

definition decode_bounds :: "(string \<Rightarrow> string) \<Rightarrow> string \<Rightarrow> bounds result" where
  "decode_bounds err = unmarshal (decode_struct bounds_fields) zero_bounds err"

record exec_resolver =
  Bin :: string
  Timeout :: int

definition effective_timeout :: "exec_resolver \<Rightarrow> int" where
  "effective_timeout r = (if Timeout r = 0 then 30 * 10 ^ 9 else Timeout r)"

definition ExecResolver_Resolve ::
  "(string \<Rightarrow> int \<Rightarrow> string list \<Rightarrow> (string \<times> string) + string) \<Rightarrow> (string \<Rightarrow> string) \<Rightarrow>
   exec_resolver \<Rightarrow> string \<Rightarrow> rat \<Rightarrow> string \<Rightarrow> int \<Rightarrow> bounds result" where
  "ExecResolver_Resolve run err r = Resolve (run (Bin r) (effective_timeout r)) (decode_bounds err)"

section \<open>The range of an answer\<close>

definition bounds_in_range :: "bounds \<Rightarrow> bool" where
  "bounds_in_range b \<longleftrightarrow> in_uint 64 (MemoryGi b) \<and> in_uint 64 (MinBandwidthGBs b) \<and>
     in_uint 32 (bEfficiencyPct b) \<and> in_f64 (WeightsGb b) \<and> in_f64 (bMinTps b)"

lemma bounds_fields_in_range: "list_all (keeps bounds_in_range) bounds_fields"
  unfolding bounds_fields_def list.pred_inject bounds_in_range_def
  by (intro conjI TrueI keeps_uint keeps_float keeps_any) simp_all

lemma decode_bounds_in_range:
  assumes "decode_bounds err raw = Inr b"
  shows "bounds_in_range b"
proof -
  obtain v where "decode_struct bounds_fields v zero_bounds = Some b"
    using assms by (auto simp: decode_bounds_def unmarshal_Inr)
  moreover have "bounds_in_range zero_bounds" by (simp add: bounds_in_range_def zero_bounds_def)
  ultimately show ?thesis by (rule decode_struct_invariant [OF bounds_fields_in_range, rotated])
qed

lemma Resolve_Inr:
  "Resolve run decode m t q e = Inr b \<longleftrightarrow>
   m \<noteq> [] \<and> hd m \<noteq> CHR ''-'' \<and> (MemoryGi b \<noteq> 0 \<or> MinBandwidthGBs b \<noteq> 0) \<and>
   (\<exists>out. run (resolver_args m t q e) = Inr out \<and> decode out = Inr b)"
  by (auto simp: Resolve_def split: sum.splits prod.splits)

text \<open>
  C24: an answer of the resolver fits the Go types of its fields and sets a floor; it was decoded
  from what one run of the binary printed, on a model that cannot be taken for a flag.
\<close>

theorem resolver_answer_in_range:
  assumes "ExecResolver_Resolve run err r m t q e = Inr b"
  shows "bounds_in_range b \<and> (MemoryGi b \<noteq> 0 \<or> MinBandwidthGBs b \<noteq> 0) \<and>
    m \<noteq> [] \<and> hd m \<noteq> CHR ''-'' \<and>
    (\<exists>out. run (Bin r) (effective_timeout r) (resolver_args m t q e) = Inr out \<and>
       decode_bounds err out = Inr b)"
  using assms decode_bounds_in_range by (auto simp: ExecResolver_Resolve_def Resolve_Inr)

definition sample_answer :: string where
  "sample_answer = ''{\"memoryGi\": 18, \"QUANT\":\"Q4_K_M\",\"minBandwidthGBs\":500,\"weightsGb\":16.5,
    \"efficiencyPct\":null,\"extra\":[1,{}]}''"

definition sample_answer_bounds :: bounds where
  "sample_answer_bounds = zero_bounds\<lparr>bQuant := ''Q4_K_M'', WeightsGb := 33 / 2, MemoryGi := 18,
     MinBandwidthGBs := 500\<rparr>"

lemma decode_sample_answer: "decode_bounds (\<lambda>_. ''bad'') sample_answer = Inr sample_answer_bounds"
  by code_simp


definition sample_exec :: "string \<Rightarrow> int \<Rightarrow> string list \<Rightarrow> (string \<times> string) + string" where
  "sample_exec bin timeout args =
     (if bin = ''llmfit'' \<and> timeout = 30000000000 \<and> take 3 args = [''--json'', ''claim'', ''m'']
      then Inr sample_answer else Inl (''no such model'', ''exit status 1''))"

theorem resolver_answer_in_range_witness:
  "\<exists>b. ExecResolver_Resolve sample_exec (\<lambda>_. ''bad'') \<lparr>Bin = ''llmfit'', Timeout = 0\<rparr> ''m'' 0 [] 0 = Inr b \<and>
     MinBandwidthGBs b = 500 \<and> bounds_in_range b"
proof -
  have r: "ExecResolver_Resolve sample_exec (\<lambda>_. ''bad'') \<lparr>Bin = ''llmfit'', Timeout = 0\<rparr> ''m'' 0 [] 0
      = Inr sample_answer_bounds"
    unfolding ExecResolver_Resolve_def Resolve_Inr
    by (simp add: sample_exec_def effective_timeout_def resolver_args_def decode_sample_answer)
      (simp add: sample_answer_bounds_def)
  from resolver_answer_in_range [OF r] r show ?thesis by (simp add: sample_answer_bounds_def)
qed

end
