(* ===== verification/GoFlags.thy ===== *)
theory GoFlags
  imports GoStrings JsonDecode
begin

text \<open>
  What the program uses of Go's \<open>flag\<close> package: the parser of the command line over a table of
  flags, and the values of boolean and duration flags (\<open>strconv.ParseBool\<close>,
  \<open>time.ParseDuration\<close>).  A duration is an int64 of nanoseconds.
\<close>

section \<open>Values\<close>

definition ParseBool :: "string \<Rightarrow> bool option" where
  "ParseBool s =
     (if s \<in> {''1'', ''t'', ''T'', ''TRUE'', ''true'', ''True''} then Some True
      else if s \<in> {''0'', ''f'', ''F'', ''FALSE'', ''false'', ''False''} then Some False
      else None)"

fun leadingInt :: "nat \<Rightarrow> string \<Rightarrow> (nat \<times> string) option" where
  "leadingInt x [] = Some (x, [])"
| "leadingInt x (c # s) =
     (if \<not> is_digit c then Some (x, c # s)
      else if x > 2 ^ 63 div 10 then None
      else if x * 10 + digit_value c > 2 ^ 63 then None
      else leadingInt (x * 10 + digit_value c) s)"

text \<open>
  The digits after the point, with the float64 power of ten they are scaled by; digits past the
  range of the accumulator are skipped.
\<close>

fun leadingFraction :: "nat \<Rightarrow> rat \<Rightarrow> bool \<Rightarrow> string \<Rightarrow> nat \<times> rat \<times> string" where
  "leadingFraction x scale full [] = (x, scale, [])"
| "leadingFraction x scale full (c # s) =
     (if \<not> is_digit c then (x, scale, c # s)
      else if full \<or> x > (2 ^ 63 - 1) div 10 \<or> x * 10 + digit_value c > 2 ^ 63
      then leadingFraction x scale True s
      else leadingFraction (x * 10 + digit_value c) (round_float (scale * 10)) False s)"

definition duration_units :: "(string \<times> nat) list" where
  "duration_units =
     [(''ns'', 1), (''us'', 10 ^ 3), ([CHR 0xC2, CHR 0xB5, CHR ''s''], 10 ^ 3),
      ([CHR 0xCE, CHR 0xBC, CHR ''s''], 10 ^ 3), (''ms'', 10 ^ 6), (''s'', 10 ^ 9),
      (''m'', 60 * 10 ^ 9), (''h'', 3600 * 10 ^ 9)]"

definition unit_char :: "char \<Rightarrow> bool" where
  "unit_char c \<longleftrightarrow> c \<noteq> CHR ''.'' \<and> \<not> is_digit c"

definition part_value :: "nat \<Rightarrow> nat \<Rightarrow> rat \<Rightarrow> nat \<Rightarrow> nat option" where
  \<comment> \<open>\<open>v\<close> units and the fraction \<open>f / scale\<close> of one, in nanoseconds\<close>
  "part_value v f scale unit =
     (if v > 2 ^ 63 div unit then None
      else let w = v * unit +
             (if f > 0
              then nat \<lfloor>round_float (round_float (of_nat f) * round_float (of_nat unit / scale))\<rfloor>
              else 0)
        in if w > 2 ^ 63 then None else Some w)"

definition part_fraction :: "string \<Rightarrow> nat \<times> rat \<times> bool \<times> string" where
  \<comment> \<open>the third component: there was a digit after the point\<close>
  "part_fraction s =
     (if has_prefix s ''.''
      then case leadingFraction 0 1 False (tl s) of
             (f, scale, s') \<Rightarrow> (f, scale, length s' \<noteq> length (tl s), s')
      else (0, 1, False, s))"

definition next_part :: "string \<Rightarrow> (nat \<times> string) option" where
  "next_part s =
     (if s = [] \<or> \<not> (hd s = CHR ''.'' \<or> is_digit (hd s)) then None
      else case leadingInt 0 s of
        None \<Rightarrow> None
      | Some (v, s1) \<Rightarrow>
          (case part_fraction s1 of
             (f, scale, post, s2) \<Rightarrow>
               if length s1 = length s \<and> \<not> post then None
               else (case map_of duration_units (takeWhile unit_char s2) of
                       None \<Rightarrow> None
                     | Some unit \<Rightarrow>
                         map_option (\<lambda>w. (w, dropWhile unit_char s2)) (part_value v f scale unit))))"

lemma leadingInt_shorter: "leadingInt x s = Some (v, s') \<Longrightarrow> length s' \<le> length s"
  by (induction x s rule: leadingInt.induct) (auto split: if_splits)

lemma leadingFraction_shorter: "leadingFraction x sc full s = (f, scale, s') \<Longrightarrow> length s' \<le> length s"
  by (induction x sc full s rule: leadingFraction.induct) (auto split: if_splits)

lemma next_part_shorter:
  assumes "next_part s = Some (w, s')"
  shows "length s' < length s"
proof -
  obtain v s1 f scale post s2 unit where
    i: "leadingInt 0 s = Some (v, s1)" and p: "part_fraction s1 = (f, scale, post, s2)" and
    u: "map_of duration_units (takeWhile unit_char s2) = Some unit" and s': "s' = dropWhile unit_char s2"
    using assms by (auto simp: next_part_def split: if_splits option.splits prod.splits)
  have "length s2 \<le> length s1"
    using p leadingFraction_shorter by (fastforce simp: part_fraction_def split: if_splits prod.splits)
  then have "length s2 \<le> length s" using leadingInt_shorter [OF i] by simp
  moreover have "takeWhile unit_char s2 \<noteq> []" using u by (auto simp: duration_units_def)
  then have "length (dropWhile unit_char s2) < length s2"
    by (cases s2) (auto simp: less_Suc_eq_le length_dropWhile_le split: if_splits)
  ultimately show ?thesis using s' by simp
qed

text \<open>The sum is kept at 64 bits.\<close>

function duration_sum :: "nat \<Rightarrow> string \<Rightarrow> nat option" where
  "duration_sum d s =
     (if s = [] then Some d
      else case next_part s of
        None \<Rightarrow> None
      | Some (w, s') \<Rightarrow>
          if (d + w) mod 2 ^ 64 > 2 ^ 63 then None else duration_sum ((d + w) mod 2 ^ 64) s')"
  by pat_completeness auto
termination
  by (relation "measure (\<lambda>(d, s). length s)") (auto dest: next_part_shorter)

declare duration_sum.simps [simp del]

definition ParseDuration :: "string \<Rightarrow> int option" where
  "ParseDuration orig =
     (let neg = has_prefix orig ''-'';
          s = (if neg \<or> has_prefix orig ''+'' then tl orig else orig)
      in if s = ''0'' then Some 0
         else if s = [] then None
         else case duration_sum 0 s of
           None \<Rightarrow> None
         | Some d \<Rightarrow> if neg then Some (wrap64 (- int d))
                     else if d > 2 ^ 63 - 1 then None else Some (int d))"

lemma ParseDuration_in_range: "ParseDuration s = Some d \<Longrightarrow> in_i64 d"
  by (auto simp: ParseDuration_def Let_def split: if_splits option.splits) (simp_all add: in_i64_def)

section \<open>The parser\<close>

text \<open>
  A table of flags: the name, whether it is a boolean flag, and what setting it does to the
  values.  Parsing ends at the first argument that is no flag, or after \<open>--\<close>.
\<close>

type_synonym 'c flag_table = "string \<Rightarrow> (bool \<times> (string \<Rightarrow> 'c \<Rightarrow> 'c option)) option"

datatype 'c parsed = Parsed 'c | FlagHelp | FlagError

definition cut_value :: "string \<Rightarrow> string \<times> string option" where
  \<comment> \<open>the name, and the value after the first \<open>=\<close> past its first character\<close>
  "cut_value name =
     (hd name # takeWhile (\<lambda>c. c \<noteq> CHR ''='') (tl name),
      case dropWhile (\<lambda>c. c \<noteq> CHR ''='') (tl name) of [] \<Rightarrow> None | _ # v \<Rightarrow> Some v)"

definition flag_body :: "string \<Rightarrow> string option" where
  \<comment> \<open>what follows the one or two dashes of a flag, or \<open>None\<close> where the flags end\<close>
  "flag_body s =
     (if length s < 2 \<or> hd s \<noteq> CHR ''-'' \<or> s = ''--'' then None
      else Some (if hd (tl s) = CHR ''-'' then tl (tl s) else tl s))"

datatype 'c arg_step = EndOfFlags | HelpWanted | BadFlag | Next "string list" 'c

definition set_flag :: "('c \<Rightarrow> 'c option) \<Rightarrow> string list \<Rightarrow> 'c \<Rightarrow> 'c arg_step" where
  "set_flag f rest c = (case f c of None \<Rightarrow> BadFlag | Some c' \<Rightarrow> Next rest c')"

definition take_value ::
  "bool \<Rightarrow> (string \<Rightarrow> 'c \<Rightarrow> 'c option) \<Rightarrow> string option \<Rightarrow> string list \<Rightarrow> 'c \<Rightarrow> 'c arg_step" where
  \<comment> \<open>a flag without \<open>=\<close> is set to true if it is boolean, else takes the next argument\<close>
  "take_value is_bool set_to v rest c =
     (case v of
        Some x \<Rightarrow> set_flag (set_to x) rest c
      | None \<Rightarrow>
          if is_bool then set_flag (set_to ''true'') rest c
          else (case rest of [] \<Rightarrow> BadFlag | x # rest' \<Rightarrow> set_flag (set_to x) rest' c))"

definition parseOne :: "'c flag_table \<Rightarrow> string \<Rightarrow> string list \<Rightarrow> 'c \<Rightarrow> 'c arg_step" where
  "parseOne tab s rest c =
     (case flag_body s of
        None \<Rightarrow> EndOfFlags
      | Some name \<Rightarrow>
          if name = [] \<or> hd name = CHR ''-'' \<or> hd name = CHR ''='' then BadFlag
          else (case tab (fst (cut_value name)) of
            None \<Rightarrow> if fst (cut_value name) \<in> {''help'', ''h''} then HelpWanted else BadFlag
          | Some (is_bool, set_to) \<Rightarrow> take_value is_bool set_to (snd (cut_value name)) rest c))"

lemma set_flag_Next: "set_flag f rest c = Next args c' \<Longrightarrow> args = rest \<and> f c = Some c'"
  by (auto simp: set_flag_def split: option.splits)

lemma parseOne_Next:
  assumes "parseOne tab s rest c = Next args c'"
  obtains n b f v where "tab n = Some (b, f)" "f v c = Some c'" "length args \<le> length rest"
proof -
  obtain n b f w where t: "tab n = Some (b, f)" and v: "take_value b f w rest c = Next args c'"
    using assms by (auto simp: parseOne_def split: option.splits if_splits)
  have "\<exists>v. f v c = Some c' \<and> length args \<le> length rest"
    using v by (auto simp: take_value_def split: option.splits if_splits list.splits dest!: set_flag_Next)
  with t that show thesis by blast
qed

function parse_args :: "'c flag_table \<Rightarrow> string list \<Rightarrow> 'c \<Rightarrow> 'c parsed" where
  "parse_args tab [] c = Parsed c"
| "parse_args tab (s # rest) c =
     (case parseOne tab s rest c of
        EndOfFlags \<Rightarrow> Parsed c
      | HelpWanted \<Rightarrow> FlagHelp
      | BadFlag \<Rightarrow> FlagError
      | Next args c' \<Rightarrow> parse_args tab args c')"
  by pat_completeness auto
termination
  by (relation "measure (\<lambda>(tab, args, c). length args)") (auto elim!: parseOne_Next)

text \<open>What every setting keeps, the parser keeps.\<close>

lemma parse_args_invariant:
  assumes keep: "\<And>n b f v c c'. tab n = Some (b, f) \<Longrightarrow> f v c = Some c' \<Longrightarrow> P c \<Longrightarrow> P c'"
  shows "parse_args tab args c = Parsed c' \<Longrightarrow> P c \<Longrightarrow> P c'"
  using keep
proof (induction tab args c rule: parse_args.induct)
  case (2 tab s rest c)
  show ?case
  proof (cases "parseOne tab s rest c")
    case (Next args d)
    with 2 show ?thesis by (auto elim!: parseOne_Next intro: keep)
  qed (use 2 in simp_all)
qed simp

text \<open>Settings written \<open>--name=value\<close> are made in order.\<close>

definition setting :: "string \<times> string \<Rightarrow> string" where
  "setting nv = ''--'' @ fst nv @ ''='' @ snd nv"

fun apply_settings :: "'c flag_table \<Rightarrow> (string \<times> string) list \<Rightarrow> 'c \<Rightarrow> 'c option" where
  "apply_settings tab [] c = Some c"
| "apply_settings tab ((n, v) # nvs) c =
     (case tab n of
        None \<Rightarrow> None
      | Some (_, set_to) \<Rightarrow> (case set_to v c of None \<Rightarrow> None | Some c' \<Rightarrow> apply_settings tab nvs c'))"

definition flag_name :: "string \<Rightarrow> bool" where
  "flag_name n \<longleftrightarrow> n \<noteq> [] \<and> hd n \<noteq> CHR ''-'' \<and> CHR ''='' \<notin> set n"

lemma cut_value_setting: "flag_name n \<Longrightarrow> cut_value (n @ ''='' @ v) = (n, Some v)"
proof -
  assume n: "flag_name n"
  then obtain x xs where x: "n = x # xs" by (cases n) (auto simp: flag_name_def)
  with n have "\<forall>c \<in> set xs. c \<noteq> CHR ''=''" by (auto simp: flag_name_def)
  then show ?thesis by (simp add: x cut_value_def takeWhile_append2 dropWhile_append2)
qed

lemma flag_body_setting: "flag_name n \<Longrightarrow> flag_body (setting (n, v)) = Some (n @ ''='' @ v)"
  by (simp add: flag_body_def setting_def flag_name_def)

lemma parse_settings:
  assumes "\<forall>(n, v) \<in> set nvs. flag_name n \<and> tab n \<noteq> None"
  shows "parse_args tab (map setting nvs) c =
    (case apply_settings tab nvs c of None \<Rightarrow> FlagError | Some c' \<Rightarrow> Parsed c')"
  using assms
proof (induction nvs arbitrary: c)
  case (Cons nv nvs)
  obtain n v where nv: "nv = (n, v)" by fastforce
  with Cons.prems have n: "flag_name n" "tab n \<noteq> None" by auto
  then obtain b f where f: "tab n = Some (b, f)" by auto
  have "n @ ''='' @ v \<noteq> []" "hd (n @ ''='' @ v) \<noteq> CHR ''-''" "hd (n @ ''='' @ v) \<noteq> CHR ''=''"
    using n(1) by (cases n; auto simp: flag_name_def)+
  then have "parseOne tab (setting (n, v)) rest c = set_flag (f v) rest c" for rest
    by (simp add: parseOne_def flag_body_setting cut_value_setting n(1) f take_value_def
        del: append_Cons append_Nil)
  with Cons show ?case by (auto simp: nv f set_flag_def split: option.split)
qed simp

end
