(* ===== verification/Command.thy ===== *)
theory Command
  imports Agent Manager Tables Resolver GoFlags
begin

text \<open>
  The program (\<open>cmd/llmfit-dra/main.go\<close>: \<open>main\<close>, \<open>runController\<close>, \<open>buildConfig\<close>): its flags with
  their defaults from the environment, the choice between the per-node agent and the cluster's
  controller, the start of either on the embedded tables, and the exit codes.  The flags of the
  logging library, and what the Kubernetes libraries answer during the start, are parameters.
\<close>

section \<open>The command line\<close>

text \<open>The flags of the agent, and the others.\<close>

record command = flags +
  cmdKubeconfig :: string
  cmdCdiDir :: string
  cmdMetricsAddr :: string
  cmdController :: bool

definition default_command :: "(string \<Rightarrow> string) \<Rightarrow> command" where
  "default_command env =
     \<lparr>flagNode = env ''NODE_NAME'', flagSysRoot = envOr env ''LLMFIT_SYS_ROOT'' ''/sys'',
      flagProcRoot = envOr env ''LLMFIT_PROC_ROOT'' ''/proc'', flagBin = envOr env ''LLMFIT_BIN'' ''llmfit'',
      flagURL = envOr env ''LLMFIT_URL'' [], flagInterval = 60 * second, flagPlugin = True,
      flagTaints = False, flagVendors = DefaultVendorDrivers, cmdKubeconfig = [],
      cmdCdiDir = ''/var/run/cdi'', cmdMetricsAddr = envOr env ''METRICS_ADDR'' '':9099'',
      cmdController = False\<rparr>"

definition string_flag :: "((string \<Rightarrow> string) \<Rightarrow> 'c \<Rightarrow> 'c) \<Rightarrow> bool \<times> (string \<Rightarrow> 'c \<Rightarrow> 'c option)" where
  "string_flag update = (False, \<lambda>v c. Some (update (\<lambda>_. v) c))"

definition bool_flag :: "((bool \<Rightarrow> bool) \<Rightarrow> 'c \<Rightarrow> 'c) \<Rightarrow> bool \<times> (string \<Rightarrow> 'c \<Rightarrow> 'c option)" where
  "bool_flag update = (True, \<lambda>v c. map_option (\<lambda>b. update (\<lambda>_. b) c) (ParseBool v))"

definition duration_flag :: "((int \<Rightarrow> int) \<Rightarrow> 'c \<Rightarrow> 'c) \<Rightarrow> bool \<times> (string \<Rightarrow> 'c \<Rightarrow> 'c option)" where
  "duration_flag update = (False, \<lambda>v c. map_option (\<lambda>d. update (\<lambda>_. d) c) (ParseDuration v))"

definition command_flags :: "(string \<times> bool \<times> (string \<Rightarrow> command \<Rightarrow> command option)) list" where
  "command_flags =
     [(''kubeconfig'', string_flag cmdKubeconfig_update),
      (''node-name'', string_flag flagNode_update),
      (''sys-root'', string_flag flagSysRoot_update),
      (''proc-root'', string_flag flagProcRoot_update),
      (''llmfit-bin'', string_flag flagBin_update),
      (''llmfit-url'', string_flag flagURL_update),
      (''probe-interval'', duration_flag flagInterval_update),
      (''kubelet-plugin'', bool_flag flagPlugin_update),
      (''cdi-dir'', string_flag cmdCdiDir_update),
      (''publish-taints'', bool_flag flagTaints_update),
      (''vendor-drivers'', string_flag flagVendors_update),
      (''metrics-addr'', string_flag cmdMetricsAddr_update),
      (''controller'', bool_flag cmdController_update)]"

text \<open>The logging library's flags: whether one is boolean, and which values it accepts.\<close>

type_synonym klog_flags = "string \<Rightarrow> (bool \<times> (string \<Rightarrow> bool)) option"

definition all_flags :: "klog_flags \<Rightarrow> command flag_table" where
  "all_flags klogs n =
     (case map_of command_flags n of
        Some f \<Rightarrow> Some f
      | None \<Rightarrow> map_option (\<lambda>(b, ok). (b, \<lambda>v c. if ok v then Some c else None)) (klogs n))"

definition parse_command :: "klog_flags \<Rightarrow> (string \<Rightarrow> string) \<Rightarrow> string list \<Rightarrow> command parsed" where
  "parse_command klogs env args = parse_args (all_flags klogs) args (default_command env)"

section \<open>Starting\<close>

text \<open>
  What the program meets: the environment variables, the kube configuration from a file or in
  the cluster, the clients, whether the caches sync, the clock, and what the start of the agent
  is told (theory Agent), of which the configuration and the index come from here.
\<close>

record surroundings =
  envVar :: "string \<Rightarrow> string"
  configFromFile :: "string \<Rightarrow> unit result"
  configInCluster :: "unit result"
  envDynamic :: "unit result"
  envSynced :: bool
  envBeat :: int
  jsonError :: "string \<Rightarrow> string"
  tableHash :: "string \<Rightarrow> string"
  envStartup :: startup

definition buildConfig :: "surroundings \<Rightarrow> string \<Rightarrow> unit result" where
  "buildConfig e kubeconfig =
     (if kubeconfig \<noteq> [] then configFromFile e kubeconfig else configInCluster e)"

definition node_agent :: "surroundings \<Rightarrow> command \<Rightarrow> observation \<Rightarrow> startup_error + (run_config \<times> agent)" where
  "node_agent e cmd =
     run_start (flags.truncate cmd)
       ((envStartup e)\<lparr>upConfig := buildConfig e (cmdKubeconfig cmd),
                       upIndex := Load (decode_index (jsonError e)) rawData\<rparr>)"

text \<open>The controller's start, with the resolver and the board table its workers use.\<close>

definition runController ::
  "surroundings \<Rightarrow> command \<Rightarrow> 'w \<Rightarrow> string + (exec_resolver \<times> nvidia_boards \<times> ('u, 'w) manager)" where
  "runController e cmd w =
     (case buildConfig e (cmdKubeconfig cmd) of Inl err \<Rightarrow> Inl (''building kube config: '' @ err)
      | Inr _ \<Rightarrow>
     (case upClient (envStartup e) of Inl err \<Rightarrow> Inl (''building kube client: '' @ err)
      | Inr _ \<Rightarrow>
     (case envDynamic e of Inl err \<Rightarrow> Inl (''building dynamic client: '' @ err)
      | Inr _ \<Rightarrow>
     (case LoadNvidiaBoards (decode_boards (jsonError e)) (tableHash e) rawNvidiaBoards of
        Inl err \<Rightarrow> Inl err
      | Inr bs \<Rightarrow>
          map_sum id (\<lambda>m. (\<lparr>Bin = flagBin cmd, Timeout = 0\<rparr>, bs, m))
            (run_manager (envSynced e) (envBeat e) (new_manager w (upStart (envStartup e))))))))"

text \<open>The process: it exits with a code, or goes on as the agent's loop or the controller's workers.\<close>

datatype ('u, 'w) process =
  Exits nat
| AgentRuns run_config agent
| ControllerRuns exec_resolver nvidia_boards "('u, 'w) manager"

definition main ::
  "klog_flags \<Rightarrow> surroundings \<Rightarrow> string list \<Rightarrow> observation \<Rightarrow> 'w \<Rightarrow> ('u, 'w) process" where
  "main klogs e args obs w =
     (case parse_command klogs (envVar e) args of
        FlagHelp \<Rightarrow> Exits 0
      | FlagError \<Rightarrow> Exits 2
      | Parsed cmd \<Rightarrow>
          if cmdController cmd
          then (case runController e cmd w of
                  Inl _ \<Rightarrow> Exits 1
                | Inr (r, bs, m) \<Rightarrow> ControllerRuns r bs m)
          else (case node_agent e cmd obs of
                  Inl _ \<Rightarrow> Exits 1
                | Inr (cfg, ag) \<Rightarrow> AgentRuns cfg ag))"

text \<open>The server of metrics and health runs beside either: its failure ends the process.\<close>

definition server_exit :: "unit result \<Rightarrow> serve_end option \<Rightarrow> nat option" where
  "server_exit listening ended = map_option (\<lambda>_. 1) (Serve listening ended)"

section \<open>Facts\<close>

lemma flag_defs: "string_flag u = (b, f) \<Longrightarrow> f v c = Some c' \<Longrightarrow> c' = u (\<lambda>_. v) c"
  "bool_flag ub = (b, g) \<Longrightarrow> g v c = Some c' \<Longrightarrow> \<exists>x. c' = ub (\<lambda>_. x) c"
  by (auto simp: string_flag_def bool_flag_def)

lemma interval_kept:
  assumes "all_flags klogs n = Some (b, f)" "f v c = Some c'" "in_i64 (flagInterval c)"
  shows "in_i64 (flagInterval c')"
  using assms
  by (auto simp: all_flags_def command_flags_def string_flag_def bool_flag_def duration_flag_def
      dest: ParseDuration_in_range split: if_splits option.splits)

lemma interval_in_range:
  assumes "parse_command klogs env args = Parsed cmd"
  shows "in_i64 (flagInterval cmd)"
proof -
  have "in_i64 (flagInterval (default_command env))"
    by (simp add: default_command_def second_def in_i64_def)
  with assms show ?thesis
    unfolding parse_command_def
    using parse_args_invariant [of "all_flags klogs" "\<lambda>c. in_i64 (flagInterval c)"] interval_kept by blast
qed

lemma shipped_index_loads: "Load (decode_index err) rawData = Inr shipped_index"
  by (simp add: Load_def decode_index_def unmarshal_def parse_rawData decode_index_json)

lemma shipped_boards_load:
  "LoadNvidiaBoards (decode_boards err) hash rawNvidiaBoards =
     Inr \<lparr>boards = boards shipped_boards, version = hash rawNvidiaBoards\<rparr>"
  using decode_boards_json
  by (auto simp: LoadNvidiaBoards_def decode_boards_def unmarshal_def parse_rawNvidiaBoards)

lemma run_start_index:
  assumes "run_start fl up obs = Inr (cfg, ag)"
  shows "upIndex up = Inr (runIndex cfg)"
  using assms by (auto simp: run_start_def Let_def map_sum_def first_config_def split: option.splits sum.splits)

lemma node_agent_facts:
  assumes "node_agent e cmd obs = Inr (cfg, ag)"
  shows "runNode cfg = flagNode cmd" "flagNode cmd \<noteq> []" "second \<le> flagInterval cmd"
    "hMaxStale (aHealth ag) = wrap64 (3 * flagInterval cmd)" "runIndex cfg = shipped_index"
proof -
  note start = assms [unfolded node_agent_def]
  note t = flags.truncate_def
  show "runNode cfg = flagNode cmd" "flagNode cmd \<noteq> []" "second \<le> flagInterval cmd"
    "hMaxStale (aHealth ag) = wrap64 (3 * flagInterval cmd)"
    using run_start_facts(3,5,7,8) [OF start] by (simp_all add: t)
  show "runIndex cfg = shipped_index"
    using run_start_index [OF start] by (simp add: shipped_index_loads)
qed

lemma runController_facts:
  assumes "runController e cmd w = Inr (r, bs, m)"
  shows "Bin r = flagBin cmd \<and> effective_timeout r = 30 * second \<and> boards bs = boards shipped_boards \<and>
    (\<exists>h. mgrHealth m = Some h \<and> readyz h = (200, []) \<and> lastBeat h = envBeat e)"
  using assms
  by (auto simp: runController_def shipped_boards_load map_sum_def run_manager_def new_manager_def
      beat_def NewHealth_def Ready_def Beat_def readyz_def effective_timeout_def second_def
      split: sum.splits if_splits)

lemma flag_names: "\<forall>n \<in> set (map fst command_flags). flag_name n \<and> all_flags klogs n \<noteq> None"
  by (simp add: command_flags_def flag_name_def all_flags_def)

section \<open>Properties\<close>

text \<open>
  C18: what the program becomes.  For every environment and command line, and whatever the
  libraries answer, the program exits with 2 exactly for a bad command line, otherwise with 0 or
  1, or it becomes one of two things.  The agent runs for a named node, with an interval between
  a second and the largest duration and its liveness window three times that, at 64 bits, on
  exactly the shipped index.  The controller runs with the resolver's time limit of 30 seconds,
  on exactly the shipped board table, and is ready.
\<close>

theorem program_outcome:
  "case (main klogs e args obs w :: ('u, 'w) process) of
     Exits n \<Rightarrow> n \<le> 2 \<and> (n = 2 \<longleftrightarrow> parse_command klogs (envVar e) args = FlagError)
   | AgentRuns cfg ag \<Rightarrow>
       \<exists>cmd. parse_command klogs (envVar e) args = Parsed cmd \<and> \<not> cmdController cmd \<and>
         runNode cfg = flagNode cmd \<and> flagNode cmd \<noteq> [] \<and>
         second \<le> flagInterval cmd \<and> flagInterval cmd < 2 ^ 63 \<and>
         hMaxStale (aHealth ag) = wrap64 (3 * flagInterval cmd) \<and> runIndex cfg = shipped_index
   | ControllerRuns r bs m \<Rightarrow>
       \<exists>cmd h. parse_command klogs (envVar e) args = Parsed cmd \<and> cmdController cmd \<and>
         Bin r = flagBin cmd \<and> effective_timeout r = 30 * second \<and>
         boards bs = boards shipped_boards \<and> mgrHealth m = Some h \<and> readyz h = (200, [])"
proof (cases "parse_command klogs (envVar e) args")
  case (Parsed cmd)
  have range: "flagInterval cmd < 2 ^ 63" using interval_in_range [OF Parsed] by (simp add: in_i64_def)
  show ?thesis
  proof (cases "cmdController cmd")
    case True
    then show ?thesis
      by (cases "runController e cmd w :: string + (exec_resolver \<times> nvidia_boards \<times> ('u, 'w) manager)")
        (auto simp: main_def Parsed dest!: runController_facts)
  next
    case False
    show ?thesis
    proof (cases "node_agent e cmd obs")
      case (Inr started)
      obtain cfg ag where s: "started = (cfg, ag)" by fastforce
      show ?thesis
        using node_agent_facts [OF Inr [unfolded s]] False range by (simp add: main_def Parsed Inr s)
    qed (simp add: main_def Parsed False)
  qed
qed (simp_all add: main_def)

text \<open>
  Flags are read back.  A command line of settings \<open>--name=value\<close> of the program's flags
  makes exactly these settings on the defaults, in order, the last one of a flag winning, and
  is refused exactly if one of the values is.
\<close>

theorem settings_read_back:
  assumes "\<forall>(n, v) \<in> set nvs. n \<in> set (map fst command_flags)"
  shows "parse_command klogs env (map setting nvs) =
    (case apply_settings (all_flags klogs) nvs (default_command env) of
       None \<Rightarrow> FlagError | Some cmd \<Rightarrow> Parsed cmd)"
  unfolding parse_command_def
  by (rule parse_settings) (use assms flag_names [of klogs] in auto)

theorem settings_read_back_witness:
  "case parse_command (\<lambda>_. None) (\<lambda>_. [])
      (map setting [(''node-name'', ''a''), (''controller'', ''t''), (''node-name'', ''b=c'')]) of
     Parsed cmd \<Rightarrow> flagNode cmd = ''b=c'' \<and> cmdController cmd \<and> flagSysRoot cmd = ''/sys''
   | _ \<Rightarrow> False"
proof -
  let ?nvs = "[(''node-name'', ''a''), (''controller'', ''t''), (''node-name'', ''b=c'')]"
  have names: "\<forall>(n, v) \<in> set ?nvs. n \<in> set (map fst command_flags)"
    by (simp add: command_flags_def)
  show ?thesis
    unfolding settings_read_back [OF names]
    by (simp add: all_flags_def command_flags_def string_flag_def bool_flag_def ParseBool_def
        default_command_def envOr_def)
qed

text \<open>
  The liveness window of an interval from a third of the int64 range up to twice that is
  negative, so that such an agent never answers 200 once it has beaten.
\<close>

theorem huge_interval_never_live:
  assumes "node_agent e cmd obs = Inr (cfg, ag)" "2 ^ 63 \<le> 3 * flagInterval cmd" "3 * flagInterval cmd < 2 ^ 64"
    and "lastBeat (aHealth ag) \<le> now"
  shows "healthz now (aHealth ag) = (503, ''reconcile loop stalled'')"
proof -
  have "hMaxStale (aHealth ag) < 0"
    using node_agent_facts(4) [OF assms(1)] wrap64_high [OF assms(2,3)] assms(3) by simp
  with assms(4) show ?thesis by (simp add: healthz_def live_def)
qed

text \<open>
  Started on a node with an empty command line, the program is the agent of that node with the
  default interval; without a node name it exits.
\<close>

definition sample_surroundings :: "string \<Rightarrow> surroundings" where
  "sample_surroundings node =
     \<lparr>envVar = (\<lambda>v. if v = ''NODE_NAME'' then node else []), configFromFile = (\<lambda>_. Inl ''no file''),
      configInCluster = Inr (), envDynamic = Inr (), envSynced = True, envBeat = second,
      jsonError = id, tableHash = id, envStartup = sample_startup\<rparr>"

lemma sample_process_exits: "main (\<lambda>_. None) (sample_surroundings []) [] sample_obs w = Exits 1"
  by (simp add: main_def parse_command_def default_command_def sample_surroundings_def node_agent_def
      run_start_def check_flags_def flags.truncate_def)

end
