(* ===== verification/Placement.thy ===== *)
theory Placement
  imports Agent Template
begin

text \<open>
  The program end to end, over the state of one node agent: the devices that
  \<open>cmd/llmfit-dra\<close> publishes, the fit expression that the ModelClaim controller renders into a
  template, the devices that the scheduler may allocate for it, and the claim that the kubelet plugin
  prepares from the inventory of the same walk.
\<close>

section \<open>The handed-out device\<close>

text \<open>What the inventory and the publication of one completed cycle say of one name.\<close>

lemma published_and_held:
  assumes ok: "\<not> cycle_fails cfg obs" and d: "d \<in> set (published (cycle_step cfg obs ag))"
  obtains p q probed ram sys opts where
    "Walk (runPlatform cfg) (obsTree obs) (runSysRoot cfg) (runProcRoot cfg) = Inr probed"
    "d = device_entry (runPlatform cfg) probed (runIndex cfg) ram sys opts p" "p \<in> set probed"
    "inventory_lookup (aInventory (cycle_step cfg obs ag)) (devName d) = Some q"
    "q \<in> set probed" "Name q = Name p"
proof -
  obtain probed ram sys opts where
    w: "Walk (runPlatform cfg) (obsTree obs) (runSysRoot cfg) (runProcRoot cfg) = Inr probed" and
    i: "aInventory (cycle_step cfg obs ag) = inventory_set probed" and
    r: "aDesired (cycle_step cfg obs ag) = BuildResources (runNode cfg)
          (BuildDevices (runPlatform cfg) probed (runIndex cfg) ram sys opts)"
    using cycle_completed [OF ok, of ag] by (auto simp: Let_def)
  obtain p where p: "p \<in> set probed"
      "d = device_entry (runPlatform cfg) probed (runIndex cfg) ram sys opts p"
    using d BuildDevices_entry unfolding published_resources [OF r] by blast
  then have n: "devName d = Name p" by (simp add: device_entry_def)
  then obtain q where q: "inventory_lookup (inventory_set probed) (devName d) = Some q"
    using inventory_has [of "Name p" probed] p(1) by auto
  then have "q \<in> set probed" "Name q = Name p"
    by (auto simp: inventory_set_lookup n dest!: find_in)
  with that [OF w p(2) p(1) q [folded i]] show thesis by blast
qed

section \<open>The promise of a class and a selector\<close>

text \<open>
  What a workload gets from a device handed out for it: the published device meets the floors of
  the claim, and the nodes of the walked device of that name are among those the container gets.
\<close>

definition serves :: "bounds \<Rightarrow> string \<Rightarrow> int \<Rightarrow> device \<Rightarrow> bool" where
  "serves b cls m d \<longleftrightarrow>
     (\<exists>v. Capacity d ''memory'' = Some v \<and> int (MemoryGi b) * 2 ^ 30 \<le> v) \<and>
     (cls = cpuClass \<or> (\<exists>v. int_of (Attributes d) ''memoryBandwidthGBs'' = Some v \<and> int (MinBandwidthGBs b) \<le> v)) \<and>
     (m \<le> 0 \<or> (\<exists>v. int_of (Attributes d) ''computeTFLOPS'' = Some v \<and> m \<le> v)) \<and>
     attrBool d ''healthy''"

definition declared_nodes :: "cdi_device list \<Rightarrow> string set" where
  "declared_nodes cs = (\<Union>c \<in> set cs. set (DeviceNodes (ContainerEdits c)))"

lemma admitted_serves: "scheduler_admits b cls m (sl, d) \<Longrightarrow> serves b cls m d"
  by (auto simp: scheduler_admits_def serves_def selects_fit_expr attrBool_def)

lemma declared_nodes_of_claim:
  "declared_nodes (claim_specs invt uid (allocated invt rs)) =
     (\<Union>a \<in> set (own_results rs). set (DeviceNodes (editsFor (the (inventory_lookup invt (resDevice a))))))"
proof -
  let ?cs = "claim_specs invt uid (allocated invt rs)"
  have "declared_nodes ?cs = set (concat (map (\<lambda>c. DeviceNodes (ContainerEdits c)) ?cs))"
    by (simp add: declared_nodes_def)
  also have "\<dots> = (\<Union>ad \<in> set (allocated invt rs). set (DeviceNodes (editsFor (snd ad))))"
    using claim_specs_names_nodes [of invt uid "allocated invt rs"]
      claim_state_nodes [of uid "allocated invt rs"] by simp
  finally show ?thesis by (simp add: allocated_def)
qed

text \<open>The device that the plugin hands out for an admitted published GPU is a GPU with its node.\<close>

lemma admitted_gpu_handed_out:
  assumes ok: "\<not> cycle_fails cfg obs" and d: "d \<in> set (published (cycle_step cfg obs ag))"
    and sel: "selects DriverDomain (class_expr cls) d" and cls: "cls \<in> {DriverDomain, gpuClass}"
    and gpu: "attrStr d ''kind'' = ''gpu''"
  shows "\<exists>q e. inventory_lookup (aInventory (cycle_step cfg obs ag)) (devName d) = Some q \<and>
    dKind q = KindGPU \<and> DevNode q = ''/dev/dri/'' @ e \<and> DevNode q \<in> set (DeviceNodes (editsFor q)) \<and>
    attrStr d ''driver'' \<in> set preparableGPUDrivers"
proof -
  obtain p q probed ram sys opts where
    w: "Walk (runPlatform cfg) (obsTree obs) (runSysRoot cfg) (runProcRoot cfg) = Inr probed" and
    p: "d = device_entry (runPlatform cfg) probed (runIndex cfg) ram sys opts p" and
    q: "inventory_lookup (aInventory (cycle_step cfg obs ag)) (devName d) = Some q"
      "q \<in> set probed" "Name q = Name p"
    using ok d by (rule published_and_held)
  have sp: "\<not> vendor_managed opts p" "dKind p = KindGPU" "fst (Healthy p)"
    using selected_entry sel cls gpu p by blast+
  have k: "dKind q = KindGPU" using same_name_same_kind [OF q(3)] sp(2) by simp
  obtain e where e: "DevNode q = ''/dev/dri/'' @ e" using walked_gpu_has_node [OF w q(2) k] by blast
  have "attrStr d ''driver'' \<in> set preparableGPUDrivers"
    using sp by (auto simp: p attrStr_def device_entry_def str_of_def entry_driver vendor_managed_def
        preparableGPUDrivers_def)
  with q(1) k e show ?thesis by (auto simp: editsFor_def)
qed

section \<open>Claims on an agent that has just walked\<close>

definition just_walked :: "agent \<Rightarrow> bool" where
  "just_walked ag \<longleftrightarrow> (\<exists>cfg obs ag0. \<not> cycle_fails cfg obs \<and> ag = cycle_step cfg obs ag0)"

definition admitted :: "bounds \<Rightarrow> string \<Rightarrow> int \<Rightarrow> agent \<Rightarrow> string \<Rightarrow> bool" where
  \<comment> \<open>the scheduler may allocate the published device of this name\<close>
  "admitted b cls m ag n \<longleftrightarrow>
     (\<exists>d \<in> set (published ag). devName d = n \<and>
        selects DriverDomain (class_expr cls) d \<and> selects DriverDomain (fit_expr b cls m) d)"

definition delivered :: "bounds \<Rightarrow> string \<Rightarrow> int \<Rightarrow> agent \<Rightarrow> cdi_device list \<Rightarrow> string \<Rightarrow> bool" where
  \<comment> \<open>the device of this name serves the model, and a container gets its nodes\<close>
  "delivered b cls m ag cs n \<longleftrightarrow>
     (\<exists>d \<in> set (published ag). \<exists>q. devName d = n \<and> serves b cls m d \<and>
        inventory_lookup (aInventory ag) n = Some q \<and> set (DeviceNodes (editsFor q)) \<subseteq> declared_nodes cs \<and>
        (cls \<in> {DriverDomain, gpuClass} \<and> attrStr d ''kind'' = ''gpu'' \<longrightarrow>
           attrStr d ''driver'' \<in> set preparableGPUDrivers \<and> dKind q = KindGPU \<and>
           (\<exists>e. DevNode q = ''/dev/dri/'' @ e) \<and> DevNode q \<in> declared_nodes cs))"

lemma published_prepared:
  assumes "just_walked ag" and "Allocation claim = Some rs" and "own_results rs \<noteq> []"
    and names: "\<forall>a \<in> set (own_results rs). \<exists>d \<in> set (published ag). devName d = resDevice a"
    and "wFault io = None"
  obtains dirs where "prepareClaim (aInventory ag) io claim dir =
      (Inr (map (handed_out (claimUID claim)) (own_results rs)), dirs)"
    "map_of (last dirs) (spec_file (claimUID claim)) =
       Some (spec_text (claim_specs (aInventory ag) (claimUID claim) (allocated (aInventory ag) rs)))"
proof -
  obtain cfg obs ag0 where ag: "\<not> cycle_fails cfg obs" "ag = cycle_step cfg obs ag0"
    using assms(1) by (auto simp: just_walked_def)
  have "inventory_lookup (aInventory ag) (resDevice a) \<noteq> None" if a: "a \<in> set (own_results rs)" for a
  proof -
    obtain d where d: "d \<in> set (published (cycle_step cfg obs ag0))" "devName d = resDevice a"
      using names a ag(2) by blast
    from ag(1) d(1) show ?thesis unfolding ag(2) d(2) [symmetric] by (rule published_and_held) simp
  qed
  then have "missing_device (aInventory ag) rs = None"
    by (auto simp: missing_device_def find_None_iff)
  then have "fst (prepareClaim (aInventory ag) io claim dir) =
      Inr (map (handed_out (claimUID claim)) (own_results rs))"
    using assms(2,3,5) by (simp add: prepareClaim_eq writeSpec_error)
  then obtain dirs where p: "prepareClaim (aInventory ag) io claim dir =
      (Inr (map (handed_out (claimUID claim)) (own_results rs)), dirs)"
    by (metis prod.collapse)
  from prepareClaim_success [OF p] obtain rs' where "Allocation claim = Some rs'"
    "spec_of (last dirs) (claimUID claim) =
       Some (spec_text (claim_specs (aInventory ag) (claimUID claim) (allocated (aInventory ag) rs')))"
    by blast
  with assms(2) that [OF p] show thesis by (simp add: spec_of_def)
qed

lemma admitted_delivered:
  assumes "just_walked ag" and a: "a \<in> set (own_results rs)" and "admitted b cls m ag (resDevice a)"
  shows "delivered b cls m ag (claim_specs (aInventory ag) uid (allocated (aInventory ag) rs)) (resDevice a)"
proof -
  let ?cs = "claim_specs (aInventory ag) uid (allocated (aInventory ag) rs)"
  obtain cfg obs ag0 where ag: "\<not> cycle_fails cfg obs" "ag = cycle_step cfg obs ag0"
    using assms(1) by (auto simp: just_walked_def)
  obtain d where d: "d \<in> set (published ag)" "devName d = resDevice a"
    and sel: "selects DriverDomain (class_expr cls) d" "selects DriverDomain (fit_expr b cls m) d"
    using assms(3) by (auto simp: admitted_def)
  have s: "serves b cls m d" using admitted_serves sel by (auto simp: scheduler_admits_def)
  obtain q where q: "inventory_lookup (aInventory ag) (devName d) = Some q"
    using published_and_held [OF ag(1) d(1) [unfolded ag(2)]] unfolding ag(2) by blast
  have "set (DeviceNodes (editsFor (the (inventory_lookup (aInventory ag) (resDevice a))))) \<subseteq> declared_nodes ?cs"
    unfolding declared_nodes_of_claim using a by blast
  then have sub: "set (DeviceNodes (editsFor q)) \<subseteq> declared_nodes ?cs" using q d(2) by simp
  have "attrStr d ''driver'' \<in> set preparableGPUDrivers \<and> dKind q = KindGPU \<and>
      (\<exists>e. DevNode q = ''/dev/dri/'' @ e) \<and> DevNode q \<in> set (DeviceNodes (editsFor q))"
    if "cls \<in> {DriverDomain, gpuClass}" "attrStr d ''kind'' = ''gpu''"
    using admitted_gpu_handed_out [OF ag(1) d(1) [unfolded ag(2)] sel(1) that] q by (auto simp flip: ag(2))
  with d s q sub show ?thesis unfolding delivered_def by auto
qed

lemma just_walked_typed: "just_walked ag \<Longrightarrow> d \<in> set (published ag) \<Longrightarrow> well_typed d"
  unfolding just_walked_def using published_and_held entry_typed by metis

section \<open>Sample\<close>

definition sample_indexed_config :: run_config where
  "sample_indexed_config =
     first_config sample_flags sample_startup
       [(''1002:1586'', \<lparr>eModel = ''Radeon 8060S'', eMemoryBandwidthGBs = 256, eComputeTFLOPS = 59,
          eUnifiedMemory = True\<rparr>)] None False"

definition sample_walked_agent :: agent where
  "sample_walked_agent = cycle_step sample_indexed_config sample_obs sample_fresh_agent"

lemma sample_just_walked: "just_walked sample_walked_agent"
proof -
  have "\<not> cycle_fails sample_indexed_config sample_obs" by code_simp
  then show ?thesis unfolding just_walked_def sample_walked_agent_def by blast
qed

lemma sample_admitted: "admitted sample_bounds gpuClass 0 sample_walked_agent ''gpu-0000-c3-00-0''"
  by code_simp

lemma sample_no_fault: "wFault sample_io = None"
  by (simp add: sample_io_def)

lemma sample_kind:
  "d \<in> set (published sample_walked_agent) \<Longrightarrow> devName d = ''gpu-0000-c3-00-0'' \<Longrightarrow> attrStr d ''kind'' = ''gpu''"
proof -
  have "\<forall>d \<in> set (published sample_walked_agent). devName d = ''gpu-0000-c3-00-0'' \<longrightarrow>
      attrStr d ''kind'' = ''gpu''" by code_simp
  then show "d \<in> set (published sample_walked_agent) \<Longrightarrow> devName d = ''gpu-0000-c3-00-0'' \<Longrightarrow>
      attrStr d ''kind'' = ''gpu''" by blast
qed

section \<open>Properties\<close>

text \<open>
  C4: what the scheduler places, a node can serve.  Take a claim whose template carries the
  rendered fit expression of its bounds, and whose allocated devices the class and that expression
  select among the devices an agent published in its last walk.  The plugin of that agent prepares
  the claim; every allocated device meets the memory, bandwidth and compute floors and is healthy,
  its nodes are in the claim's spec, and for a GPU of the base or the GPU class these include the
  DRM node of a GPU whose driver the plugin can hand out.
\<close>

theorem placed_claim_served:
  assumes "just_walked ag" and "backendFor cls (TargetDriver (Spec mc)) \<noteq> backendNvidia"
    and "Allocation claim = Some rs" and "own_results rs \<noteq> []"
    and placed: "\<forall>a \<in> set (own_results rs). admitted b cls (computeFloor mc) ag (resDevice a)"
    and "wFault io = None"
  shows "(\<exists>r. Exactly (hd (Requests (BuildTemplate mc b cls extra bs))) = Some r \<and> reqClassName r = cls \<and>
       CelExpression (hd (Selectors r)) = Some (render (fit_expr b cls (computeFloor mc)))) \<and>
    (\<exists>dirs cs. prepareClaim (aInventory ag) io claim dir =
         (Inr (map (handed_out (claimUID claim)) (own_results rs)), dirs) \<and>
       map_of (last dirs) (spec_file (claimUID claim)) = Some (spec_text cs) \<and>
       (\<forall>a \<in> set (own_results rs). delivered b cls (computeFloor mc) ag cs (resDevice a)))"
proof
  show "\<exists>r. Exactly (hd (Requests (BuildTemplate mc b cls extra bs))) = Some r \<and> reqClassName r = cls \<and>
       CelExpression (hd (Selectors r)) = Some (render (fit_expr b cls (computeFloor mc)))"
    using assms(2) by (simp add: BuildTemplate_def template_fit_def FitCEL_is_render)
  have "\<forall>a \<in> set (own_results rs). \<exists>d \<in> set (published ag). devName d = resDevice a"
    using placed by (auto simp: admitted_def)
  then obtain dirs where "prepareClaim (aInventory ag) io claim dir =
      (Inr (map (handed_out (claimUID claim)) (own_results rs)), dirs)"
    "map_of (last dirs) (spec_file (claimUID claim)) =
       Some (spec_text (claim_specs (aInventory ag) (claimUID claim) (allocated (aInventory ag) rs)))"
    using published_prepared assms by metis
  then show "\<exists>dirs cs. prepareClaim (aInventory ag) io claim dir =
         (Inr (map (handed_out (claimUID claim)) (own_results rs)), dirs) \<and>
       map_of (last dirs) (spec_file (claimUID claim)) = Some (spec_text cs) \<and>
       (\<forall>a \<in> set (own_results rs). delivered b cls (computeFloor mc) ag cs (resDevice a))"
    using admitted_delivered [OF assms(1)] placed by blast
qed

theorem placed_claim_served_witness:
  "\<exists>dirs cs e. prepareClaim (aInventory sample_walked_agent) sample_io sample_published_claim [] =
     (Inr [handed_out ''u1'' (hd (the (Allocation sample_published_claim)))], dirs) \<and>
   map_of (last dirs) (spec_file ''u1'') = Some (spec_text cs) \<and> (''/dev/dri/'' @ e) \<in> declared_nodes cs"
proof -
  let ?rs = "the (Allocation sample_published_claim)"
  have c: "Allocation sample_published_claim = Some ?rs" "own_results ?rs \<noteq> []"
    "own_results ?rs = [hd ?rs]" "resDevice (hd ?rs) = ''gpu-0000-c3-00-0''" "claimUID sample_published_claim = ''u1''"
    by (simp_all add: sample_published_claim_def own_results_def)
  have m: "computeFloor sample_claim = 0" "backendFor gpuClass (TargetDriver (Spec sample_claim)) \<noteq> backendNvidia"
    by code_simp+
  obtain dirs cs where p: "prepareClaim (aInventory sample_walked_agent) sample_io sample_published_claim [] =
       (Inr [handed_out ''u1'' (hd ?rs)], dirs)"
     "map_of (last dirs) (spec_file ''u1'') = Some (spec_text cs)"
     "delivered sample_bounds gpuClass 0 sample_walked_agent cs ''gpu-0000-c3-00-0''"
    using placed_claim_served [where b = sample_bounds and io = sample_io and dir = "[]" and
        extra = "[]" and bs = shipped_boards, OF sample_just_walked m(2) c(1,2)]
      sample_admitted c(3-5) m(1) sample_no_fault by auto
  from p(3) obtain e where "''/dev/dri/'' @ e \<in> declared_nodes cs"
    using sample_kind by (auto simp: delivered_def)
  with p show ?thesis by blast
qed

text \<open>
  C9: a positive verdict is honoured.  When the controller counts an available device for a
  claim on slices that agents published after their last walks, some current slice lists a device
  that no claim holds and that meets the floors, and any claim allocated that device is prepared
  by the node that published it, with the device's nodes in its spec.
\<close>

theorem verdict_honoured:
  assumes cluster: "\<forall>sl \<in> set slices. Driver sl = DriverDomain \<longrightarrow>
      just_walked (agent_of sl) \<and> set (Devices sl) \<subseteq> set (published (agent_of sl))"
    and cls: "cls \<in> set shipped_compute_classes"
    and small: "MemoryGi b < 2 ^ 33" "MinBandwidthGBs b < 2 ^ 63" and m: "0 \<le> m"
    and available: "0 < cAvailable (EvaluateSlices slices held b cls m)"
  shows "\<exists>sl d. (sl, d) \<in> set (current_devices slices DriverDomain) \<and>
    \<not> is_held held (sl, d) \<and> serves b cls m d \<and>
    (\<forall>claim rs io dir. Allocation claim = Some rs \<and> own_results rs \<noteq> [] \<and>
       (\<forall>a \<in> set (own_results rs). resDevice a = devName d) \<and> wFault io = None \<longrightarrow>
       (\<exists>dirs cs. prepareClaim (aInventory (agent_of sl)) io claim dir =
            (Inr (map (handed_out (claimUID claim)) (own_results rs)), dirs) \<and>
          map_of (last dirs) (spec_file (claimUID claim)) = Some (spec_text cs) \<and>
          delivered b cls m (agent_of sl) cs (devName d)))"
proof -
  have "filter (\<lambda>p. fits b cls m p \<and> \<not> is_held held p) (current_devices slices DriverDomain) \<noteq> []"
    using available by (auto simp: EvaluateSlices_counts)
  then obtain sl d where p: "(sl, d) \<in> set (current_devices slices DriverDomain)"
    "fits b cls m (sl, d)" "\<not> is_held held (sl, d)"
    by (auto simp: filter_empty_conv)
  have "sl \<in> set slices" "Driver sl = DriverDomain" "d \<in> set (Devices sl)"
    using current_devices_set [OF p(1)] by simp_all
  then have walked: "just_walked (agent_of sl)" and d: "d \<in> set (published (agent_of sl))"
    using cluster by blast+
  have "scheduler_admits b cls m (sl, d)"
    using p(2) fits_iff_scheduler_admits [OF _ cls small m, of "(sl, d)"] just_walked_typed [OF walked d] by simp
  then have s: "serves b cls m d" and adm: "admitted b cls m (agent_of sl) (devName d)"
    using admitted_serves d by (auto simp: admitted_def scheduler_admits_def)
  have "\<exists>dirs cs. prepareClaim (aInventory (agent_of sl)) io claim dir =
            (Inr (map (handed_out (claimUID claim)) (own_results rs)), dirs) \<and>
          map_of (last dirs) (spec_file (claimUID claim)) = Some (spec_text cs) \<and>
          delivered b cls m (agent_of sl) cs (devName d)"
    if c: "Allocation claim = Some rs" "own_results rs \<noteq> []" "wFault io = None"
      and names: "\<forall>a \<in> set (own_results rs). resDevice a = devName d" for claim rs io dir
  proof -
    have named: "\<forall>a \<in> set (own_results rs). \<exists>d \<in> set (published (agent_of sl)). devName d = resDevice a"
      using names d by auto
    obtain a where a: "a \<in> set (own_results rs)" "resDevice a = devName d"
      using c(2) names by (meson last_in_set)
    let ?cs = "claim_specs (aInventory (agent_of sl)) (claimUID claim) (allocated (aInventory (agent_of sl)) rs)"
    have "delivered b cls m (agent_of sl) ?cs (devName d)"
      using admitted_delivered [OF walked a(1)] adm a(2) by metis
    with published_prepared [OF walked c(1,2) named c(3), of dir] show ?thesis by metis
  qed
  with p s show ?thesis by blast
qed

definition sample_walked_slice :: resource_slice where
  "sample_walked_slice =
     \<lparr>Driver = DriverDomain, PoolName = ''n1'', PoolGeneration = 1, NodeName = Some ''n1'',
      Devices = published sample_walked_agent\<rparr>"

theorem verdict_honoured_witness:
  "\<exists>d dirs cs. d \<in> set (published sample_walked_agent) \<and> serves sample_bounds gpuClass 0 d \<and>
     prepareClaim (aInventory sample_walked_agent) sample_io
       (sample_published_claim\<lparr>Allocation := Some [\<lparr>resRequest = ''gpu'', resDriver = DriverName,
          resPool = ''n1'', resDevice = devName d\<rparr>]\<rparr>) [] =
       (Inr [handed_out ''u1'' \<lparr>resRequest = ''gpu'', resDriver = DriverName, resPool = ''n1'',
          resDevice = devName d\<rparr>], dirs) \<and>
     delivered sample_bounds gpuClass 0 sample_walked_agent cs (devName d)"
proof -
  have cls: "gpuClass \<in> set shipped_compute_classes" by (simp add: shipped_compute_classes_def)
  have small: "MemoryGi sample_bounds < 2 ^ 33" "MinBandwidthGBs sample_bounds < 2 ^ 63" "(0::int) \<le> 0"
    by (simp_all add: sample_bounds_def)
  have n: "0 < cAvailable (EvaluateSlices [sample_walked_slice] (\<lambda>_. None) sample_bounds gpuClass 0)"
    by code_simp
  have cluster: "\<forall>sl \<in> set [sample_walked_slice]. Driver sl = DriverDomain \<longrightarrow>
      just_walked sample_walked_agent \<and> set (Devices sl) \<subseteq> set (published sample_walked_agent)"
    using sample_just_walked by (simp add: sample_walked_slice_def)
  obtain sl d where d: "(sl, d) \<in> set (current_devices [sample_walked_slice] DriverDomain)"
    "serves sample_bounds gpuClass 0 d"
    and served: "\<And>claim rs io dir. Allocation claim = Some rs \<Longrightarrow> own_results rs \<noteq> [] \<Longrightarrow>
       \<forall>a \<in> set (own_results rs). resDevice a = devName d \<Longrightarrow> wFault io = None \<Longrightarrow>
       \<exists>dirs cs. prepareClaim (aInventory sample_walked_agent) io claim dir =
            (Inr (map (handed_out (claimUID claim)) (own_results rs)), dirs) \<and>
          map_of (last dirs) (spec_file (claimUID claim)) = Some (spec_text cs) \<and>
          delivered sample_bounds gpuClass 0 sample_walked_agent cs (devName d)"
    using verdict_honoured [OF cluster cls small n] by blast
  let ?a = "\<lparr>resRequest = ''gpu'', resDriver = DriverName, resPool = ''n1'', resDevice = devName d\<rparr>"
  let ?c = "sample_published_claim\<lparr>Allocation := Some [?a]\<rparr>"
  have c: "Allocation ?c = Some [?a]" "own_results [?a] = [?a]" "claimUID ?c = ''u1''"
    by (simp_all add: own_results_def sample_published_claim_def)
  have "d \<in> set (published sample_walked_agent)"
    using current_devices_set [OF d(1)] by (auto simp: sample_walked_slice_def)
  moreover have "\<exists>dirs cs. prepareClaim (aInventory sample_walked_agent) sample_io ?c [] =
            (Inr [handed_out ''u1'' ?a], dirs) \<and>
          delivered sample_bounds gpuClass 0 sample_walked_agent cs (devName d)"
    using served [OF c(1), of sample_io "[]"] c(2,3) sample_no_fault by auto
  ultimately show ?thesis using d(2) by blast
qed

end
