(* ===== verification/Spec2Isabelle.thy ===== *)
theory Spec2Isabelle
  imports SatisfiableNvidia Template Isolation Wakeups Workers Draining Report CdiText PrepareRace Lifecycle
    Listening DeepCopy Command Placement
begin

text \<open>
  A verification library for llmfit-dra, a Kubernetes Dynamic Resource Allocation driver that
  places language models on devices they fit.  Two programs share the repository.

  \<^item> The node agent (\<open>cmd/llmfit-dra\<close>, a DaemonSet) probes the accelerators of its node, joins
    them with a capability report or an embedded index, and publishes the result as
    ResourceSlices; when a pod's claim is allocated a device, the agent's kubelet plugin turns
    the allocation into a CDI spec file that gives the container its device nodes.
  \<^item> The controller (\<open>internal/modelclaim\<close>, a Deployment) resolves a ModelClaim into memory and
    bandwidth bounds, renders them as selector expressions into a ResourceClaimTemplate of the
    same name, and reports which published devices would satisfy them.

  The scheduler stands between the two: it evaluates the class and claim selectors on the
  published devices.  The library models both programs and the meaning of the selectors, so
  that what one side promises can be compared with what the other side relies on.

  \<^bold>\<open>Conventions.\<close>  A Go string is its list of bytes.  An int64 is an \<open>int\<close> whose results pass
  through \<open>wrap64\<close>, a uint64 a \<open>nat\<close> below \<open>2 ^ 64\<close>; a float64 is a rational, rounded by \<open>f64\<close> after
  each operation (theory Prelude).  A Go pair of value and error is a sum, the error on the
  left; a map is a partial function, or an association list where its size or order matters.
  Shared state is passed explicitly, one record per component.  What the code gets from
  elsewhere is a parameter: the file tree, the answers of the API server, the output of the
  llmfit binary and of its server, clocks, the hash of the board table, the text of a JSON
  error, and the conversion of an out-of-range float64.

  \<^bold>\<open>Shared theories.\<close>
  \<^item> Prelude: integers, float64, loops as folds, results.
  \<^item> GoStrings: the functions of \<open>strings\<close>, \<open>strconv\<close> and \<open>fmt\<close> the driver calls; Utf8: the
    validity of UTF-8; GoFlags: the parser of the \<open>flag\<close> package, with booleans and durations.
  \<^item> Json: the writer and the reader of \<open>encoding/json\<close>; JsonRoundtrip: what is written in its
    indented form is read back; JsonDecode: decoding into strings, integers, float64s, pointers,
    slices, maps and structs, over the zero value or an old one, with an invariant per field.
  \<^item> Kube: devices, slices, claims and templates of \<open>resource.k8s.io/v1\<close>.
  \<^item> Store: the contract of a keyed cache, as a locale, which the inventory, the cache of
    resolved bounds and the memory of events interpret.
  \<^item> Copier: the contract of a deep copy over a memory of cells, as a locale, with the
    combinators for pointers, slices and structs that keep it.

  \<^bold>\<open>The controller.\<close>
  \<^item> ClaimApi: the ModelClaim type (\<open>api/v1alpha1\<close>), the resolved bounds and the resolver's
    arguments (\<open>resolver.go\<close>), the choice of backend (\<open>backend.go\<close>).
  \<^item> DeepCopy: the generated copy functions (\<open>zz_generated.deepcopy.go\<close>) over such a memory: a
    copy has the same value and shares nothing that can be written.
  \<^item> Resolver: the run of the llmfit binary and the decoding of its answer (\<open>resolver.go\<close>).
  \<^item> Cel: the fragment of the expression language the driver generates, its text and its
    three-valued meaning (\<open>None\<close> is an evaluation error).
  \<^item> FitCel: the fit selector of \<open>template.go\<close> and the selectors of \<open>deploy/deviceclass.yaml\<close>.
  \<^item> Scan: the parts the two evaluations share: pool generations, allocated devices, and the
    scan over the candidates as a locale.
  \<^item> Satisfiable: \<open>EvaluateSlices\<close> (\<open>satisfiable.go\<close>).  It counts exactly the devices that the
    shipped class and the generated selector select, and explains a miss by the nearest one.
  \<^item> Boards, Nvidia, SatisfiableNvidia: the board table (\<open>internal/index/nvidia.go\<close>), the
    selector generated for \<open>gpu.nvidia.com\<close> (\<open>nvidia.go\<close>) and the evaluation that mirrors it
    (\<open>satisfiable_nvidia.go\<close>).  The text has the meaning of a disjunction over boards, grouping
    loses nothing, and the MIG thresholds separate the partitions that fit.  Tables: the two
    embedded JSON files, which load into exactly the shipped tables.
  \<^item> Template: the rendered template and the drift test (\<open>template.go\<close>).
  \<^item> Memo: the cache of resolved bounds and the suppression of repeated events
    (\<open>controller.go\<close>, \<open>events.go\<close>).
  \<^item> Controller: one reconcile with every branch and every call to the API server, the answer
    to the queue, and the event filters (\<open>controller.go\<close>).
  \<^item> Reconciling: an abstract protocol of calls on the template, refined by every reconcile;
    templates of somebody else are untouched, a failed resolution touches none, a reconcile
    converges, and the two conditions agree.
  \<^item> Isolation: reconciles beside each other.  Whatever other clients do to objects of other names
    between the API calls of a reconcile, it runs as if it were alone, and changes only its own.
  \<^item> Wakeups: what the event filters call irrelevant changes no verdict, and an event that
    changes one queues the ModelClaim.
  \<^item> Workers: calls of the resolver by several workers, as interleavings of their critical
    sections on the cache; Draining: the workers, the queue and the shutdown that waits for them.
  \<^item> Manager: the controller with its metrics and health: start, queue items and idle ticks.

  \<^bold>\<open>The node agent.\<close>
  \<^item> Probe: the walk of \<open>/sys\<close> and \<open>/proc\<close> (\<open>pkg/probe\<close>), over a file tree of type \<open>fs\<close>.
  \<^item> LLMFit: the capability report, its transports and its cache (\<open>internal/llmfit\<close>); Report: the
    decoding of a report.
  \<^item> Publisher: the join into published devices, and coexistence with vendor drivers
    (\<open>internal/publisher\<close>).
  \<^item> Cdi: the spec files (\<open>internal/nodeplugin/cdi.go\<close>); a write is the sequence of directory
    states that a watcher may see.  CdiText: the text of a file is JSON that reads back.
  \<^item> NodePlugin: preparing, unpreparing and collecting claims (\<open>internal/nodeplugin/plugin.go\<close>);
    PrepareRace: preparing while the probe loop replaces the inventory.
    Lifecycle: any history of preparations, removals, deaths and starts; a claim keeps its spec
    until it is unprepared, and every spec on disk is accounted for.
  \<^item> Hotplug: the uevent listener (\<open>internal/hotplug\<close>), its two goroutines as a step relation
    with an invariant, so that no event is lost, and a rank that bounds the debouncer.
    Listening: the socket, the shutdown watcher and the reader's exit around it, a refinement
    in which the socket is closed exactly once and every goroutine ends.
  \<^item> Observe: metrics and health (\<open>internal/observe\<close>).
  \<^item> Agent: start-up, the probe cycle and the loop (\<open>cmd/llmfit-dra/main.go\<close>).  Its properties
    compose the components: the gauges mirror the publication, the selectors are defined on
    everything published, a selected GPU can be prepared, no GPU is offered beside a vendor
    driver, a claim on a published device is prepared, and liveness follows completed cycles.
  \<^item> Command: the program itself: flags and their defaults, the choice between agent and
    controller, the start of either on the embedded tables, and the exit codes.

  \<^bold>\<open>Across both programs.\<close>  Placement follows a claim from the rendered template over the
  scheduler's choice to the container: what is placed is prepared, with the nodes of a device that
  meets the floors, and a verdict that counts an available device is honoured.  This theory adds
  that the controller's counts, over slices the agents published, are those of the scheduler.

  \<^bold>\<open>Bounds and fuel.\<close>  The agreement of evaluation and selector needs a memory floor below
  \<open>2 ^ 33\<close> GiB and a bandwidth floor below \<open>2 ^ 63\<close> GB/s: beyond them the code's int64 arithmetic
  wraps, which Satisfiable and Nvidia state and prove as theorems of their own.  The search for
  the shortest decimal of a float64 in GoStrings tries 1400 scales, enough for the 1074
  fractional binary digits and the 309 integer digits a float64 can have.  The JSON reader runs
  on fuel of twice the length of the text plus two, which Json proves enough for every text, and
  has the nesting limit of 10000 of the Go package.  The round trip of JsonRoundtrip covers
  strings, natural numbers, booleans, null, arrays and objects.  Every other
  recursion is structural or has a measure.

  \<^bold>\<open>Not modelled.\<close>  The registration of the API types with the scheme
  (\<open>groupversion_info.go\<close>), the construction of Kubernetes clients, the informers and the work
  queue (the caches are arguments of a reconcile, and Draining assumes what the queue
  documents); events forgotten by another worker between two of a reconcile's own (Isolation
  lets others act on the cluster, Workers on the cache of bounds); the HTTP server and client, the exec of the binary, histogram buckets
  and log text; the kernel's side of the netlink socket; the copies of ObjectMeta, ListMeta and
  Condition, which are library; the hash of the board table; and the helper libraries that serve
  the kubelet's sockets and write the slices.
\<close>

section \<open>From the agents' publication to the controller's verdict\<close>

text \<open>
  A slice some node agent published: its devices are among those the agent's publisher holds
  after some run of its loop.
\<close>

definition published_by_agent :: "resource_slice \<Rightarrow> bool" where
  "published_by_agent sl \<longleftrightarrow>
     (\<exists>fl up obs cfg ag evs. run_start fl up obs = Inr (cfg, ag) \<and>
        set (Devices sl) \<subseteq> set (published (agent_run cfg evs ag)))"

lemma published_by_agent_typed: "published_by_agent sl \<Longrightarrow> d \<in> set (Devices sl) \<Longrightarrow> well_typed d"
proof -
  assume "published_by_agent sl" and d: "d \<in> set (Devices sl)"
  then obtain fl up obs cfg ag evs where start: "run_start fl up obs = Inr (cfg, ag)"
    and "d \<in> set (published (agent_run cfg evs ag))"
    unfolding published_by_agent_def by blast
  moreover have "mirrored cfg (agent_run cfg evs ag)"
    using run_start_facts(2) [OF start] by (rule mirrored_run)
  ultimately show "well_typed d" by (metis mirrored_published BuildDevices_entry entry_typed)
qed

text \<open>
  C8: the controller's verdict on slices the node agents published.  With no assumption on the
  devices, the counts of the verdict are those of the devices that the shipped class and the
  generated selector both select, for every compute class and all bounds of realistic size.
\<close>

theorem verdict_counts_schedulable:
  assumes published: "\<forall>sl \<in> set slices. Driver sl = DriverDomain \<longrightarrow> published_by_agent sl"
    and cls: "cls \<in> set shipped_compute_classes"
    and small: "MemoryGi b < 2 ^ 33" "MinBandwidthGBs b < 2 ^ 63" and m: "0 \<le> m"
  shows "cDevices (EvaluateSlices slices held b cls m) =
           length (filter (scheduler_admits b cls m) (current_devices slices DriverDomain)) \<and>
         cAvailable (EvaluateSlices slices held b cls m) =
           length (filter (\<lambda>p. scheduler_admits b cls m p \<and> \<not> is_held held p)
             (current_devices slices DriverDomain))"
proof -
  have "fits b cls m p \<longleftrightarrow> scheduler_admits b cls m p"
    if p: "p \<in> set (current_devices slices DriverDomain)" for p
  proof (rule fits_iff_scheduler_admits [OF _ cls small m])
    have "fst p \<in> set slices" "Driver (fst p) = DriverDomain" "snd p \<in> set (Devices (fst p))"
      using current_devices_set [OF p] by blast+
    then show "well_typed (snd p)" using published published_by_agent_typed by blast
  qed
  then show ?thesis
    unfolding EvaluateSlices_counts
    by (intro conjI arg_cong [where f = length] filter_cong) auto
qed

theorem verdict_counts_schedulable_witness:
  "\<exists>sl. published_by_agent sl \<and> map devName (Devices sl) = [''gpu-0000-c3-00-0''] \<and>
     cDevices (EvaluateSlices [sl] (\<lambda>_. None) sample_bounds gpuClass 0) =
       length (filter (scheduler_admits sample_bounds gpuClass 0) (current_devices [sl] DriverDomain))"
proof -
  obtain cfg ag d where s: "run_start sample_flags sample_startup sample_obs = Inr (cfg, ag)"
    and d: "d \<in> set (published (agent_run cfg [(Tick, sample_no_ram)] ag))"
    and gpu: "devName d = ''gpu-0000-c3-00-0''"
    by (rule sample_agent)
  let ?sl = "\<lparr>Driver = DriverDomain, PoolName = ''n1'', PoolGeneration = 1, NodeName = Some ''n1'',
      Devices = [d]\<rparr>"
  have "set (Devices ?sl) \<subseteq> set (published (agent_run cfg [(Tick, sample_no_ram)] ag))"
    using d by simp
  then have pub: "published_by_agent ?sl" unfolding published_by_agent_def using s by blast
  have "cDevices (EvaluateSlices [?sl] (\<lambda>_. None) sample_bounds gpuClass 0) =
      length (filter (scheduler_admits sample_bounds gpuClass 0) (current_devices [?sl] DriverDomain))"
    by (rule verdict_counts_schedulable [THEN conjunct1])
      (use pub in \<open>simp_all add: shipped_compute_classes_def sample_bounds_def\<close>)
  then show ?thesis using pub gpu by (intro exI [of _ ?sl]) simp
qed

end
